(* ===== verification/Gruff_Prelude.thy ===== *)
theory Gruff_Prelude
  imports Main "HOL-Library.Char_ord" "HOL-Library.List_Lexorder" "HOL-Library.Multiset"
begin

text \<open>
  Shared vocabulary of the development: results of fallible operations, the parts of Go's
  \<^verbatim>\<open>slices\<close>, \<^verbatim>\<open>cmp\<close>, \<^verbatim>\<open>time\<close> and \<^verbatim>\<open>strconv\<close> packages the portal calls, and the lemmas about
  them the components share. A Go string is the list of its bytes (\<^typ>\<open>string\<close>, one \<^typ>\<open>char\<close> per
  byte). An instant is the number of nanoseconds since the Unix epoch and a duration a number
  of nanoseconds, both \<^typ>\<open>int\<close>.
\<close>

named_theorems result_simps \<open>evaluation of chained fallible steps\<close>
named_theorems store_simps \<open>facts about lists of sessions and revocations\<close>
named_theorems text_simps \<open>facts about generated text\<close>

section \<open>Fallible operations\<close>

text \<open>
  A Go function returning \<^verbatim>\<open>(T, error)\<close> returns \<^term>\<open>Inl e\<close> for a non-nil error and
  \<^term>\<open>Inr v\<close> for a value with a nil error. \<open>and_then\<close> is the
  \<^verbatim>\<open>if err != nil { return err }\<close> between two steps.
\<close>

definition and_then :: "'e + 'a \<Rightarrow> ('a \<Rightarrow> 'e + 'b) \<Rightarrow> 'e + 'b" where
  "and_then r f = (case r of Inl e \<Rightarrow> Inl e | Inr a \<Rightarrow> f a)"

definition fail_if :: "bool \<Rightarrow> 'e \<Rightarrow> 'e + unit" where
  "fail_if c e = (if c then Inl e else Inr ())"

lemma and_then_simps [simp, result_simps]:
  "and_then (Inl e) f = Inl e"
  "and_then (Inr a) f = f a"
  by (simp_all add: and_then_def)

lemma and_then_Inr_iff [result_simps]:
  "and_then r f = Inr b \<longleftrightarrow> (\<exists>a. r = Inr a \<and> f a = Inr b)"
  by (cases r) simp_all

lemma and_then_Inl_iff [result_simps]:
  "and_then r f = Inl e \<longleftrightarrow> r = Inl e \<or> (\<exists>a. r = Inr a \<and> f a = Inl e)"
  by (cases r) simp_all

lemma fail_if_Inr [simp, result_simps]: "fail_if c e = Inr u \<longleftrightarrow> \<not> c"
  by (simp add: fail_if_def)

lemma fail_if_Inl [simp, result_simps]: "fail_if c e = Inl e' \<longleftrightarrow> c \<and> e' = e"
  by (auto simp: fail_if_def)

text \<open>\<^verbatim>\<open>fmt.Errorf("...: %w", err)\<close>: the same outcome with the error wrapped.\<close>

definition wrap_error :: "('e \<Rightarrow> 'f) \<Rightarrow> 'e + 'a \<Rightarrow> 'f + 'a" where
  "wrap_error f r = (case r of Inl e \<Rightarrow> Inl (f e) | Inr a \<Rightarrow> Inr a)"

lemma wrap_error_simps [simp, result_simps]:
  "wrap_error f r = Inr a \<longleftrightarrow> r = Inr a"
  "wrap_error f (Inl e) = Inl (f e)" "wrap_error f (Inr a) = Inr a"
  by (simp_all add: wrap_error_def split: sum.splits)

lemma wrap_error_Inl [result_simps]: "wrap_error f r = Inl e \<longleftrightarrow> (\<exists>e'. r = Inl e' \<and> e = f e')"
  by (cases r) auto

text \<open>A loop that checks every element and stops at the first error.\<close>

fun check_all :: "('a \<Rightarrow> 'e + unit) \<Rightarrow> 'a list \<Rightarrow> 'e + unit" where
  "check_all f [] = Inr ()"
| "check_all f (x # xs) = and_then (f x) (\<lambda>_. check_all f xs)"

lemma check_all_Inr [result_simps]: "check_all f xs = Inr u \<longleftrightarrow> (\<forall>x\<in>set xs. f x = Inr ())"
  by (induction xs) (auto simp: and_then_Inr_iff)

lemma check_all_Inl: "check_all f xs = Inl e \<Longrightarrow> \<exists>x\<in>set xs. f x = Inl e"
  by (induction xs) (auto simp: and_then_Inl_iff)

section \<open>Slices\<close>

text \<open>\<^verbatim>\<open>slices.Contains\<close>, \<^verbatim>\<open>slices.ContainsFunc\<close>, \<^verbatim>\<open>slices.IndexFunc\<close> and \<^verbatim>\<open>cmp.Or\<close> on strings.\<close>

definition slice_contains :: "'a list \<Rightarrow> 'a \<Rightarrow> bool" where
  "slice_contains xs x = List.member xs x"

definition slice_contains_func :: "'a list \<Rightarrow> ('a \<Rightarrow> bool) \<Rightarrow> bool" where
  "slice_contains_func xs f = list_ex f xs"

lemma slice_contains_iff [simp]: "slice_contains xs x \<longleftrightarrow> x \<in> set xs"
  by (simp add: slice_contains_def)

lemma slice_contains_func_iff [simp]: "slice_contains_func xs f \<longleftrightarrow> (\<exists>x\<in>set xs. f x)"
  by (simp add: slice_contains_func_def list_ex_iff)

definition cmp_or :: "string \<Rightarrow> string \<Rightarrow> string" where
  "cmp_or value fallback = (if value = [] then fallback else value)"

lemma cmp_or_nonempty [simp]: "fallback \<noteq> [] \<Longrightarrow> cmp_or value fallback \<noteq> []"
  by (simp add: cmp_or_def)

text \<open>
  \<^verbatim>\<open>slices.SortStableFunc\<close> with a three-way comparison. Insertion keeps equal elements in their
  order, which is all that stability asks for.
\<close>

fun insert_by :: "('a \<Rightarrow> 'a \<Rightarrow> int) \<Rightarrow> 'a \<Rightarrow> 'a list \<Rightarrow> 'a list" where
  "insert_by cmp x [] = [x]"
| "insert_by cmp x (y # ys) = (if cmp x y \<le> 0 then x # y # ys else y # insert_by cmp x ys)"

fun sort_stable_func :: "('a \<Rightarrow> 'a \<Rightarrow> int) \<Rightarrow> 'a list \<Rightarrow> 'a list" where
  "sort_stable_func cmp [] = []"
| "sort_stable_func cmp (x # xs) = insert_by cmp x (sort_stable_func cmp xs)"

lemma mset_insert_by [simp]: "mset (insert_by cmp x xs) = add_mset x (mset xs)"
  by (induction xs) auto

lemma mset_sort_stable_func [simp]: "mset (sort_stable_func cmp xs) = mset xs"
  by (induction xs) auto

lemma set_sort_stable_func [simp]: "set (sort_stable_func cmp xs) = set xs"
  by (metis mset_sort_stable_func set_mset_mset)

lemma length_sort_stable_func [simp]: "length (sort_stable_func cmp xs) = length xs"
  by (metis mset_sort_stable_func size_mset)

lemma distinct_sort_stable_func [simp]: "distinct (sort_stable_func cmp xs) = distinct xs"
  by (metis mset_eq_imp_distinct_iff mset_sort_stable_func)

text \<open>
  What a comparison must satisfy for the sort to mean anything: every pair is related one way
  and the relation is transitive.
\<close>

locale preorder_cmp =
  fixes cmp :: "'a \<Rightarrow> 'a \<Rightarrow> int"
  assumes cmp_total: "\<not> cmp x y \<le> 0 \<Longrightarrow> cmp y x \<le> 0"
    and cmp_trans: "cmp x y \<le> 0 \<Longrightarrow> cmp y z \<le> 0 \<Longrightarrow> cmp x z \<le> 0"
begin

lemma set_insert_by: "set (insert_by cmp x xs) = insert x (set xs)"
  by (induction xs) auto

lemma sorted_insert_by:
  "sorted_wrt (\<lambda>x y. cmp x y \<le> 0) xs \<Longrightarrow> sorted_wrt (\<lambda>x y. cmp x y \<le> 0) (insert_by cmp x xs)"
proof (induction xs)
  case Nil
  then show ?case by simp
next
  case (Cons y ys)
  show ?case
  proof (cases "cmp x y \<le> 0")
    case True
    with Cons.prems show ?thesis by (auto intro: cmp_trans)
  next
    case False
    with Cons show ?thesis by (auto simp: set_insert_by dest: cmp_total)
  qed
qed

lemma sorted_sort_stable: "sorted_wrt (\<lambda>x y. cmp x y \<le> 0) (sort_stable_func cmp xs)"
  by (induction xs) (auto intro: sorted_insert_by)

lemma sorted_take_drop:
  assumes "x \<in> set (take n (sort_stable_func cmp xs))"
    and "y \<in> set (drop n (sort_stable_func cmp xs))"
  shows "cmp x y \<le> 0"
proof -
  let ?s = "sort_stable_func cmp xs"
  have "sorted_wrt (\<lambda>x y. cmp x y \<le> 0) (take n ?s @ drop n ?s)"
    using sorted_sort_stable by simp
  then show ?thesis using assms by (simp only: sorted_wrt_append)
qed

end

section \<open>Integers\<close>

text \<open>Go's \<^verbatim>\<open>/\<close> and \<^verbatim>\<open>%\<close> truncate towards zero.\<close>

definition go_div :: "int \<Rightarrow> int \<Rightarrow> int" where
  "go_div a b = sgn a * sgn b * (\<bar>a\<bar> div \<bar>b\<bar>)"

definition go_mod :: "int \<Rightarrow> int \<Rightarrow> int" where
  "go_mod a b = a - go_div a b * b"

lemma go_div_pos [simp]: "0 \<le> a \<Longrightarrow> 0 < b \<Longrightarrow> go_div a b = a div b"
  by (cases "a = 0") (simp_all add: go_div_def)

lemma go_mod_pos [simp]: "0 \<le> a \<Longrightarrow> 0 < b \<Longrightarrow> go_mod a b = a mod b"
  by (simp add: go_mod_def minus_div_mult_eq_mod)

section \<open>Instants and durations\<close>

type_synonym instant = int
type_synonym duration = int

abbreviation second :: duration where "second \<equiv> 1000000000"
abbreviation minute :: duration where "minute \<equiv> 60 * second"
abbreviation hour :: duration where "hour \<equiv> 60 * minute"

text \<open>\<^verbatim>\<open>t.Truncate(time.Second)\<close>, \<^verbatim>\<open>t.Unix()\<close> and \<^verbatim>\<open>t.Sub(u)\<close>, which saturates at 64 bits.\<close>

definition truncate_second :: "instant \<Rightarrow> instant" where
  "truncate_second t = t - t mod second"

definition unix :: "instant \<Rightarrow> int" where
  "unix t = t div second"

definition max_duration :: duration where "max_duration = 2 ^ 63 - 1"
definition min_duration :: duration where "min_duration = - (2 ^ 63)"

definition time_sub :: "instant \<Rightarrow> instant \<Rightarrow> duration" where
  "time_sub t u = max min_duration (min max_duration (t - u))"

lemma truncate_second_le: "truncate_second t \<le> t"
  by (simp add: truncate_second_def)

lemma truncate_second_gt: "t - second < truncate_second t"
proof -
  have "t mod second < second" by (rule pos_mod_bound) simp
  then show ?thesis unfolding truncate_second_def by linarith
qed

lemma truncate_second_mono: "t \<le> u \<Longrightarrow> truncate_second t \<le> truncate_second u"
proof -
  assume "t \<le> u"
  then have "t div second \<le> u div second" by (rule zdiv_mono1) simp
  then have "second * (t div second) \<le> second * (u div second)" by simp
  then show ?thesis by (simp add: truncate_second_def minus_mod_eq_mult_div)
qed

lemma truncate_second_idem [simp]: "truncate_second (truncate_second t) = truncate_second t"
  by (simp add: truncate_second_def mod_diff_left_eq [symmetric])

lemma time_sub_self [simp]: "time_sub t t = 0"
  by (simp add: time_sub_def max_duration_def min_duration_def)

lemma time_sub_nonneg: "u \<le> t \<Longrightarrow> 0 \<le> time_sub t u"
  by (simp add: time_sub_def max_duration_def min_duration_def)

lemma time_sub_le: "u \<le> t \<Longrightarrow> time_sub t u \<le> t - u"
  by (simp add: time_sub_def max_duration_def min_duration_def)

end
