(* ===== verification/Go_Strings.thy ===== *)
theory Go_Strings
  imports Gruff_Prelude
begin

text \<open>
  The parts of Go's \<^verbatim>\<open>strings\<close>, \<^verbatim>\<open>unicode/utf8\<close>, \<^verbatim>\<open>unicode\<close> and \<^verbatim>\<open>strconv\<close> packages that gruff
  calls. Strings are byte lists; ranging over a string decodes UTF-8 as Go does, an invalid byte
  giving the replacement character and consuming one byte. The Unicode category tables beyond
  Latin-1 are the parameter \<open>uc\<close> of the definitions that consult them.
\<close>

section \<open>Bytes and prefixes\<close>

abbreviation byte :: "char \<Rightarrow> nat" where "byte c \<equiv> of_char c"

lemma byte_less [simp]: "byte c < 256"
  using nat_of_char_less_256 by simp

lemma byte_inject [simp]: "byte c = byte d \<longleftrightarrow> c = d"
  by simp

fun has_prefix :: "string \<Rightarrow> string \<Rightarrow> bool" where
  "has_prefix s [] = True"
| "has_prefix [] (p # ps) = False"
| "has_prefix (c # cs) (p # ps) = (c = p \<and> has_prefix cs ps)"

definition has_suffix :: "string \<Rightarrow> string \<Rightarrow> bool" where
  "has_suffix s p = has_prefix (rev s) (rev p)"

lemma has_prefix_iff: "has_prefix s p \<longleftrightarrow> (\<exists>t. s = p @ t)"
  by (induction s p rule: has_prefix.induct) auto

lemma has_suffix_iff: "has_suffix s p \<longleftrightarrow> (\<exists>t. s = t @ p)"
  by (auto simp: has_suffix_def has_prefix_iff)
    (metis rev_append rev_rev_ident)

definition contains_char :: "string \<Rightarrow> char \<Rightarrow> bool" where
  "contains_char s c = List.member s c"

lemma contains_char_iff [simp]: "contains_char s c \<longleftrightarrow> c \<in> set s"
  by (simp add: contains_char_def)

text \<open>\<^verbatim>\<open>strings.Split\<close> on a one-byte separator and \<^verbatim>\<open>strings.Join\<close>.\<close>

fun split_on :: "char \<Rightarrow> string \<Rightarrow> string list" where
  "split_on sep [] = [[]]"
| "split_on sep (c # cs) =
     (if c = sep then [] # split_on sep cs
      else (case split_on sep cs of
              [] \<Rightarrow> [[c]]
            | w # ws \<Rightarrow> (c # w) # ws))"

fun join :: "string \<Rightarrow> string list \<Rightarrow> string" where
  "join sep [] = []"
| "join sep [w] = w"
| "join sep (w # ws) = w @ sep @ join sep ws"

lemma split_on_nonempty [simp]: "split_on sep s \<noteq> []"
  by (induction s) (auto split: list.splits)

lemma split_on_no_sep: "w \<in> set (split_on sep s) \<Longrightarrow> sep \<notin> set w"
  by (induction s arbitrary: w) (auto split: list.splits if_splits)

lemma split_on_chars: "w \<in> set (split_on sep s) \<Longrightarrow> set w \<subseteq> set s"
proof (induction s arbitrary: w)
  case Nil
  then show ?case by simp
next
  case (Cons c cs)
  then show ?case by (fastforce split: list.splits if_splits)
qed

lemma join_split_on: "join [sep] (split_on sep s) = s"
proof (induction s)
  case Nil
  then show ?case by simp
next
  case (Cons c cs)
  obtain w ws where "split_on sep cs = w # ws"
    by (cases "split_on sep cs") auto
  with Cons show ?case by (cases ws) auto
qed

lemma split_on_word: "sep \<notin> set w \<Longrightarrow> split_on sep w = [w]"
  by (induction w) auto

lemma split_on_append_sep:
  "sep \<notin> set w \<Longrightarrow> split_on sep (w @ sep # s) = w # split_on sep s"
  by (induction w) auto

lemma split_on_join:
  "ws \<noteq> [] \<Longrightarrow> \<forall>w\<in>set ws. sep \<notin> set w \<Longrightarrow> split_on sep (join [sep] ws) = ws"
  by (induction "[sep]" ws rule: join.induct)
    (auto simp: split_on_word split_on_append_sep)

lemma set_join_subset: "set (join sep ws) \<subseteq> set sep \<union> (\<Union>w\<in>set ws. set w)"
  by (induction sep ws rule: join.induct) auto

lemma split_on_sep_append: "split_on sep (a @ sep # s) = split_on sep a @ split_on sep s"
proof (induction a)
  case (Cons c a)
  then show ?case by (cases "split_on sep a") auto
qed simp

lemma split_on_ended:
  "has_suffix a [sep] \<Longrightarrow> split_on sep (a @ s) = butlast (split_on sep a) @ split_on sep s"
  by (auto simp: has_suffix_iff split_on_sep_append butlast_append)

section \<open>UTF-8\<close>

definition rune_error :: nat where "rune_error = 0xFFFD"

definition is_cont :: "char \<Rightarrow> bool" where
  "is_cont c = (0x80 \<le> byte c \<and> byte c \<le> 0xBF)"

text \<open>
  \<^verbatim>\<open>utf8.DecodeRuneInString\<close> on a non-empty string, as the rune and its width. The admissible
  second byte depends on the first, which rules out overlong forms, surrogates and runes
  past U+10FFFF.
\<close>

fun decode_rune :: "char \<Rightarrow> string \<Rightarrow> nat \<times> nat" where
  "decode_rune c cs =
     (let b = byte c in
      if b < 0x80 then (b, 1)
      else if 0xC2 \<le> b \<and> b \<le> 0xDF then
        (case cs of
           c1 # _ \<Rightarrow> if is_cont c1 then ((b - 0xC0) * 64 + (byte c1 - 0x80), 2) else (rune_error, 1)
         | [] \<Rightarrow> (rune_error, 1))
      else if 0xE0 \<le> b \<and> b \<le> 0xEF then
        (case cs of
           c1 # c2 # _ \<Rightarrow>
             if (if b = 0xE0 then 0xA0 else 0x80) \<le> byte c1
                \<and> byte c1 \<le> (if b = 0xED then 0x9F else 0xBF) \<and> is_cont c2
             then ((b - 0xE0) * 4096 + (byte c1 - 0x80) * 64 + (byte c2 - 0x80), 3)
             else (rune_error, 1)
         | _ \<Rightarrow> (rune_error, 1))
      else if 0xF0 \<le> b \<and> b \<le> 0xF4 then
        (case cs of
           c1 # c2 # c3 # _ \<Rightarrow>
             if (if b = 0xF0 then 0x90 else 0x80) \<le> byte c1
                \<and> byte c1 \<le> (if b = 0xF4 then 0x8F else 0xBF) \<and> is_cont c2 \<and> is_cont c3
             then ((b - 0xF0) * 262144 + (byte c1 - 0x80) * 4096
                   + (byte c2 - 0x80) * 64 + (byte c3 - 0x80), 4)
             else (rune_error, 1)
         | _ \<Rightarrow> (rune_error, 1))
      else (rune_error, 1))"

declare decode_rune.simps [simp del]

text \<open>
  The iterations of \<^verbatim>\<open>for _, r := range s\<close>: each rune with the bytes it was decoded from.
\<close>

fun runes :: "string \<Rightarrow> (nat \<times> string) list" where
  "runes [] = []"
| "runes (c # cs) =
     (let (r, w) = decode_rune c cs
      in (r, c # take (w - 1) cs) # runes (drop (w - 1) cs))"

lemma runes_concat: "concat (map snd (runes s)) = s"
  by (induction s rule: runes.induct) (auto split: prod.splits)

lemma decode_rune_ascii: "byte c < 0x80 \<Longrightarrow> decode_rune c cs = (byte c, 1)"
  by (simp add: decode_rune.simps Let_def)

lemma decode_rune_high:
  assumes "decode_rune c cs = (r, w)" and "\<not> byte c < 0x80"
  shows "0x80 \<le> r \<and> (\<forall>d\<in>set (take (w - 1) cs). 0x80 \<le> byte d)"
  using assms
  by (auto simp: decode_rune.simps Let_def is_cont_def rune_error_def split: if_splits list.splits)

lemma runes_ascii: "\<forall>c\<in>set s. byte c < 0x80 \<Longrightarrow> runes s = map (\<lambda>c. (byte c, [c])) s"
  by (induction s) (simp_all add: decode_rune_ascii)

text \<open>
  A byte below \<^verbatim>\<open>0x80\<close> is never hidden inside a longer sequence: it is a rune of its own.
\<close>

lemma low_byte_is_rune:
  "c \<in> set s \<Longrightarrow> byte c < 0x80 \<Longrightarrow> (byte c, [c]) \<in> set (runes s)"
proof (induction s rule: runes.induct)
  case 1
  then show ?case by simp
next
  case (2 d ds)
  obtain r w where rw: "decode_rune d ds = (r, w)" by fastforce
  show ?case
  proof (cases "byte d < 0x80")
    case True
    with rw have "r = byte d" "w = 1" by (auto simp: decode_rune_ascii)
    with 2 rw show ?thesis by auto
  next
    case False
    from decode_rune_high [OF rw False] have high: "\<forall>x\<in>set (take (w - 1) ds). 0x80 \<le> byte x"
      by simp
    have "c \<in> set (take (w - 1) ds) \<or> c \<in> set (drop (w - 1) ds)"
      using "2.prems" False by (metis Un_iff append_take_drop_id set_ConsD set_append)
    with high "2.prems" have "c \<in> set (drop (w - 1) ds)" by fastforce
    then show ?thesis using "2.IH" [OF rw [symmetric] refl] "2.prems" rw by simp
  qed
qed

section \<open>Character classes\<close>

text \<open>\<^verbatim>\<open>unicode.IsPrint\<close>: a table lookup up to U+00FF, the category tables \<open>uc\<close> beyond.\<close>

definition is_print :: "(nat \<Rightarrow> bool) \<Rightarrow> nat \<Rightarrow> bool" where
  "is_print uc r =
     (if r \<le> 0xFF then 0x20 \<le> r \<and> r \<le> 0x7E \<or> 0xA1 \<le> r \<and> r \<noteq> 0xAD else uc r)"

definition all_print :: "(nat \<Rightarrow> bool) \<Rightarrow> string \<Rightarrow> bool" where
  "all_print uc s = list_all (\<lambda>(r, _). is_print uc r) (runes s)"

definition control_byte :: "char \<Rightarrow> bool" where
  "control_byte c = (byte c < 0x20 \<or> byte c = 0x7F)"

lemma all_print_no_control: "all_print uc s \<Longrightarrow> c \<in> set s \<Longrightarrow> \<not> control_byte c"
proof
  assume p: "all_print uc s" and c: "c \<in> set s" and ctl: "control_byte c"
  then have low: "byte c < 0x80" by (auto simp: control_byte_def)
  from low_byte_is_rune [OF c low] p have "is_print uc (byte c)"
    by (fastforce simp: all_print_def list_all_iff)
  with ctl show False by (auto simp: is_print_def control_byte_def)
qed

text \<open>\<^verbatim>\<open>unicode.IsSpace\<close>, the White\_Space property.\<close>

definition is_space :: "nat \<Rightarrow> bool" where
  "is_space r =
     (9 \<le> r \<and> r \<le> 13 \<or> r = 0x20 \<or> r = 0x85 \<or> r = 0xA0 \<or> r = 0x1680
      \<or> 0x2000 \<le> r \<and> r \<le> 0x200A \<or> r = 0x2028 \<or> r = 0x2029 \<or> r = 0x202F \<or> r = 0x205F \<or> r = 0x3000)"

text \<open>\<^verbatim>\<open>strings.TrimSpace\<close> and \<^verbatim>\<open>strings.Fields\<close>.\<close>

definition trim_space :: "string \<Rightarrow> string" where
  "trim_space s =
     (let sp = (\<lambda>(r, _). is_space r)
      in concat (map snd (rev (dropWhile sp (rev (dropWhile sp (runes s)))))))"

fun fields_of :: "string \<Rightarrow> (nat \<times> string) list \<Rightarrow> string list" where
  "fields_of acc [] = (if acc = [] then [] else [acc])"
| "fields_of acc ((r, bs) # rest) =
     (if is_space r then (if acc = [] then [] else [acc]) @ fields_of [] rest
      else fields_of (acc @ bs) rest)"

definition fields :: "string \<Rightarrow> string list" where
  "fields s = fields_of [] (runes s)"

lemma fields_of_nonempty: "w \<in> set (fields_of acc rs) \<Longrightarrow> w \<noteq> []"
  by (induction acc rs rule: fields_of.induct) (auto split: if_splits)

lemma fields_nonempty: "w \<in> set (fields s) \<Longrightarrow> w \<noteq> []"
  by (simp add: fields_def fields_of_nonempty)

lemma trim_space_empty [simp]: "trim_space [] = []"
  by (simp add: trim_space_def)

lemma trim_space_ascii:
  assumes "\<forall>c\<in>set s. byte c < 0x80"
  shows "trim_space s =
    rev (dropWhile (\<lambda>c. is_space (byte c)) (rev (dropWhile (\<lambda>c. is_space (byte c)) s)))"
  using assms
  by (simp add: trim_space_def runes_ascii dropWhile_map rev_map comp_def)

section \<open>Decimal numbers\<close>

definition digit_char :: "nat \<Rightarrow> char" where
  "digit_char d = char_of (48 + d)"

definition is_digit :: "char \<Rightarrow> bool" where
  "is_digit c = (48 \<le> byte c \<and> byte c \<le> 57)"

definition digit_value :: "char \<Rightarrow> nat" where
  "digit_value c = byte c - 48"

fun dec_nat :: "nat \<Rightarrow> string" where
  "dec_nat n = (if n < 10 then [digit_char n] else dec_nat (n div 10) @ [digit_char (n mod 10)])"

declare dec_nat.simps [simp del]

definition dec_int :: "int \<Rightarrow> string" where
  "dec_int i = (if i < 0 then CHR ''-'' # dec_nat (nat (- i)) else dec_nat (nat i))"

definition digits_value :: "string \<Rightarrow> nat" where
  "digits_value s = foldl (\<lambda>n c. 10 * n + digit_value c) 0 s"

text \<open>
  \<^verbatim>\<open>strconv.ParseUint(s, 10, 64)\<close> and \<^verbatim>\<open>big.Int.SetString(s, 10)\<close>, which admits a sign.
\<close>

definition parse_uint64 :: "string \<Rightarrow> nat option" where
  "parse_uint64 s =
     (if s \<noteq> [] \<and> list_all is_digit s \<and> digits_value s < 2 ^ 64 then Some (digits_value s) else None)"

definition parse_digits :: "string \<Rightarrow> nat option" where
  "parse_digits s = (if s \<noteq> [] \<and> list_all is_digit s then Some (digits_value s) else None)"

fun parse_big :: "string \<Rightarrow> int option" where
  "parse_big [] = None"
| "parse_big (c # cs) =
     (if c = CHR ''-'' then map_option (\<lambda>n. - int n) (parse_digits cs)
      else if c = CHR ''+'' then map_option int (parse_digits cs)
      else map_option int (parse_digits (c # cs)))"

lemma byte_digit_char: "d < 10 \<Longrightarrow> byte (digit_char d) = 48 + d"
  by (simp add: digit_char_def)

lemma is_digit_digit_char [simp]: "d < 10 \<Longrightarrow> is_digit (digit_char d)"
  by (simp add: is_digit_def byte_digit_char)

lemma digit_value_digit_char [simp]: "d < 10 \<Longrightarrow> digit_value (digit_char d) = d"
  by (simp add: digit_value_def byte_digit_char)

lemma digits_value_snoc [simp]: "digits_value (s @ [c]) = 10 * digits_value s + digit_value c"
  by (simp add: digits_value_def)

lemma digits_value_single [simp]: "digits_value [c] = digit_value c"
  by (simp add: digits_value_def)

lemma dec_nat_nonempty [simp]: "dec_nat n \<noteq> []"
  by (subst dec_nat.simps) simp

lemma dec_nat_digits: "list_all is_digit (dec_nat n)"
proof (induction n rule: dec_nat.induct)
  case (1 n)
  then show ?case by (cases "n < 10") (auto simp: dec_nat.simps [of n])
qed

lemma digits_value_dec_nat [simp]: "digits_value (dec_nat n) = n"
proof (induction n rule: dec_nat.induct)
  case (1 n)
  show ?case
  proof (cases "n < 10")
    case True
    then show ?thesis by (simp add: dec_nat.simps [of n])
  next
    case False
    with 1 show ?thesis by (simp add: dec_nat.simps [of n])
  qed
qed

lemma parse_uint64_dec_nat: "n < 2 ^ 64 \<Longrightarrow> parse_uint64 (dec_nat n) = Some n"
  using dec_nat_digits [of n] by (simp add: parse_uint64_def)

lemma parse_digits_dec_nat [simp]: "parse_digits (dec_nat n) = Some n"
  using dec_nat_digits [of n] by (simp add: parse_digits_def)

lemma parse_big_dec_nat [simp]: "parse_big (dec_nat n) = Some (int n)"
proof (cases "dec_nat n")
  case Nil
  then show ?thesis by simp
next
  case (Cons c cs)
  have "is_digit c" using dec_nat_digits [of n] Cons by simp
  then have "c \<noteq> CHR ''-''" "c \<noteq> CHR ''+''" by (auto simp: is_digit_def)
  then show ?thesis using parse_digits_dec_nat [of n] Cons by simp
qed

lemma dec_nat_inject [simp]: "dec_nat m = dec_nat n \<longleftrightarrow> m = n"
  by (metis digits_value_dec_nat)

lemma dec_nat_chars: "c \<in> set (dec_nat n) \<Longrightarrow> is_digit c"
  using dec_nat_digits [of n] by (simp add: list_all_iff)

end
