(* ===== verification/Go_Net.thy ===== *)
theory Go_Net
  imports Go_Strings "HOL-Library.Word"
begin

unbundle bit_operations_syntax

text \<open>
  The parts of Go's \<^verbatim>\<open>net/netip\<close> and \<^verbatim>\<open>net\<close> packages that configuration validation and the
  portal call: parsing addresses and prefixes, the loopback test, CIDR masks and
  \<^verbatim>\<open>net.SplitHostPort\<close>. A parse error is \<^term>\<open>None\<close>; which of the standard library's messages
  it carries is not modelled.
\<close>

section \<open>Addresses\<close>

datatype addr = V4 "32 word" | V6 "128 word" string

definition word_of_bytes :: "nat list \<Rightarrow> 'a::len word" where
  "word_of_bytes bs = foldl (\<lambda>w b. push_bit 8 w OR of_nat b) 0 bs"

definition v4_byte :: "32 word \<Rightarrow> nat \<Rightarrow> nat" where
  "v4_byte w i = unat (take_bit 8 (drop_bit (8 * (3 - i)) w))"

text \<open>
  \<^verbatim>\<open>parseIPv4Fields\<close>: \<open>prev\<close> is the byte before the current one, \<open>dig\<close> the digits of the
  octet so far. An octet has no leading zero, is at most 255, and there are exactly four.
\<close>

fun v4_fields :: "char option \<Rightarrow> string \<Rightarrow> nat \<Rightarrow> nat \<Rightarrow> nat list \<Rightarrow> nat list option" where
  "v4_fields prev [] val dig fs = (if length fs < 3 then None else Some (fs @ [val]))"
| "v4_fields prev (c # cs) val dig fs =
     (if is_digit c then
        (if dig = 1 \<and> val = 0 then None
         else let v = val * 10 + digit_value c in
              if 255 < v then None else v4_fields (Some c) cs v (dig + 1) fs)
      else if c = CHR ''.'' then
        (if prev = None \<or> cs = [] \<or> prev = Some (CHR ''.'') then None
         else if length fs = 3 then None
         else v4_fields (Some c) cs 0 0 (fs @ [val]))
      else None)"

definition parse_ipv4 :: "string \<Rightarrow> addr option" where
  "parse_ipv4 s = map_option (\<lambda>fs. V4 (word_of_bytes fs)) (v4_fields None s 0 0 [])"

definition hex_value :: "char \<Rightarrow> nat option" where
  "hex_value c =
     (if is_digit c then Some (digit_value c)
      else if 97 \<le> byte c \<and> byte c \<le> 102 then Some (byte c - 87)
      else if 65 \<le> byte c \<and> byte c \<le> 70 then Some (byte c - 55)
      else None)"

text \<open>
  The hex digits at the front of a group: their count, value and what follows. A fifth digit is
  an error, which also rules out a value above \<^verbatim>\<open>0xffff\<close>.
\<close>

fun take_hex :: "nat \<Rightarrow> nat \<Rightarrow> string \<Rightarrow> (nat \<times> nat \<times> string) option" where
  "take_hex off acc [] = Some (off, acc, [])"
| "take_hex off acc (c # cs) =
     (case hex_value c of
        None \<Rightarrow> Some (off, acc, c # cs)
      | Some v \<Rightarrow> if 3 < off then None else take_hex (off + 1) (16 * acc + v) cs)"

text \<open>
  The loop of \<^verbatim>\<open>parseIPv6\<close>, at most eight groups of two bytes: the bytes written, the position
  of the ellipsis and the unread rest.
\<close>

fun v6_loop :: "nat \<Rightarrow> nat list \<Rightarrow> nat option \<Rightarrow> string
    \<Rightarrow> (nat list \<times> nat option \<times> string) option" where
  "v6_loop 0 ip ell s = Some (ip, ell, s)"
| "v6_loop (Suc n) ip ell s =
     (case take_hex 0 0 s of
        None \<Rightarrow> None
      | Some (off, acc, rest) \<Rightarrow>
          if off = 0 then None
          else if has_prefix rest ''.'' then
            (if ell = None \<and> length ip \<noteq> 12 then None
             else if 16 < length ip + 4 then None
             else map_option (\<lambda>fs. (ip @ fs, ell, [])) (v4_fields None s 0 0 []))
          else
            (let ip' = ip @ [acc div 256, acc mod 256] in
             case rest of
               [] \<Rightarrow> Some (ip', ell, [])
             | [c] \<Rightarrow> None
             | c # d # more \<Rightarrow>
                 if c \<noteq> CHR '':'' then None
                 else if d = CHR '':'' then
                   (if ell \<noteq> None then None
                    else if more = [] then Some (ip', Some (length ip'), [])
                    else v6_loop n ip' (Some (length ip')) more)
                 else v6_loop n ip' ell (d # more)))"

definition v6_finish :: "nat list \<Rightarrow> nat option \<Rightarrow> string \<Rightarrow> nat list option" where
  "v6_finish ip ell s =
     (if s \<noteq> [] then None
      else if length ip < 16 then
        (case ell of
           None \<Rightarrow> None
         | Some e \<Rightarrow> Some (take e ip @ replicate (16 - length ip) 0 @ drop e ip))
      else (case ell of None \<Rightarrow> Some ip | Some e \<Rightarrow> None))"

definition split_zone :: "string \<Rightarrow> (string \<times> string) option" where
  "split_zone s =
     (let body = takeWhile (\<lambda>c. c \<noteq> CHR ''%'') s; rest = dropWhile (\<lambda>c. c \<noteq> CHR ''%'') s in
      case rest of
        [] \<Rightarrow> Some (body, [])
      | c # zone \<Rightarrow> if zone = [] then None else Some (body, zone))"

definition parse_ipv6 :: "string \<Rightarrow> addr option" where
  "parse_ipv6 input =
     (case split_zone input of
        None \<Rightarrow> None
      | Some (s, zone) \<Rightarrow>
          if has_prefix s ''::'' then
            (if length s = 2 then Some (V6 0 zone)
             else case v6_loop 8 [] (Some 0) (drop 2 s) of
                    None \<Rightarrow> None
                  | Some (ip, ell, rest) \<Rightarrow>
                      map_option (\<lambda>bs. V6 (word_of_bytes bs) zone) (v6_finish ip ell rest))
          else (case v6_loop 8 [] None s of
                  None \<Rightarrow> None
                | Some (ip, ell, rest) \<Rightarrow>
                    map_option (\<lambda>bs. V6 (word_of_bytes bs) zone) (v6_finish ip ell rest)))"

text \<open>\<^verbatim>\<open>netip.ParseAddr\<close>: the first of \<^verbatim>\<open>.\<close>, \<^verbatim>\<open>:\<close> and \<^verbatim>\<open>%\<close> decides the family.\<close>

fun addr_family :: "string \<Rightarrow> char option" where
  "addr_family [] = None"
| "addr_family (c # cs) =
     (if c = CHR ''.'' \<or> c = CHR '':'' \<or> c = CHR ''%'' then Some c else addr_family cs)"

definition parse_addr :: "string \<Rightarrow> addr option" where
  "parse_addr s =
     (case addr_family s of
        None \<Rightarrow> None
      | Some c \<Rightarrow>
          if c = CHR ''.'' then parse_ipv4 s
          else if c = CHR '':'' then parse_ipv6 s
          else None)"

text \<open>\<^verbatim>\<open>Addr.IsLoopback\<close>, which looks through an IPv4-mapped IPv6 address.\<close>

definition is_4in6 :: "128 word \<Rightarrow> bool" where
  "is_4in6 w = (drop_bit 32 w = 0xFFFF)"

fun is_loopback :: "addr \<Rightarrow> bool" where
  "is_loopback (V4 w) = (drop_bit 24 w = 127)"
| "is_loopback (V6 w zone) =
     (if is_4in6 w then drop_bit 24 (ucast w :: 32 word) = 127 else w = 1)"

section \<open>Prefixes\<close>

text \<open>\<^verbatim>\<open>strings.LastIndexByte\<close> as the split it is used for.\<close>

definition cut_last :: "char \<Rightarrow> string \<Rightarrow> (string \<times> string) option" where
  "cut_last sep s =
     (let r = rev s; post = takeWhile (\<lambda>c. c \<noteq> sep) r; rest = dropWhile (\<lambda>c. c \<noteq> sep) r in
      case rest of [] \<Rightarrow> None | c # pre \<Rightarrow> Some (rev pre, rev post))"

definition parse_bits :: "string \<Rightarrow> nat \<Rightarrow> nat option" where
  "parse_bits s max_bits =
     (if 1 < length s \<and> (case s of [] \<Rightarrow> True | c # _ \<Rightarrow> byte c < 49 \<or> 57 < byte c) then None
      else case parse_digits s of
             None \<Rightarrow> None
           | Some n \<Rightarrow> if max_bits < n then None else Some n)"

definition parse_prefix :: "string \<Rightarrow> (addr \<times> nat) option" where
  "parse_prefix s =
     (case cut_last (CHR ''/'') s of
        None \<Rightarrow> None
      | Some (a, bits) \<Rightarrow>
          (case parse_addr a of
             None \<Rightarrow> None
           | Some (V4 w) \<Rightarrow> map_option (\<lambda>n. (V4 w, n)) (parse_bits bits 32)
           | Some (V6 w zone) \<Rightarrow>
               if zone \<noteq> [] then None else map_option (\<lambda>n. (V6 w [], n)) (parse_bits bits 128)))"

definition mask32 :: "nat \<Rightarrow> 32 word" where
  "mask32 n = push_bit (32 - n) (- 1)"

text \<open>\<^verbatim>\<open>net.CIDRMask(n, 32)\<close>, byte by byte.\<close>

fun cidr_mask :: "nat \<Rightarrow> nat \<Rightarrow> nat list" where
  "cidr_mask n 0 = []"
| "cidr_mask n (Suc l) =
     (if 8 \<le> n then 255 # cidr_mask (n - 8) l
      else unat (NOT (drop_bit n (255 :: 8 word))) # cidr_mask 0 l)"

definition dotted :: "nat list \<Rightarrow> string" where
  "dotted bs = join ''.'' (map dec_nat bs)"

definition v4_string :: "32 word \<Rightarrow> string" where
  "v4_string w = dotted [v4_byte w 0, v4_byte w 1, v4_byte w 2, v4_byte w 3]"

section \<open>Host and port\<close>

text \<open>\<^verbatim>\<open>net.SplitHostPort\<close>, with \<^term>\<open>None\<close> for each of its errors.\<close>

definition split_host_port :: "string \<Rightarrow> (string \<times> string) option" where
  "split_host_port hp =
     (case cut_last (CHR '':'') hp of
        None \<Rightarrow> None
      | Some (before, port) \<Rightarrow>
          if has_prefix hp ''['' then
            (let inner = takeWhile (\<lambda>c. c \<noteq> CHR '']'') hp;
                 after = dropWhile (\<lambda>c. c \<noteq> CHR '']'') hp in
             if after = [] then None
             else if length inner + 1 = length hp then None
             else if length inner + 1 \<noteq> length before then None
             else if contains_char (drop 1 hp) (CHR ''['') then None
             else if contains_char (drop 1 after) (CHR '']'') then None
             else Some (drop 1 inner, port))
          else if contains_char before (CHR '':'') then None
          else if contains_char hp (CHR ''['') then None
          else if contains_char hp (CHR '']'') then None
          else Some (before, port))"

section \<open>Facts\<close>

lemma takeWhile_rev_sep: "sep \<notin> set t \<Longrightarrow> takeWhile (\<lambda>c. c \<noteq> sep) (rev t @ sep # s) = rev t"
  by (subst takeWhile_append2) auto

lemma dropWhile_rev_sep: "sep \<notin> set t \<Longrightarrow> dropWhile (\<lambda>c. c \<noteq> sep) (rev t @ sep # s) = sep # s"
  by (subst dropWhile_append2) auto

lemma cut_last_append:
  "sep \<notin> set t \<Longrightarrow> cut_last sep (s @ sep # t) = Some (s, t)"
  by (simp add: cut_last_def takeWhile_rev_sep dropWhile_rev_sep Let_def)

lemma word_of_bytes_v4:
  "word_of_bytes [v4_byte w 0, v4_byte w 1, v4_byte w 2, v4_byte w 3] = (w :: 32 word)"
proof (rule bit_word_eqI)
  fix n
  assume "n < LENGTH(32)"
  then consider "n < 8" | "8 \<le> n" "n < 16" | "16 \<le> n" "n < 24" | "24 \<le> n" "n < 32"
    by fastforce
  then show "bit (word_of_bytes [v4_byte w 0, v4_byte w 1, v4_byte w 2, v4_byte w 3] :: 32 word) n
      = bit w n"
    by cases (auto simp: word_of_bytes_def v4_byte_def bit_simps)
qed

lemma v4_byte_less: "v4_byte w i < 256"
  using take_bit_nat_less_exp [of 8 "unat (drop_bit (8 * (3 - i)) w)"]
  by (simp add: v4_byte_def unsigned_take_bit_eq)

text \<open>
  The parser reads back every octet the printer writes, so it reads back every address.
\<close>

lemma dec_nat_octet:
  assumes "a < 256"
  obtains (one) "a < 10" "dec_nat a = [digit_char a]"
  | (two) "10 \<le> a" "a < 100" "dec_nat a = [digit_char (a div 10), digit_char (a mod 10)]"
  | (three) "100 \<le> a"
      "dec_nat a = [digit_char (a div 100), digit_char (a div 10 mod 10), digit_char (a mod 10)]"
proof -
  consider "a < 10" | "10 \<le> a" "a < 100" | "100 \<le> a" by linarith
  then show thesis
  proof cases
    case 1
    then show ?thesis by (intro one) (simp_all add: dec_nat.simps [of a])
  next
    case 2
    then show ?thesis
      by (intro two) (simp_all add: dec_nat.simps [of a] dec_nat.simps [of "a div 10"])
  next
    case 3
    moreover have "a div 100 < 10" using assms by simp
    ultimately show ?thesis
      by (intro three) (simp_all add: dec_nat.simps [of a] dec_nat.simps [of "a div 10"]
          dec_nat.simps [of "a div 100"] div_mult2_eq [symmetric])
  qed
qed

lemma v4_fields_octet:
  assumes "a < 256"
  shows "\<exists>d dig. is_digit d \<and> v4_fields prev (dec_nat a @ s) 0 0 fs = v4_fields (Some d) s a dig fs"
  using assms
proof (cases rule: dec_nat_octet)
  case one
  then show ?thesis
    by (intro exI [of _ "digit_char a"] exI [of _ "1"]) simp
next
  case two
  then have "0 < a div 10" "a div 10 < 10" by auto
  with two show ?thesis
    by (intro exI [of _ "digit_char (a mod 10)"] exI [of _ "2"]) (simp add: numeral_2_eq_2)
next
  case three
  have "a div 10 div 10 = a div 100" by (simp add: div_mult2_eq [symmetric])
  then have "a div 100 * 10 + a div 10 mod 10 = a div 10"
    by (metis div_mult_mod_eq)
  moreover have "a div 100 < 10" "a div 10 < 256" "0 < a div 100" using assms three by auto
  ultimately show ?thesis using three assms
    by (intro exI [of _ "digit_char (a mod 10)"] exI [of _ "3"]) (simp add: numeral_3_eq_3)
qed

lemma v4_fields_dot:
  "is_digit d \<Longrightarrow> s \<noteq> [] \<Longrightarrow> length fs < 3 \<Longrightarrow>
   v4_fields (Some d) (CHR ''.'' # s) a dig fs = v4_fields (Some (CHR ''.'')) s 0 0 (fs @ [a])"
  by (auto simp: is_digit_def)

lemma v4_fields_dotted:
  assumes "a < 256" "b < 256" "c < 256" "d < 256"
  shows "v4_fields None (dotted [a, b, c, d]) 0 0 [] = Some [a, b, c, d]"
proof -
  obtain x1 n1 where 1: "is_digit x1"
    "v4_fields None (dec_nat a @ CHR ''.'' # dec_nat b @ CHR ''.'' # dec_nat c @ CHR ''.'' # dec_nat d) 0 0 []
     = v4_fields (Some x1) (CHR ''.'' # dec_nat b @ CHR ''.'' # dec_nat c @ CHR ''.'' # dec_nat d) a n1 []"
    using v4_fields_octet [OF assms(1)] by blast
  obtain x2 n2 where 2: "is_digit x2"
    "v4_fields (Some (CHR ''.'')) (dec_nat b @ CHR ''.'' # dec_nat c @ CHR ''.'' # dec_nat d) 0 0 [a]
     = v4_fields (Some x2) (CHR ''.'' # dec_nat c @ CHR ''.'' # dec_nat d) b n2 [a]"
    using v4_fields_octet [OF assms(2)] by blast
  obtain x3 n3 where 3: "is_digit x3"
    "v4_fields (Some (CHR ''.'')) (dec_nat c @ CHR ''.'' # dec_nat d) 0 0 [a, b]
     = v4_fields (Some x3) (CHR ''.'' # dec_nat d) c n3 [a, b]"
    using v4_fields_octet [OF assms(3)] by blast
  obtain x4 n4 where 4: "is_digit x4"
    "v4_fields (Some (CHR ''.'')) (dec_nat d @ []) 0 0 [a, b, c] = v4_fields (Some x4) [] d n4 [a, b, c]"
    using v4_fields_octet [OF assms(4)] by blast
  show ?thesis
    using 1 2 3 4 by (simp add: dotted_def v4_fields_dot del: v4_fields.simps(2))
qed

lemma addr_family_digits: "\<forall>c\<in>set ds. is_digit c \<Longrightarrow> addr_family (ds @ s) = addr_family s"
  by (induction ds) (auto simp: is_digit_def)

lemma parse_addr_v4_string: "parse_addr (v4_string w) = Some (V4 w)"
proof -
  have "addr_family (v4_string w) = Some (CHR ''.'')"
    using dec_nat_chars by (simp add: v4_string_def dotted_def addr_family_digits)
  then show ?thesis
    by (simp add: parse_addr_def parse_ipv4_def v4_string_def v4_fields_dotted v4_byte_less
        word_of_bytes_v4 [unfolded One_nat_def])
qed

lemma parse_bits_dec_nat:
  assumes "n \<le> m" "m < 256"
  shows "parse_bits (dec_nat n) m = Some n"
proof -
  have "n < 256" using assms by simp
  then have "\<not> (1 < length (dec_nat n)
      \<and> (case dec_nat n of [] \<Rightarrow> True | c # _ \<Rightarrow> byte c < 49 \<or> 57 < byte c))"
  proof (cases rule: dec_nat_octet)
    case three
    moreover have "0 < n div 100" "n div 100 < 10" using three assms by auto
    ultimately show ?thesis by (simp add: byte_digit_char)
  qed (auto simp: byte_digit_char)
  then show ?thesis using assms by (auto simp: parse_bits_def)
qed

lemma slash_not_in_dec_nat [simp]: "CHR ''/'' \<notin> set (dec_nat n)"
  using dec_nat_chars by (force simp: is_digit_def)

lemma parse_prefix_v4_string:
  assumes "n \<le> 32"
  shows "parse_prefix (v4_string w @ CHR ''/'' # dec_nat n) = Some (V4 w, n)"
  using parse_bits_dec_nat [OF assms]
  by (simp add: parse_prefix_def cut_last_append parse_addr_v4_string)

text \<open>The bytes of \<^verbatim>\<open>net.CIDRMask\<close> are those of the mask.\<close>

lemma v4_byte_ucast: "v4_byte w i = unat (ucast (drop_bit (8 * (3 - i)) w) :: 8 word)"
  by (simp add: v4_byte_def unsigned_ucast_eq unsigned_take_bit_eq)

lemma ucast_mask32:
  assumes "i < 4" "k \<le> 32"
  shows "(ucast (drop_bit (8 * (3 - i)) (mask32 k)) :: 8 word)
    = (if 8 * Suc i \<le> k then - 1 else NOT (drop_bit (k - 8 * i) 255))"
proof (rule bit_word_eqI)
  have m: "(255 :: 8 word) = mask 8" by (simp add: mask_eq_exp_minus_1)
  fix n assume "n < LENGTH(8)"
  then have n: "n < 8" by simp
  consider "i = 0" | "i = 1" | "i = 2" | "i = 3" using assms by linarith
  then show "bit (ucast (drop_bit (8 * (3 - i)) (mask32 k)) :: 8 word) n
      = bit (if 8 * Suc i \<le> k then - 1 else NOT (drop_bit (k - 8 * i) (255 :: 8 word))) n"
    unfolding m using n assms by cases (auto simp: mask32_def bit_simps not_less)
qed

lemma cidr_mask_4:
  assumes "k \<le> 32"
  shows "cidr_mask k 4 = [v4_byte (mask32 k) 0, v4_byte (mask32 k) 1, v4_byte (mask32 k) 2, v4_byte (mask32 k) 3]"
proof -
  have u: "unat (- 1 :: 8 word) = 255" by code_simp
  have b: "v4_byte (mask32 k) i = (if 8 * Suc i \<le> k then 255 else unat (NOT (drop_bit (k - 8 * i) (255 :: 8 word))))"
    if "i < 4" for i
    using that assms u by (simp add: v4_byte_ucast ucast_mask32 del: mult_Suc_right)
  have four: "(4::nat) = Suc (Suc (Suc (Suc 0)))" by simp
  consider "k < 8" | "8 \<le> k" "k < 16" | "16 \<le> k" "k < 24" | "24 \<le> k" "k < 32" | "k = 32"
    using assms by linarith
  then show ?thesis
    using b [of 0] b [of 1] b [of 2] b [of 3]
    unfolding four cidr_mask.simps by cases (simp_all, linarith+)
qed

lemma dotted_cidr_mask: "k \<le> 32 \<Longrightarrow> dotted (cidr_mask k 4) = v4_string (mask32 k)"
  by (simp only: cidr_mask_4 v4_string_def)

end
