(* ===== verification/Base64.thy ===== *)
theory Base64
  imports Go_Strings
begin

text \<open>
  Go's \<^verbatim>\<open>encoding/base64\<close> as gruff uses it: the standard and the URL alphabet, with and without
  padding, lenient and strict decoding. The decoder skips carriage returns and line feeds
  anywhere in its input, in strict mode too. Encoding followed by decoding is the identity, and
  strict decoding accepts exactly one spelling up to those skipped bytes.
\<close>

section \<open>Alphabets\<close>

definition std_alphabet :: string where
  "std_alphabet = ''ABCDEFGHIJKLMNOPQRSTUVWXYZabcdefghijklmnopqrstuvwxyz0123456789+/''"

definition url_alphabet :: string where
  "url_alphabet = ''ABCDEFGHIJKLMNOPQRSTUVWXYZabcdefghijklmnopqrstuvwxyz0123456789-_''"

definition sextet_char :: "string \<Rightarrow> nat \<Rightarrow> char" where
  "sextet_char alphabet v = alphabet ! v"

definition char_sextet :: "string \<Rightarrow> char \<Rightarrow> nat option" where
  "char_sextet alphabet c = map_of (zip alphabet [0..<64]) c"

section \<open>Encoding and decoding\<close>

definition chr :: "nat \<Rightarrow> char" where "chr n = char_of n"

fun b64_encode :: "string \<Rightarrow> bool \<Rightarrow> string \<Rightarrow> string" where
  "b64_encode al pad [] = []"
| "b64_encode al pad [a] =
     [sextet_char al (byte a div 4), sextet_char al (byte a mod 4 * 16)]
     @ (if pad then ''=='' else [])"
| "b64_encode al pad [a, b] =
     [sextet_char al (byte a div 4), sextet_char al (byte a mod 4 * 16 + byte b div 16),
      sextet_char al (byte b mod 16 * 4)]
     @ (if pad then ''='' else [])"
| "b64_encode al pad (a # b # c # rest) =
     [sextet_char al (byte a div 4), sextet_char al (byte a mod 4 * 16 + byte b div 16),
      sextet_char al (byte b mod 16 * 4 + byte c div 64), sextet_char al (byte c mod 64)]
     @ b64_encode al pad rest"

definition skip_newlines :: "string \<Rightarrow> string" where
  "skip_newlines s = filter (\<lambda>c. byte c \<noteq> 10 \<and> byte c \<noteq> 13) s"

text \<open>
  \<^verbatim>\<open>decodeQuantum\<close> on a group of two, three or four sextets; in strict mode the bits that
  carry no data must be zero.
\<close>

definition decode2 :: "string \<Rightarrow> bool \<Rightarrow> char \<Rightarrow> char \<Rightarrow> string option" where
  "decode2 al strict c1 c2 =
     (case (char_sextet al c1, char_sextet al c2) of
        (Some v1, Some v2) \<Rightarrow>
          if strict \<and> v2 mod 16 \<noteq> 0 then None else Some [chr (v1 * 4 + v2 div 16)]
      | _ \<Rightarrow> None)"

definition decode3 :: "string \<Rightarrow> bool \<Rightarrow> char \<Rightarrow> char \<Rightarrow> char \<Rightarrow> string option" where
  "decode3 al strict c1 c2 c3 =
     (case (char_sextet al c1, char_sextet al c2, char_sextet al c3) of
        (Some v1, Some v2, Some v3) \<Rightarrow>
          if strict \<and> v3 mod 4 \<noteq> 0 then None
          else Some [chr (v1 * 4 + v2 div 16), chr (v2 mod 16 * 16 + v3 div 4)]
      | _ \<Rightarrow> None)"

definition decode4 :: "string \<Rightarrow> char \<Rightarrow> char \<Rightarrow> char \<Rightarrow> char \<Rightarrow> string option" where
  "decode4 al c1 c2 c3 c4 =
     (case (char_sextet al c1, char_sextet al c2, char_sextet al c3, char_sextet al c4) of
        (Some v1, Some v2, Some v3, Some v4) \<Rightarrow>
          Some [chr (v1 * 4 + v2 div 16), chr (v2 mod 16 * 16 + v3 div 4), chr (v3 mod 4 * 64 + v4)]
      | _ \<Rightarrow> None)"

fun decode_groups :: "string \<Rightarrow> bool \<Rightarrow> bool \<Rightarrow> string \<Rightarrow> string option" where
  "decode_groups al pad strict [] = Some []"
| "decode_groups al pad strict [c1] = None"
| "decode_groups al pad strict [c1, c2] = (if pad then None else decode2 al strict c1 c2)"
| "decode_groups al pad strict [c1, c2, c3] = (if pad then None else decode3 al strict c1 c2 c3)"
| "decode_groups al pad strict (c1 # c2 # c3 # c4 # rest) =
     (if pad \<and> c3 = CHR ''='' then
        (if c4 = CHR ''='' \<and> rest = [] then decode2 al strict c1 c2 else None)
      else if pad \<and> c4 = CHR ''='' then
        (if rest = [] then decode3 al strict c1 c2 c3 else None)
      else case decode4 al c1 c2 c3 c4 of
             None \<Rightarrow> None
           | Some bs \<Rightarrow> map_option (\<lambda>more. bs @ more) (decode_groups al pad strict rest))"

definition b64_decode :: "string \<Rightarrow> bool \<Rightarrow> bool \<Rightarrow> string \<Rightarrow> string option" where
  "b64_decode al pad strict s = decode_groups al pad strict (skip_newlines s)"

section \<open>Correctness for any alphabet\<close>

lemma byte_div: "byte c div 16 < 16" "byte c div 64 < 4" "byte c div 4 < 64"
  by (simp_all add: less_mult_imp_div_less)

lemma byte_div_simps [simp]:
  "byte c div 16 div 16 = 0" "byte c div 16 mod 16 = byte c div 16"
  "byte c div 64 div 4 = 0" "byte c div 64 mod 4 = byte c div 64"
  by (simp_all add: byte_div)

lemma sextet_bounds:
  "byte a div 4 < 64" "byte a mod 4 * 16 < 64" "byte a mod 4 * 16 + byte b div 16 < 64"
  "byte b mod 16 * 4 < 64" "byte b mod 16 * 4 + byte c div 64 < 64" "byte c mod 64 < 64"
proof -
  have "byte a mod 4 < 4" "byte b mod 16 < 16" by simp_all
  then show "byte a mod 4 * 16 < 64" "byte a mod 4 * 16 + byte b div 16 < 64"
    "byte b mod 16 * 4 < 64" "byte b mod 16 * 4 + byte c div 64 < 64"
    using byte_div [of b] byte_div [of c] by linarith+
qed (simp_all add: byte_div)

lemma chr_byte [simp]: "chr (byte c) = c"
  by (simp add: chr_def)

lemma byte_chr [simp]: "n < 256 \<Longrightarrow> byte (chr n) = n"
  by (simp add: chr_def)

lemma list3_induct [case_names Nil One Two More]:
  assumes "P []" "\<And>a. P [a]" "\<And>a b. P [a, b]" "\<And>a b c xs. P xs \<Longrightarrow> P (a # b # c # xs)"
  shows "P xs"
proof (induction xs rule: measure_induct_rule [of length])
  case (less xs)
  consider "xs = []" | a where "xs = [a]" | a b where "xs = [a, b]"
    | a b c ys where "xs = a # b # c # ys"
    by (metis list.exhaust)
  then show ?case using assms less by cases auto
qed

locale base64_alphabet =
  fixes al :: string
  assumes sextet_roundtrip: "v < 64 \<Longrightarrow> char_sextet al (sextet_char al v) = Some v"
    and sextet_sound: "char_sextet al c = Some v \<Longrightarrow> v < 64 \<and> sextet_char al v = c"
    and sextet_plain: "v < 64 \<Longrightarrow> sextet_char al v \<noteq> CHR ''='' \<and> byte (sextet_char al v) \<noteq> 10
      \<and> byte (sextet_char al v) \<noteq> 13"
begin

lemma sextet_not_pad: "v < 64 \<Longrightarrow> sextet_char al v = CHR ''='' \<longleftrightarrow> False"
  using sextet_plain by blast

lemma decode_encode_groups:
  "decode2 al strict (sextet_char al (byte a div 4)) (sextet_char al (byte a mod 4 * 16)) = Some [a]"
  "decode3 al strict (sextet_char al (byte a div 4))
     (sextet_char al (byte a mod 4 * 16 + byte b div 16)) (sextet_char al (byte b mod 16 * 4))
   = Some [a, b]"
  "decode4 al (sextet_char al (byte a div 4))
     (sextet_char al (byte a mod 4 * 16 + byte b div 16))
     (sextet_char al (byte b mod 16 * 4 + byte c div 64)) (sextet_char al (byte c mod 64))
   = Some [a, b, c]"
  by (simp_all add: decode2_def decode3_def decode4_def sextet_roundtrip sextet_bounds)

lemma decode_groups_encode: "decode_groups al pad strict (b64_encode al pad s) = Some s"
  by (induction s rule: list3_induct)
    (simp_all add: decode_encode_groups sextet_not_pad sextet_bounds)

lemma skip_newlines_encode: "skip_newlines (b64_encode al pad s) = b64_encode al pad s"
  by (induction s rule: list3_induct)
    (simp_all add: skip_newlines_def sextet_plain sextet_bounds)

lemma decode_encode: "b64_decode al pad strict (b64_encode al pad s) = Some s"
  by (simp add: b64_decode_def skip_newlines_encode decode_groups_encode)

text \<open>Strict decoding without padding: the input, newlines aside, is the encoding of the output.\<close>

lemma div_mod_sextet:
  assumes "(v::nat) < 64" "w < 64"
  shows "v * 4 + w div 16 < 256" "v mod 16 * 16 + w div 4 < 256" "v mod 4 * 64 + w < 256"
proof -
  have "w div 16 < 4" "w div 4 < 16" "v mod 16 < 16" "v mod 4 < 4"
    using assms by (simp_all add: less_mult_imp_div_less)
  then show "v * 4 + w div 16 < 256" "v mod 16 * 16 + w div 4 < 256" "v mod 4 * 64 + w < 256"
    using assms by linarith+
qed

lemma sextets_back:
  assumes "(v::nat) < 64" "w < 64"
  shows "(v * 4 + w div 16) div 4 = v" "(v * 4 + w div 16) mod 4 = w div 16"
    "(v mod 16 * 16 + w div 4) div 16 = v mod 16" "(v mod 16 * 16 + w div 4) mod 16 = w div 4"
    "(v mod 4 * 64 + w) div 64 = v mod 4" "(v mod 4 * 64 + w) mod 64 = w"
proof -
  have "w div 16 < 4" "w div 4 < 16"
    using assms by (simp_all add: less_mult_imp_div_less)
  then show "(v * 4 + w div 16) div 4 = v" "(v * 4 + w div 16) mod 4 = w div 16"
    "(v mod 16 * 16 + w div 4) div 16 = v mod 16" "(v mod 16 * 16 + w div 4) mod 16 = w div 4"
    "(v mod 4 * 64 + w) div 64 = v mod 4" "(v mod 4 * 64 + w) mod 64 = w"
    using assms by simp_all
qed

lemma decode2_strict:
  assumes "decode2 al True c1 c2 = Some x"
  shows "[c1, c2] = b64_encode al False x"
proof -
  from assms obtain v1 v2 where v: "char_sextet al c1 = Some v1" "char_sextet al c2 = Some v2"
      "v2 mod 16 = 0" and x: "x = [chr (v1 * 4 + v2 div 16)]"
    by (auto simp: decode2_def split: option.splits if_splits)
  from v have c: "v1 < 64" "v2 < 64" "sextet_char al v1 = c1" "sextet_char al v2 = c2"
    by (auto dest: sextet_sound)
  moreover have "v2 div 16 * 16 = v2" using v(3) by presburger
  ultimately show ?thesis by (simp add: x div_mod_sextet sextets_back del: mod_mult_self1 mod_mult_self2
        mod_mult_self3 mod_mult_self4)
qed

lemma decode3_strict:
  assumes "decode3 al True c1 c2 c3 = Some x"
  shows "[c1, c2, c3] = b64_encode al False x"
proof -
  from assms obtain v1 v2 v3 where v: "char_sextet al c1 = Some v1" "char_sextet al c2 = Some v2"
      "char_sextet al c3 = Some v3" "v3 mod 4 = 0"
      and x: "x = [chr (v1 * 4 + v2 div 16), chr (v2 mod 16 * 16 + v3 div 4)]"
    by (auto simp: decode3_def split: option.splits if_splits)
  from v have c: "v1 < 64" "v2 < 64" "v3 < 64"
      "sextet_char al v1 = c1" "sextet_char al v2 = c2" "sextet_char al v3 = c3"
    by (auto dest: sextet_sound)
  moreover have "v3 div 4 * 4 = v3" using v(4) by presburger
  ultimately show ?thesis
    by (simp add: x div_mod_sextet sextets_back del: mod_mult_self1 mod_mult_self2
        mod_mult_self3 mod_mult_self4)
qed

lemma decode4_strict:
  assumes "decode4 al c1 c2 c3 c4 = Some x"
  shows "b64_encode al False (x @ more) = c1 # c2 # c3 # c4 # b64_encode al False more"
proof -
  from assms obtain v1 v2 v3 v4 where v: "char_sextet al c1 = Some v1"
      "char_sextet al c2 = Some v2" "char_sextet al c3 = Some v3" "char_sextet al c4 = Some v4"
      and x: "x = [chr (v1 * 4 + v2 div 16), chr (v2 mod 16 * 16 + v3 div 4), chr (v3 mod 4 * 64 + v4)]"
    by (auto simp: decode4_def split: option.splits)
  from v have c: "v1 < 64" "v2 < 64" "v3 < 64" "v4 < 64"
      "sextet_char al v1 = c1" "sextet_char al v2 = c2" "sextet_char al v3 = c3"
      "sextet_char al v4 = c4"
    by (auto dest: sextet_sound)
  then show ?thesis
    by (simp add: x div_mod_sextet sextets_back del: mod_mult_self1 mod_mult_self2
        mod_mult_self3 mod_mult_self4)
qed

lemma decode_groups_strict:
  "decode_groups al False True s = Some x \<Longrightarrow> s = b64_encode al False x"
proof (induction s arbitrary: x rule: measure_induct_rule [of length])
  case (less s)
  consider "s = []" | c1 where "s = [c1]" | c1 c2 where "s = [c1, c2]"
    | c1 c2 c3 where "s = [c1, c2, c3]" | c1 c2 c3 c4 rest where "s = c1 # c2 # c3 # c4 # rest"
    by (metis list.exhaust)
  then show ?case
  proof cases
    case (5 c1 c2 c3 c4 rest)
    with less.prems obtain bs more where "decode4 al c1 c2 c3 c4 = Some bs"
        "decode_groups al False True rest = Some more" "x = bs @ more"
      by (auto split: option.splits)
    with 5 less.IH [of rest more] show ?thesis by (simp add: decode4_strict)
  qed (use less.prems decode2_strict decode3_strict in auto)
qed

lemma strict_canonical:
  "b64_decode al False True s = Some x \<Longrightarrow> skip_newlines s = b64_encode al False x"
  by (simp add: b64_decode_def decode_groups_strict)

end

lemma char_sextet_range:
  assumes "length al = 64" "char_sextet al c = Some v"
  shows "v < 64 \<and> sextet_char al v = c"
proof -
  from assms(2) have "(c, v) \<in> set (zip al [0..<64])"
    by (simp add: char_sextet_def map_of_SomeD)
  with assms(1) show ?thesis by (auto simp: set_zip sextet_char_def)
qed

lemma sextet_table_std:
  "list_all (\<lambda>v. char_sextet std_alphabet (sextet_char std_alphabet v) = Some v
     \<and> sextet_char std_alphabet v \<noteq> CHR ''='' \<and> byte (sextet_char std_alphabet v) \<noteq> 10
     \<and> byte (sextet_char std_alphabet v) \<noteq> 13) [0..<64]"
  by code_simp

lemma sextet_table_url:
  "list_all (\<lambda>v. char_sextet url_alphabet (sextet_char url_alphabet v) = Some v
     \<and> sextet_char url_alphabet v \<noteq> CHR ''='' \<and> byte (sextet_char url_alphabet v) \<noteq> 10
     \<and> byte (sextet_char url_alphabet v) \<noteq> 13) [0..<64]"
  by code_simp

interpretation std64: base64_alphabet std_alphabet
proof unfold_locales
  fix c v
  show "char_sextet std_alphabet c = Some v \<Longrightarrow> v < 64 \<and> sextet_char std_alphabet v = c"
    by (rule char_sextet_range) (simp_all add: std_alphabet_def)
qed (use sextet_table_std in \<open>auto simp: list_all_iff\<close>)

interpretation url64: base64_alphabet url_alphabet
proof unfold_locales
  fix c v
  show "char_sextet url_alphabet c = Some v \<Longrightarrow> v < 64 \<and> sextet_char url_alphabet v = c"
    by (rule char_sextet_range) (simp_all add: url_alphabet_def)
qed (use sextet_table_url in \<open>auto simp: list_all_iff\<close>)

text \<open>The characters an encoding is made of, for any alphabet of 64.\<close>

lemma b64_encode_eq_Nil [simp]: "b64_encode al pad s = [] \<longleftrightarrow> s = []"
  by (cases "(al, pad, s)" rule: b64_encode.cases) auto

lemma b64_encode_chars:
  assumes "length al = 64"
  shows "set (b64_encode al pad s) \<subseteq> insert (CHR ''='') (set al)"
proof (induction s rule: list3_induct)
  have c: "v < 64 \<Longrightarrow> sextet_char al v \<in> set al" for v
    using assms by (simp add: sextet_char_def)
  fix a b d :: char and rest
  show "set (b64_encode al pad []) \<subseteq> insert (CHR ''='') (set al)" by simp
  show "set (b64_encode al pad [a]) \<subseteq> insert (CHR ''='') (set al)" using c by (auto simp: sextet_bounds)
  show "set (b64_encode al pad [a, b]) \<subseteq> insert (CHR ''='') (set al)" using c by (auto simp: sextet_bounds)
  assume "set (b64_encode al pad rest) \<subseteq> insert (CHR ''='') (set al)"
  then show "set (b64_encode al pad (a # b # d # rest)) \<subseteq> insert (CHR ''='') (set al)"
    using c by (simp add: sextet_bounds)
qed

lemma length_b64_encode_padded: "length (b64_encode al True s) = 4 * ((length s + 2) div 3)"
proof (induction s rule: list3_induct)
  case (More a b c rest)
  then show ?case by (simp, arith)
qed simp_all

end
