(* ===== verification/Config_Auth.thy ===== *)
theory Config_Auth
  imports Go_Net Base64
begin

text \<open>
  \<^verbatim>\<open>internal/config/auth.go\<close>: the authentication settings, their validation and the loading of the
  session key. What the process reads from outside (the environment, files, the category
  tables of \<^verbatim>\<open>unicode\<close>, the URL and template parsers of the standard library) is the record
  \<open>go_env\<close>, a parameter of every definition that consults it.
\<close>

section \<open>The surroundings\<close>

record url =
  u_scheme :: string
  u_host :: string

record go_env =
  uc :: "nat \<Rightarrow> bool"
  getenv :: "string \<Rightarrow> string"
  read_file :: "string \<Rightarrow> string option"
  parse_url :: "string \<Rightarrow> url option"
  template_parses :: "string \<Rightarrow> bool"

text \<open>Surroundings with the given files, for concrete runs.\<close>

definition plain_env :: "(string \<Rightarrow> string option) \<Rightarrow> go_env" where
  "plain_env files =
     \<lparr>uc = (\<lambda>_. True), getenv = (\<lambda>_. []), read_file = files,
      parse_url = (\<lambda>s. if has_prefix s ''https://'' then Some \<lparr>u_scheme = ''https'', u_host = drop 8 s\<rparr> else None),
      template_parses = (\<lambda>_. True)\<rparr>"

section \<open>Settings\<close>

definition auth_proxy :: string where "auth_proxy = ''proxy''"
definition auth_oidc :: string where "auth_oidc = ''oidc''"

definition default_session_lifetime :: duration where
  "default_session_lifetime = 8 * hour"

definition max_session_lifetime :: duration where
  "max_session_lifetime = 24 * hour"

definition default_roles_claim :: string where "default_roles_claim = ''groups''"

text \<open>
  \<open>local_roles\<close> is the Go map from usernames to roles, as the list of its entries in the order
  an iteration visits them.
\<close>

record auth =
  a_mode :: string
  a_issuer :: string
  a_client_id :: string
  a_client_secret :: string
  a_client_secret_env :: string
  a_redirect_url :: string
  a_scopes :: "string list"
  a_roles_claim :: string
  a_username_claim :: string
  a_session_key_file :: string
  a_session_lifetime :: duration
  a_insecure_cookies :: bool
  a_insecure_trusted_headers :: bool
  a_local_roles :: "(string \<times> string list) list"
  a_session_key :: string

definition secret :: "go_env \<Rightarrow> auth \<Rightarrow> string" where
  "secret env a =
     (if a_client_secret_env a \<noteq> [] then getenv env (a_client_secret_env a) else a_client_secret a)"

definition session_duration :: "auth \<Rightarrow> duration" where
  "session_duration a =
     (if a_session_lifetime a = 0 then default_session_lifetime else a_session_lifetime a)"

definition oidc_scopes :: "auth \<Rightarrow> string list" where
  "oidc_scopes a =
     (if a_scopes a = [] then [''openid'', ''profile'', ''email'', ''groups'']
      else if \<not> slice_contains (a_scopes a) ''openid'' then ''openid'' # a_scopes a
      else a_scopes a)"

section \<open>Validation\<close>

datatype auth_error =
    EmptyLocalUser
  | EmptyLocalRole string
  | BadMode string
  | NoIssuer
  | BadIssuer string
  | NoClientId
  | NoClientSecret
  | TwoClientSecrets
  | EmptySecretEnv string
  | NoRedirectUrl
  | BadRedirectUrl string
  | RedirectNotHttp string
  | RedirectInsecure
  | LifetimeOutOfRange duration
  | NoSessionKeyFile
  | UnreadableKeyFile string
  | BadSessionKey string

fun first_decoding :: "(string \<Rightarrow> string option) list \<Rightarrow> string \<Rightarrow> string option" where
  "first_decoding [] s = None"
| "first_decoding (d # ds) s =
     (case d s of
        Some key \<Rightarrow> if length key = 32 then Some key else first_decoding ds s
      | None \<Rightarrow> first_decoding ds s)"

definition key_encodings :: "(string \<Rightarrow> string option) list" where
  "key_encodings =
     [b64_decode std_alphabet True False, b64_decode std_alphabet False False,
      b64_decode url_alphabet True False, b64_decode url_alphabet False False]"

definition load_session_key :: "go_env \<Rightarrow> string \<Rightarrow> auth_error + string" where
  "load_session_key env path =
     (case read_file env path of
        None \<Rightarrow> Inl (UnreadableKeyFile path)
      | Some raw \<Rightarrow>
          if length raw = 32 then Inr raw
          else (case first_decoding key_encodings (trim_space raw) of
                  Some key \<Rightarrow> Inr key
                | None \<Rightarrow> Inl (BadSessionKey path)))"

definition check_local_roles :: "string \<times> string list \<Rightarrow> auth_error + unit" where
  "check_local_roles entry =
     (case entry of (user, roles) \<Rightarrow>
        and_then (fail_if (user = []) EmptyLocalUser)
          (\<lambda>_. check_all (\<lambda>role. fail_if (role = []) (EmptyLocalRole user)) roles))"

definition check_redirect :: "go_env \<Rightarrow> auth \<Rightarrow> auth_error + unit" where
  "check_redirect env a =
     (if a_redirect_url a = [] then Inl NoRedirectUrl
      else case parse_url env (a_redirect_url a) of
             None \<Rightarrow> Inl (BadRedirectUrl (a_redirect_url a))
           | Some redirect \<Rightarrow>
               if u_scheme redirect \<noteq> ''http'' \<and> u_scheme redirect \<noteq> ''https''
               then Inl (RedirectNotHttp (a_redirect_url a))
               else if u_scheme redirect = ''http'' \<and> \<not> a_insecure_cookies a
               then Inl RedirectInsecure
               else Inr ())"

definition check_client :: "go_env \<Rightarrow> auth \<Rightarrow> auth_error + unit" where
  "check_client env a =
     (if a_issuer a = [] then Inl NoIssuer
      else if parse_url env (a_issuer a) = None then Inl (BadIssuer (a_issuer a))
      else if a_client_id a = [] then Inl NoClientId
      else if a_client_secret a = [] \<and> a_client_secret_env a = [] then Inl NoClientSecret
      else if a_client_secret_env a \<noteq> [] \<and> a_client_secret a \<noteq> [] then Inl TwoClientSecrets
      else if a_client_secret_env a \<noteq> [] \<and> getenv env (a_client_secret_env a) = []
      then Inl (EmptySecretEnv (a_client_secret_env a))
      else Inr ())"

definition auth_validate :: "go_env \<Rightarrow> auth \<Rightarrow> auth_error + auth" where
  "auth_validate env a0 =
     (let a = a0\<lparr>a_mode := cmp_or (a_mode a0) auth_proxy\<rparr> in
      and_then (check_all check_local_roles (a_local_roles a)) (\<lambda>_.
      if a_mode a = auth_proxy then Inr a
      else if a_mode a \<noteq> auth_oidc then Inl (BadMode (a_mode a))
      else
        let a = a\<lparr>a_roles_claim := cmp_or (a_roles_claim a) default_roles_claim,
                  a_username_claim := cmp_or (a_username_claim a) ''preferred_username''\<rparr> in
        and_then (check_client env a) (\<lambda>_.
        and_then (check_redirect env a) (\<lambda>_.
        let d = session_duration a in
        if d \<le> 0 \<or> max_session_lifetime < d then Inl (LifetimeOutOfRange d)
        else if a_session_key_file a = [] then Inl NoSessionKeyFile
        else and_then (load_session_key env (a_session_key_file a))
               (\<lambda>key. Inr (a\<lparr>a_session_key := key\<rparr>))))))"

section \<open>What validation guarantees\<close>

lemma first_decoding_length: "first_decoding ds s = Some key \<Longrightarrow> length key = 32"
  by (induction ds) (auto split: option.splits if_splits)

lemma load_session_key_length: "load_session_key env path = Inr key \<Longrightarrow> length key = 32"
  by (auto simp: load_session_key_def dest: first_decoding_length split: option.splits if_splits)

text \<open>Every 32-byte key can be stored in the file in any of the four encodings.\<close>

lemma first_decoding_encoded:
  assumes "length key = 32"
  shows "first_decoding key_encodings (b64_encode std_alphabet True key) = Some key"
  using assms by (simp add: key_encodings_def std64.decode_encode)

lemma openid_in_scopes: "''openid'' \<in> set (oidc_scopes a)"
  by (auto simp: oidc_scopes_def)

text \<open>
  The authenticated settings gruff runs with. In OIDC mode there is a 32-byte session key, a
  lifetime of at most a day, exactly one usable source for the client secret, and cookies are
  \<^verbatim>\<open>Secure\<close> unless the operator has said otherwise or the redirect is already https.
\<close>

definition auth_ok :: "go_env \<Rightarrow> auth \<Rightarrow> bool" where
  "auth_ok env a \<longleftrightarrow>
     (\<forall>(user, roles)\<in>set (a_local_roles a). user \<noteq> [] \<and> [] \<notin> set roles)
     \<and> (a_mode a = auth_proxy \<or>
        a_mode a = auth_oidc
        \<and> length (a_session_key a) = 32
        \<and> 0 < session_duration a \<and> session_duration a \<le> max_session_lifetime
        \<and> a_client_id a \<noteq> [] \<and> a_issuer a \<noteq> [] \<and> secret env a \<noteq> []
        \<and> a_roles_claim a \<noteq> [] \<and> a_username_claim a \<noteq> []
        \<and> (\<exists>u. parse_url env (a_redirect_url a) = Some u
               \<and> (u_scheme u = ''https'' \<or> u_scheme u = ''http'' \<and> a_insecure_cookies a)))"

lemma check_local_roles_Inr:
  "check_local_roles (user, roles) = Inr u \<longleftrightarrow> user \<noteq> [] \<and> [] \<notin> set roles"
  by (auto simp: check_all_Inr check_local_roles_def and_then_Inr_iff)

lemma check_local_roles_ok:
  "check_all check_local_roles rs = Inr u \<Longrightarrow>
   \<forall>(user, roles)\<in>set rs. user \<noteq> [] \<and> [] \<notin> set roles"
  by (auto simp: check_all_Inr check_local_roles_Inr)

lemma auth_validate_cases:
  assumes "auth_validate env a = Inr a'"
  obtains (proxy) "check_all check_local_roles (a_local_roles a) = Inr ()"
      "a' = a\<lparr>a_mode := auth_proxy\<rparr>"
  | (oidc) key b where "check_all check_local_roles (a_local_roles a) = Inr ()"
      "b = a\<lparr>a_mode := auth_oidc, a_roles_claim := cmp_or (a_roles_claim a) default_roles_claim,
             a_username_claim := cmp_or (a_username_claim a) ''preferred_username''\<rparr>"
      "check_client env b = Inr ()" "check_redirect env b = Inr ()"
      "0 < session_duration b" "session_duration b \<le> max_session_lifetime"
      "load_session_key env (a_session_key_file b) = Inr key"
      "a' = b\<lparr>a_session_key := key\<rparr>"
proof -
  let ?m = "cmp_or (a_mode a) auth_proxy"
  from assms have local: "check_all check_local_roles (a_local_roles a) = Inr ()"
    by (simp add: auth_validate_def and_then_Inr_iff Let_def)
  show thesis
  proof (cases "?m = auth_proxy")
    case True
    with assms local show ?thesis by (intro proxy) (simp_all add: auth_validate_def Let_def)
  next
    case False
    with assms local have m: "?m = auth_oidc"
      by (auto simp: auth_validate_def Let_def split: if_splits)
    define b where "b = a\<lparr>a_mode := auth_oidc,
      a_roles_claim := cmp_or (a_roles_claim a) default_roles_claim,
      a_username_claim := cmp_or (a_username_claim a) ''preferred_username''\<rparr>"
    from assms local False m obtain key where
      "check_client env b = Inr ()" "check_redirect env b = Inr ()"
      "0 < session_duration b" "session_duration b \<le> max_session_lifetime"
      "load_session_key env (a_session_key_file b) = Inr key" "a' = b\<lparr>a_session_key := key\<rparr>"
      by (auto simp: auth_validate_def Let_def and_then_Inr_iff b_def [symmetric] split: if_splits)
    then show ?thesis by (rule oidc [OF local b_def])
  qed
qed

lemma auth_validate_ok:
  assumes "auth_validate env a = Inr a'"
  shows "auth_ok env a'"
  using assms
proof (cases rule: auth_validate_cases)
  case proxy
  then show ?thesis by (auto simp: auth_ok_def dest: check_local_roles_ok)
next
  case (oidc key b)
  then have l: "\<forall>(user, roles)\<in>set (a_local_roles a). user \<noteq> [] \<and> [] \<notin> set roles"
    by (simp add: check_local_roles_ok)
  have "length key = 32" using oidc(7) by (rule load_session_key_length)
  moreover have "session_duration a' = session_duration b" "secret env a' = secret env b"
    by (simp_all add: oidc session_duration_def secret_def)
  moreover have "secret env b \<noteq> [] \<and> a_client_id b \<noteq> [] \<and> a_issuer b \<noteq> []"
    using oidc(3) by (auto simp: check_client_def secret_def split: if_splits)
  moreover have "\<exists>u. parse_url env (a_redirect_url b) = Some u
       \<and> (u_scheme u = ''https'' \<or> u_scheme u = ''http'' \<and> a_insecure_cookies b)"
    using oidc(4) by (auto simp: check_redirect_def split: if_splits option.splits)
  moreover have "a_roles_claim b \<noteq> []" "a_username_claim b \<noteq> []"
    by (simp_all add: oidc(2) default_roles_claim_def)
  ultimately show ?thesis using l oidc by (simp add: auth_ok_def)
qed

section \<open>The session key file\<close>

lemma trim_space_trailing:
  assumes "e \<noteq> []" "\<forall>c\<in>set e. byte c < 0x80 \<and> \<not> is_space (byte c)"
  shows "trim_space (e @ [CHR 0x0A]) = e"
proof -
  let ?sp = "\<lambda>c. is_space (byte c)"
  obtain c cs where c: "e = c # cs" using assms(1) by (cases e) auto
  then have "dropWhile ?sp (e @ [CHR 0x0A]) = e @ [CHR 0x0A]" using assms(2) by simp
  moreover obtain d ds where d: "rev e = d # ds" using assms(1) by (cases "rev e") auto
  moreover from d have "d \<in> set e" by (metis list.set_intros(1) set_rev)
  then have "dropWhile ?sp (rev e) = rev e" using d assms(2) by simp
  moreover have "?sp (CHR 0x0A)" by code_simp
  ultimately show ?thesis
    using assms(2) by (subst trim_space_ascii) (auto simp del: rev_swap)
qed

lemma b64_std_plain: "c \<in> set (b64_encode std_alphabet True s) \<Longrightarrow> byte c < 0x80 \<and> \<not> is_space (byte c)"
proof -
  assume "c \<in> set (b64_encode std_alphabet True s)"
  moreover have "length std_alphabet = 64" by code_simp
  ultimately have "c \<in> set (CHR ''='' # std_alphabet)"
    using b64_encode_chars [of std_alphabet True s] unfolding list.set by blast
  moreover have "list_all (\<lambda>c. 33 \<le> byte c \<and> byte c < 127) (CHR ''='' # std_alphabet)"
    by code_simp
  ultimately have "33 \<le> byte c \<and> byte c < 127" by (simp only: list_all_iff)
  then show ?thesis by (auto simp: is_space_def)
qed

text \<open>
  A 32-byte session key can be kept in its file as it is or as a line of base64: either way it
  is the key that loads.
\<close>

theorem session_key_file:
  assumes "read_file env path = Some content" "length key = 32"
    and "content = key \<or> content = b64_encode std_alphabet True key @ [CHR 0x0A]"
  shows "load_session_key env path = Inr key"
proof (cases "content = key")
  case True
  with assms show ?thesis by (simp add: load_session_key_def)
next
  case False
  let ?e = "b64_encode std_alphabet True key"
  have len: "length ?e = 44" using assms(2) by (simp add: length_b64_encode_padded)
  then have "?e \<noteq> []" by auto
  then have "trim_space (?e @ [CHR 0x0A]) = ?e"
    by (rule trim_space_trailing) (blast dest: b64_std_plain)
  with False assms len first_decoding_encoded [OF assms(2)] show ?thesis
    by (simp add: load_session_key_def)
qed

theorem session_key_file_witness:
  "load_session_key
     (plain_env (\<lambda>p. Some (b64_encode std_alphabet True (replicate 32 (CHR ''k'')) @ [CHR 0x0A]))) ''key''
     = Inr (replicate 32 (CHR ''k''))"
  by (rule session_key_file) (simp add: plain_env_def, simp, rule disjI2, rule refl)

end
