(* ===== verification/Float64.thy ===== *)
theory Float64
  imports Main "HOL-Library.Log_Nat"
begin

text \<open>
  Go's \<^verbatim>\<open>float64\<close>, as the rationals it can represent with arithmetic that rounds to nearest, ties
  to even, at 53 bits of precision. Overflow and gradual underflow are left out: every value
  computed by the rate limiter and the duration printer lies far inside the normal range
  (between \<open>2 powi (-60)\<close> and \<open>2 powi 70\<close> in magnitude, or zero).
\<close>

section \<open>Rounding\<close>

text \<open>The binary exponent of a positive rational.\<close>

definition exp2 :: "rat \<Rightarrow> int" where
  "exp2 q =
     (case quotient_of q of (n, d) \<Rightarrow>
        let e = bitlen n - bitlen d in if 2 powi e \<le> q then e else e - 1)"

definition round_half_even :: "rat \<Rightarrow> int" where
  "round_half_even x =
     (let f = \<lfloor>x\<rfloor>; r = x - of_int f in
      if r < 1 / 2 then f else if 1 / 2 < r then f + 1 else if even f then f else f + 1)"

definition f64 :: "rat \<Rightarrow> rat" where
  "f64 q =
     (if q = 0 then 0
      else let u = 2 powi (exp2 \<bar>q\<bar> - 52) in of_int (round_half_even (q / u)) * u)"

text \<open>Go's conversion of a float to an integer type truncates towards zero.\<close>

definition trunc_int :: "rat \<Rightarrow> int" where
  "trunc_int x = (if 0 \<le> x then \<lfloor>x\<rfloor> else - \<lfloor>- x\<rfloor>)"

section \<open>Facts about rounding\<close>

lemma rhe_bound: "\<bar>of_int (round_half_even x) - x\<bar> \<le> 1 / 2"
proof -
  define f where "f = \<lfloor>x\<rfloor>"
  have "of_int f \<le> x" "x < of_int f + 1" unfolding f_def by linarith+
  then show ?thesis by (auto simp: round_half_even_def Let_def f_def [symmetric] abs_if)
qed

lemma rhe_of_int [simp]: "round_half_even (of_int n) = n"
  by (simp add: round_half_even_def)

lemma rhe_mono:
  assumes "x \<le> y"
  shows "round_half_even x \<le> round_half_even y"
proof (cases "\<lfloor>x\<rfloor> = \<lfloor>y\<rfloor>")
  case True
  with assms show ?thesis by (auto simp: round_half_even_def Let_def)
next
  case False
  then have "\<lfloor>x\<rfloor> + 1 \<le> \<lfloor>y\<rfloor>" using floor_mono [OF assms] by linarith
  moreover have "round_half_even x \<le> \<lfloor>x\<rfloor> + 1" "\<lfloor>y\<rfloor> \<le> round_half_even y"
    by (simp_all add: round_half_even_def Let_def)
  ultimately show ?thesis by linarith
qed

lemma exp2_bounds:
  assumes "0 < q"
  shows "2 powi (exp2 q) \<le> q" "q < 2 powi (exp2 q + 1)"
proof -
  obtain n d where nd: "quotient_of q = (n, d)" by fastforce
  then have d: "0 < d" by (rule quotient_of_denom_pos)
  have q: "q = of_int n / of_int d" using nd by (rule quotient_of_div)
  then have n: "0 < n" using assms d by (simp add: zero_less_divide_iff)
  have pow: "(2::rat) powi k = of_int (2 ^ nat k)" if "0 \<le> k" for k
    using that by (simp add: power_int_def)
  have len: "2 powi (bitlen m - 1) \<le> (of_int m :: rat)" "(of_int m :: rat) < 2 powi bitlen m"
    if "0 < m" for m
  proof -
    have "1 \<le> bitlen m" using that bitlen_nonneg [of m] bitlen_eq_zero_iff [of m] by linarith
    then show "2 powi (bitlen m - 1) \<le> (of_int m :: rat)" "(of_int m :: rat) < 2 powi bitlen m"
      using bitlen_bounds [OF that] by (simp_all only: pow of_int_le_iff of_int_less_iff)
  qed
  have low: "2 powi (bitlen n - bitlen d - 1) \<le> q"
  proof -
    have "2 powi (bitlen n - 1) / 2 powi bitlen d \<le> of_int n / (of_int d :: rat)"
      using len [OF n] len [OF d] d n by (intro frac_le) (auto intro: less_imp_le)
    then show ?thesis by (simp add: q power_int_diff [symmetric] algebra_simps)
  qed
  have high: "q < 2 powi (bitlen n - bitlen d + 1)"
  proof -
    have "of_int n / (of_int d :: rat) < 2 powi bitlen n / 2 powi (bitlen d - 1)"
      using len [OF n] len [OF d] d n by (intro frac_less) auto
    then show ?thesis by (simp add: q power_int_diff [symmetric] algebra_simps)
  qed
  show "2 powi (exp2 q) \<le> q" "q < 2 powi (exp2 q + 1)"
    using low high by (auto simp: exp2_def nd Let_def not_le)
qed

lemma powi2_less_iff: "(2::rat) powi a < 2 powi b \<longleftrightarrow> a < b"
  by (metis linorder_neqE_linordered_idom one_less_numeral_iff order_less_asym order_less_irrefl
      power_int_strict_increasing semiring_norm(76))

lemma exp2_unique:
  assumes "2 powi e \<le> q" "q < 2 powi (e + 1)"
  shows "exp2 q = e"
proof -
  have "0 < q" using assms(1) by (rule less_le_trans [rotated]) simp
  from exp2_bounds [OF this] assms have "2 powi (exp2 q) < (2::rat) powi (e + 1)"
    "2 powi e < (2::rat) powi (exp2 q + 1)"
    by linarith+
  then show ?thesis by (simp add: powi2_less_iff)
qed

lemma f64_zero [simp]: "f64 0 = 0"
  by (simp add: f64_def)

text \<open>A 53-bit integer scaled by a power of two is represented exactly.\<close>

lemma f64_exact_pos:
  assumes "0 \<le> m" "m \<le> 2 ^ 53"
  shows "f64 (of_int m * 2 powi e) = of_int m * 2 powi e"
proof (cases "m = 0")
  case False
  let ?q = "of_int m * 2 powi e :: rat"
  have q: "0 < ?q" using assms False by simp
  define E where "E = exp2 ?q"
  have "2 powi E \<le> ?q" using exp2_bounds [OF q] by (simp add: E_def)
  also have "?q \<le> 2 ^ 53 * 2 powi e"
    using assms(2) of_int_le_iff [of m "2 ^ 53", where 'a = rat] by (intro mult_right_mono) simp_all
  also have "\<dots> = 2 powi (53 + e)" by (simp add: power_int_add)
  finally have E: "E \<le> e + 53" by (metis add.commute linorder_not_less powi2_less_iff)
  have "\<exists>k. ?q / 2 powi (E - 52) = of_int k"
  proof (cases "E \<le> e + 52")
    case True
    then have "2 powi (e - (E - 52)) = (of_int (2 ^ nat (e - (E - 52))) :: rat)"
      by (simp add: power_int_def)
    moreover have "?q / 2 powi (E - 52) = of_int m * 2 powi (e - (E - 52))"
      by (subst power_int_diff [of 2 e "E - 52"]) simp_all
    ultimately have "?q / 2 powi (E - 52) = of_int (m * 2 ^ nat (e - (E - 52)))"
      by simp
    then show ?thesis by blast
  next
    case False
    with E have "E = e + 53" by simp
    with \<open>2 powi E \<le> ?q\<close> have "(2::rat) ^ 53 \<le> of_int m" by (simp add: power_int_add)
    then have "of_int (2 ^ 53) \<le> (of_int m :: rat)" by simp
    then have "2 ^ 53 \<le> m" by (simp only: of_int_le_iff)
    with assms(2) have "m = 2 ^ 53" by (rule antisym)
    with \<open>E = e + 53\<close> have "?q / 2 powi (E - 52) = of_int (2 ^ 52)"
      by (simp add: power_int_add)
    then show ?thesis by blast
  qed
  then obtain k where "?q / 2 powi (E - 52) = of_int k" ..
  moreover then have "of_int k * 2 powi (E - 52) = ?q"
    by (metis nonzero_eq_divide_eq power_int_eq_0_iff zero_neq_numeral)
  ultimately show ?thesis using q by (simp add: f64_def E_def [symmetric] Let_def)
qed simp

lemma f64_of_int: "0 \<le> m \<Longrightarrow> m \<le> 2 ^ 53 \<Longrightarrow> f64 (of_int m) = of_int m"
  using f64_exact_pos [of m 0] by simp

lemma f64_powi: "f64 (2 powi e) = 2 powi e"
  using f64_exact_pos [of 1 e] by simp

text \<open>Rounding is monotonic and its relative error is at most \<open>2 powi (-53)\<close>.\<close>

lemma f64_binade:
  assumes "2 powi e \<le> q" "q < 2 powi (e + 1)"
  shows "f64 q = of_int (round_half_even (q / 2 powi (e - 52))) * 2 powi (e - 52)"
    and "2 powi e \<le> f64 q" and "f64 q \<le> 2 powi (e + 1)"
proof -
  let ?u = "2 powi (e - 52) :: rat"
  have "0 < q" using assms(1) by (rule less_le_trans [rotated]) simp
  then show eq: "f64 q = of_int (round_half_even (q / ?u)) * ?u"
    using exp2_unique [OF assms] by (simp add: f64_def Let_def)
  have l: "2 powi e / ?u = of_int (2 ^ 52)" and h: "2 powi (e + 1) / ?u = of_int (2 ^ 53)"
    by (simp_all add: power_int_diff power_int_add)
  have "of_int (2 ^ 52) \<le> q / ?u" "q / ?u \<le> of_int (2 ^ 53)"
    unfolding l [symmetric] h [symmetric] using assms by (auto intro: divide_right_mono)
  then have "2 ^ 52 \<le> round_half_even (q / ?u)" "round_half_even (q / ?u) \<le> 2 ^ 53"
    using rhe_mono rhe_of_int by metis+
  then have "of_int (2 ^ 52) * ?u \<le> of_int (round_half_even (q / ?u)) * ?u"
    "of_int (round_half_even (q / ?u)) * ?u \<le> of_int (2 ^ 53) * ?u"
    by (intro mult_right_mono; simp)+
  then show "2 powi e \<le> f64 q" "f64 q \<le> 2 powi (e + 1)"
    unfolding eq l [symmetric] h [symmetric] by simp_all
qed

lemma f64_pos_bounds:
  assumes "0 < q"
  shows "2 powi (exp2 q) \<le> f64 q" "f64 q \<le> 2 powi (exp2 q + 1)"
  using f64_binade exp2_bounds [OF assms] by blast+

lemma f64_nonneg: "0 \<le> q \<Longrightarrow> 0 \<le> f64 q"
proof (cases "q = 0")
  case False
  assume "0 \<le> q"
  with False have "2 powi (exp2 q) \<le> f64 q" by (intro f64_pos_bounds) simp
  then show ?thesis by (rule order_trans [rotated]) simp
qed simp

lemma f64_mono:
  assumes "0 \<le> x" "x \<le> y"
  shows "f64 x \<le> f64 y"
proof (cases "x = 0")
  case True
  then show ?thesis using assms f64_nonneg [of y] by simp
next
  case False
  with assms have x: "0 < x" and y: "0 < y" by simp_all
  let ?e = "exp2 x" and ?f = "exp2 y"
  have "2 powi ?e < (2::rat) powi (?f + 1)"
    using exp2_bounds [OF x] exp2_bounds [OF y] assms(2) by linarith
  then have le: "?e \<le> ?f" by (simp add: powi2_less_iff)
  show ?thesis
  proof (cases "?e = ?f")
    case True
    have "round_half_even (x / 2 powi (?e - 52)) \<le> round_half_even (y / 2 powi (?e - 52))"
      using assms(2) by (intro rhe_mono divide_right_mono) simp_all
    then have "of_int (round_half_even (x / 2 powi (?e - 52))) * 2 powi (?e - 52)
        \<le> (of_int (round_half_even (y / 2 powi (?e - 52))) * 2 powi (?e - 52) :: rat)"
      by (intro mult_right_mono) simp_all
    then show ?thesis
      using f64_binade(1) [OF exp2_bounds [OF x]] f64_binade(1) [OF exp2_bounds [OF y]] True
      by simp
  next
    case False
    with le have "2 powi (?e + 1) \<le> (2::rat) powi ?f"
      by (metis linorder_not_le powi2_less_iff zless_imp_add1_zle order_le_less)
    then show ?thesis using f64_pos_bounds(2) [OF x] f64_pos_bounds(1) [OF y] by linarith
  qed
qed

lemma f64_error:
  assumes "0 \<le> q"
  shows "\<bar>f64 q - q\<bar> \<le> q * 2 powi (-53)"
proof (cases "q = 0")
  case False
  with assms have q: "0 < q" by simp
  let ?u = "2 powi (exp2 q - 52) :: rat"
  have "\<bar>of_int (round_half_even (q / ?u)) - q / ?u\<bar> \<le> 1 / 2" by (rule rhe_bound)
  then have "\<bar>of_int (round_half_even (q / ?u)) - q / ?u\<bar> * ?u \<le> 1 / 2 * ?u"
    by (intro mult_right_mono) simp_all
  moreover have "\<bar>of_int (round_half_even (q / ?u)) - q / ?u\<bar> * ?u = \<bar>f64 q - q\<bar>"
  proof -
    have "\<bar>of_int (round_half_even (q / ?u)) - q / ?u\<bar> * ?u
        = \<bar>(of_int (round_half_even (q / ?u)) - q / ?u) * ?u\<bar>"
      by (simp add: abs_mult)
    also have "(of_int (round_half_even (q / ?u)) - q / ?u) * ?u = f64 q - q"
      unfolding f64_binade(1) [OF exp2_bounds [OF q]] by (simp add: left_diff_distrib)
    finally show ?thesis .
  qed
  moreover have "1 / 2 * ?u = 2 powi (exp2 q) * 2 powi (-53)"
    by (simp add: power_int_diff power_int_minus)
  moreover have "2 powi (exp2 q) * 2 powi (-53) \<le> q * 2 powi (-53)"
    using exp2_bounds [OF q] by (intro mult_right_mono) simp_all
  ultimately show ?thesis by linarith
qed simp

lemma trunc_int_of_int [simp]: "trunc_int (of_int n) = n"
  by (simp add: trunc_int_def)

end
