(* ===== verification/Go_Time.thy ===== *)
theory Go_Time
  imports Gruff_Prelude Go_Strings Float64
begin

text \<open>
  The floating-point and calendar parts of Go's \<^verbatim>\<open>time\<close> package: the accessors \<^verbatim>\<open>Seconds\<close>,
  \<^verbatim>\<open>Minutes\<close> and \<^verbatim>\<open>Hours\<close> of a duration with their \<^verbatim>\<open>float64\<close> rounding, rounding of a duration,
  and the rendering of a UTC instant. The accessors truncate to the exact quotient for every
  duration the configuration admits.
\<close>

section \<open>Durations as floats\<close>

definition dur_float :: "duration \<Rightarrow> duration \<Rightarrow> rat" where
  "dur_float unit d =
     f64 (f64 (of_int (go_div d unit)) + f64 (f64 (of_int (go_mod d unit)) / of_int unit))"

definition dur_seconds :: "duration \<Rightarrow> rat" where "dur_seconds = dur_float second"
definition dur_minutes :: "duration \<Rightarrow> rat" where "dur_minutes = dur_float minute"
definition dur_hours :: "duration \<Rightarrow> rat" where "dur_hours = dur_float hour"

lemma dur_float_trunc:
  assumes d: "0 \<le> d" and unit: "0 < unit" "unit \<le> 2 ^ k" and k: "k \<le> 53"
    and q: "d div unit + 1 \<le> 2 ^ (53 - k)"
  shows "trunc_int (dur_float unit d) = d div unit"
proof -
  let ?q = "d div unit" and ?r = "d mod unit"
  let ?p = "2 powi (- int k) :: rat"
  have p: "0 < ?p" "?p = 1 / 2 ^ k" by (simp_all add: power_int_minus_divide)
  have big: "(2::int) ^ k \<le> 2 ^ 53" "(2::int) ^ (53 - k) \<le> 2 ^ 53"
    using k by (intro power_increasing; simp)+
  have r: "0 \<le> ?r" "?r < unit" using unit by simp_all
  then have r53: "?r \<le> 2 ^ 53" using unit big by linarith
  have q0: "0 \<le> ?q" using d unit by (simp add: pos_imp_zdiv_nonneg_iff)
  have q53: "?q \<le> 2 ^ 53" using q big by linarith
  have fr: "f64 (of_int ?r) = of_int ?r" and fq: "f64 (of_int ?q) = of_int ?q"
    using r q0 r53 q53 by (simp_all add: f64_of_int)
  have frac0: "0 \<le> (of_int ?r / of_int unit :: rat)" using r unit by simp
  have "?r \<le> unit - 1" using r by simp
  then have "(of_int ?r :: rat) \<le> of_int (unit - 1)" by (simp only: of_int_le_iff)
  then have "(of_int ?r / of_int unit :: rat) \<le> of_int (unit - 1) / of_int unit"
    using unit by (intro divide_right_mono) simp_all
  also have "\<dots> = 1 - 1 / of_int unit" using unit by (simp add: diff_divide_distrib)
  also have "\<dots> \<le> 1 - ?p"
  proof -
    have "(of_int unit :: rat) \<le> of_int (2 ^ k)" using unit(2) by (simp only: of_int_le_iff)
    then have "1 / 2 ^ k \<le> (1 / of_int unit :: rat)" using unit by (intro divide_left_mono) simp_all
    then show ?thesis using p by simp
  qed
  finally have frac: "(of_int ?r / of_int unit :: rat) \<le> 1 - ?p" .
  have one: "1 - ?p = of_int (2 ^ k - 1) * ?p" using p by (simp add: diff_divide_distrib)
  have "f64 (1 - ?p) = 1 - ?p"
    unfolding one using big by (intro f64_exact_pos) simp_all
  with f64_mono [OF frac0 frac] have fracf: "f64 (of_int ?r / of_int unit) \<le> 1 - ?p" by simp
  have fracf0: "0 \<le> f64 (of_int ?r / of_int unit)" by (rule f64_nonneg [OF frac0])
  let ?s = "of_int ?q + f64 (of_int ?r / of_int unit)"
  have "of_int ?q \<le> f64 ?s"
    using f64_mono [of "of_int ?q" ?s] fq fracf0 q0 by simp
  moreover have "f64 ?s < of_int ?q + 1"
  proof -
    have top: "of_int ?q + 1 - ?p = of_int ((?q + 1) * 2 ^ k - 1) * ?p"
      using p by (simp add: diff_divide_distrib)
    have "(?q + 1) * 2 ^ k \<le> 2 ^ (53 - k) * 2 ^ k" using q by (intro mult_right_mono) simp_all
    also have "\<dots> = 2 ^ 53" using k by (simp flip: power_add)
    finally have "(?q + 1) * 2 ^ k - 1 \<le> 2 ^ 53" by simp
    moreover have "0 \<le> (?q + 1) * 2 ^ k - 1"
      using q0 mult_mono [of 1 "?q + 1" 1 "2 ^ k"] by simp
    ultimately have "f64 (of_int ?q + 1 - ?p) = of_int ?q + 1 - ?p"
      unfolding top by (intro f64_exact_pos) simp_all
    moreover have "?s \<le> of_int ?q + 1 - ?p" using fracf by simp
    moreover have "0 \<le> ?s" using q0 fracf0 by simp
    ultimately show ?thesis using f64_mono [of ?s "of_int ?q + 1 - ?p"] p(1) by linarith
  qed
  moreover have "dur_float unit d = f64 ?s" using d unit fr fq by (simp add: dur_float_def)
  moreover have "0 \<le> f64 ?s" using q0 fracf0 by (intro f64_nonneg) simp
  ultimately show ?thesis by (simp add: trunc_int_def floor_eq_iff)
qed

lemma dur_hours_trunc: "0 \<le> d \<Longrightarrow> d \<le> 24 * hour \<Longrightarrow> trunc_int (dur_hours d) = d div hour"
  unfolding dur_hours_def by (rule dur_float_trunc [where k = 42]) simp_all

lemma dur_minutes_trunc: "0 \<le> d \<Longrightarrow> d \<le> 24 * hour \<Longrightarrow> trunc_int (dur_minutes d) = d div minute"
  unfolding dur_minutes_def by (rule dur_float_trunc [where k = 36]) simp_all

text \<open>\<^verbatim>\<open>d.Round(m)\<close> rounds to the nearest multiple, halves away from zero.\<close>

definition dur_round :: "duration \<Rightarrow> duration \<Rightarrow> duration" where
  "dur_round d m =
     (let r = go_mod d m in
      if d < 0 then
        (let r = - r in if r + r < m then d + r else d - m + r)
      else (if r + r < m then d - r else d + m - r))"

section \<open>Calendar\<close>

text \<open>
  The proleptic Gregorian date of a day counted from 1970-01-01, in the era decomposition Go's
  and most other libraries use, and \<^verbatim>\<open>Format(time.RFC3339)\<close> of a UTC instant with whole seconds.
\<close>

definition civil_from_days :: "int \<Rightarrow> int \<times> int \<times> int" where
  "civil_from_days days =
     (let z = days + 719468;
          era = z div 146097;
          doe = z mod 146097;
          yoe = (doe - doe div 1460 + doe div 36524 - doe div 146096) div 365;
          doy = doe - (365 * yoe + yoe div 4 - yoe div 100);
          mp = (5 * doy + 2) div 153;
          d = doy - (153 * mp + 2) div 5 + 1;
          m = (if mp < 10 then mp + 3 else mp - 9)
      in (yoe + era * 400 + (if m \<le> 2 then 1 else 0), m, d))"

definition pad_left :: "nat \<Rightarrow> string \<Rightarrow> string" where
  "pad_left n s = replicate (n - length s) (CHR ''0'') @ s"

text \<open>\<^verbatim>\<open>Duration.String\<close>: the fraction without its trailing zeros, the micro sign in UTF-8.\<close>

definition fraction :: "int \<Rightarrow> nat \<Rightarrow> string" where
  "fraction v prec =
     (let digits = rev (dropWhile (\<lambda>c. c = CHR ''0'') (rev (pad_left prec (dec_nat (nat v)))))
      in if digits = [] then [] else ''.'' @ digits)"

definition duration_string :: "duration \<Rightarrow> string" where
  "duration_string d =
     (let u = \<bar>d\<bar>; s = u div second; m = s div 60; h = m div 60;
          seconds = dec_int (s mod 60) @ fraction (u mod second) 9 @ ''s'' in
      (if d < 0 then ''-'' else []) @
      (if u = 0 then ''0s''
       else if u < 1000 then dec_int u @ ''ns''
       else if u < 1000000 then dec_int (u div 1000) @ fraction (u mod 1000) 3 @ map char_of [0xC2 :: nat, 0xB5] @ ''s''
       else if u < second then dec_int (u div 1000000) @ fraction (u mod 1000000) 6 @ ''ms''
       else if m = 0 then seconds
       else if h = 0 then dec_int m @ ''m'' @ seconds
       else dec_int h @ ''h'' @ dec_int (m mod 60) @ ''m'' @ seconds))"

definition two :: "int \<Rightarrow> string" where "two n = pad_left 2 (dec_nat (nat n))"
definition four :: "int \<Rightarrow> string" where "four n = pad_left 4 (dec_nat (nat n))"

definition clock_of :: "instant \<Rightarrow> int \<times> int \<times> int" where
  "clock_of t = (let s = unix t mod 86400 in (s div 3600, s mod 3600 div 60, s mod 60))"

definition rfc3339 :: "instant \<Rightarrow> string" where
  "rfc3339 t =
     (case (civil_from_days (unix t div 86400), clock_of t) of
        ((y, m, d), (h, mi, s)) \<Rightarrow>
          four y @ ''-'' @ two m @ ''-'' @ two d @ ''T'' @ two h @ '':'' @ two mi @ '':'' @ two s @ ''Z'')"

definition compact_stamp :: "instant \<Rightarrow> string" where
  "compact_stamp t =
     (case (civil_from_days (unix t div 86400), clock_of t) of
        ((y, m, d), (h, mi, s)) \<Rightarrow>
          four y @ two m @ two d @ ''T'' @ two h @ two mi @ two s @ ''Z'')"

lemma rfc3339_epoch: "rfc3339 0 = ''1970-01-01T00:00:00Z''"
  by code_simp

lemma rfc3339_leap: "rfc3339 (951782399 * second) = ''2000-02-28T23:59:59Z''
    \<and> rfc3339 (951782400 * second) = ''2000-02-29T00:00:00Z''"
  by code_simp

definition stamp_char :: "char \<Rightarrow> bool" where
  "stamp_char c = (is_digit c \<or> c \<in> {CHR ''-'', CHR '':'', CHR ''T'', CHR ''Z''})"

lemma two_four_chars:
  "c \<in> set (two n) \<Longrightarrow> is_digit c" "c \<in> set (four n) \<Longrightarrow> is_digit c"
  by (auto simp: two_def four_def pad_left_def is_digit_def dest!: dec_nat_chars [unfolded is_digit_def])

lemma rfc3339_chars: "c \<in> set (rfc3339 t) \<Longrightarrow> stamp_char c"
  by (auto simp: rfc3339_def stamp_char_def dest: two_four_chars split: prod.splits)

end
