(* ===== verification/Config_Profile.thy ===== *)
theory Config_Profile
  imports Config_Auth Go_Time
begin

text \<open>
  The first half of \<^verbatim>\<open>internal/config/config.go\<close>: networks, firewall rules, VPN and SSH profiles,
  the role check that gates them and their validation. What validation promises is the
  predicates \<open>profile_ok\<close> and \<open>ssh_profile_ok\<close>.
\<close>

section \<open>Durations for display\<close>

definition max_session_duration :: duration where "max_session_duration = 24 * hour"

definition default_issues_per_hour :: int where "default_issues_per_hour = 20"

definition plural :: "int \<Rightarrow> string \<Rightarrow> string" where
  "plural n unit = (if n = 1 then ''1 '' @ unit else dec_int n @ '' '' @ unit @ ''s'')"

definition human :: "duration \<Rightarrow> string" where
  "human d =
     (let h = trunc_int (dur_hours d); m = go_mod (trunc_int (dur_minutes d)) 60 in
      if h = 0 then plural m ''minute''
      else if m = 0 then plural h ''hour''
      else dec_int h @ ''h '' @ dec_int m @ ''m'')"

section \<open>Networks\<close>

text \<open>
  A \<^verbatim>\<open>Network\<close> is either what \<^verbatim>\<open>ParseNetwork\<close> returned, an IPv4 address and a prefix length, or
  the zero \<^verbatim>\<open>netip.Prefix\<close> of a field the YAML did not mention.
\<close>

datatype network = NoNetwork | Network "32 word" nat

datatype network_error =
    UnparsableNetwork string
  | NotIPv4 string
  | HostBitsSet string

definition parse_network :: "string \<Rightarrow> network_error + network" where
  "parse_network s =
     (case parse_prefix s of
        None \<Rightarrow> Inl (UnparsableNetwork s)
      | Some (V6 w zone, n) \<Rightarrow> Inl (NotIPv4 s)
      | Some (V4 w, n) \<Rightarrow>
          if w \<noteq> w AND mask32 n then Inl (HostBitsSet s) else Inr (Network w n))"

fun network_string :: "network \<Rightarrow> string" where
  "network_string NoNetwork = ''invalid Prefix''"
| "network_string (Network w n) = v4_string w @ ''/'' @ dec_nat n"

fun network_addr :: "network \<Rightarrow> string" where
  "network_addr NoNetwork = ''invalid IP''"
| "network_addr (Network w n) = v4_string w"

text \<open>\<^verbatim>\<open>Bits()\<close> of the zero prefix is \<open>-1\<close>, for which \<^verbatim>\<open>net.CIDRMask\<close> returns nil.\<close>

fun netmask :: "network \<Rightarrow> string" where
  "netmask NoNetwork = ''<nil>''"
| "netmask (Network w n) = dotted (cidr_mask n 4)"

section \<open>Profiles\<close>

record rule =
  r_destination :: network
  r_port :: int
  r_protocol :: string
  r_action :: string

record profile =
  p_name :: string
  p_description :: string
  p_duration :: duration
  p_roles :: "string list"
  p_routes :: "network list"
  p_rules :: "rule list"

record ssh_profile =
  s_name :: string
  s_description :: string
  s_duration :: duration
  s_roles :: "string list"
  s_principals :: "string list"
  s_extensions :: "string list"
  s_hosts :: "string list"

definition valid_protocols :: "string list" where
  "valid_protocols = [''tcp'', ''udp'', ''icmp'']"

definition valid_actions :: "string list" where
  "valid_actions = [''ACCEPT'', ''DROP'', ''REJECT'']"

definition valid_extensions :: "string list" where
  "valid_extensions =
     [''permit-X11-forwarding'', ''permit-agent-forwarding'', ''permit-port-forwarding'',
      ''permit-pty'', ''permit-user-rc'']"

definition default_extensions :: "string list" where
  "default_extensions = [''permit-pty'', ''permit-user-rc'']"

definition profile_allowed_for :: "profile \<Rightarrow> string list \<Rightarrow> bool" where
  "profile_allowed_for p roles =
     slice_contains_func (p_roles p) (\<lambda>required. slice_contains roles required)"

definition ssh_allowed_for :: "ssh_profile \<Rightarrow> string list \<Rightarrow> bool" where
  "ssh_allowed_for p roles =
     slice_contains_func (s_roles p) (\<lambda>required. slice_contains roles required)"

definition granted_extensions :: "ssh_profile \<Rightarrow> string list" where
  "granted_extensions p = (if s_extensions p = [] then default_extensions else s_extensions p)"

section \<open>Patterns\<close>

definition is_upper :: "char \<Rightarrow> bool" where "is_upper c = (65 \<le> byte c \<and> byte c \<le> 90)"
definition is_lower :: "char \<Rightarrow> bool" where "is_lower c = (97 \<le> byte c \<and> byte c \<le> 122)"

text \<open>\<^verbatim>\<open>^[a-zA-Z0-9_-]{1,64}$\<close>\<close>

definition name_char :: "char \<Rightarrow> bool" where
  "name_char c = (is_lower c \<or> is_upper c \<or> is_digit c \<or> c = CHR ''_'' \<or> c = CHR ''-'')"

definition profile_name_matches :: "string \<Rightarrow> bool" where
  "profile_name_matches s = (1 \<le> length s \<and> length s \<le> 64 \<and> list_all name_char s)"

text \<open>\<^verbatim>\<open>^[a-z_][a-z0-9_-]{0,31}$\<close>\<close>

fun principal_name_matches :: "string \<Rightarrow> bool" where
  "principal_name_matches [] = False"
| "principal_name_matches (c # cs) =
     ((is_lower c \<or> c = CHR ''_'') \<and> length cs \<le> 31
      \<and> list_all (\<lambda>d. is_lower d \<or> is_digit d \<or> d = CHR ''_'' \<or> d = CHR ''-'') cs)"

text \<open>\<^verbatim>\<open>^[A-Za-z0-9!*?._-]{1,253}$\<close>\<close>

definition host_char :: "char \<Rightarrow> bool" where
  "host_char c = (is_lower c \<or> is_upper c \<or> is_digit c \<or> c \<in> set ''!*?._-'')"

definition host_pattern_matches :: "string \<Rightarrow> bool" where
  "host_pattern_matches s = (1 \<le> length s \<and> length s \<le> 253 \<and> list_all host_char s)"

definition max_description :: nat where "max_description = 200"

section \<open>Validating a profile\<close>

datatype profile_error =
    BadName
  | NoRoles
  | NoPrincipals
  | BadPrincipal string
  | DescriptionTooLong nat
  | DescriptionNotPrintable
  | BadHost string
  | BadExtension string
  | NotPositive
  | OverCeiling duration
  | BadAction string
  | BadProtocol string
  | PortNeedsProtocol int
  | PortOutOfRange int

definition valid_description :: "go_env \<Rightarrow> string \<Rightarrow> profile_error + unit" where
  "valid_description env s =
     (if max_description < length s then Inl (DescriptionTooLong (length s))
      else if \<not> all_print (uc env) s then Inl DescriptionNotPrintable
      else Inr ())"

definition rule_validate :: "rule \<Rightarrow> profile_error + unit" where
  "rule_validate r =
     (if \<not> slice_contains valid_actions (r_action r) then Inl (BadAction (r_action r))
      else if r_protocol r \<noteq> [] \<and> \<not> slice_contains valid_protocols (r_protocol r)
      then Inl (BadProtocol (r_protocol r))
      else if r_port r \<noteq> 0 then
        (if r_protocol r \<noteq> ''tcp'' \<and> r_protocol r \<noteq> ''udp'' then Inl (PortNeedsProtocol (r_port r))
         else if r_port r < 1 \<or> 65535 < r_port r then Inl (PortOutOfRange (r_port r))
         else Inr ())
      else Inr ())"

definition check_duration :: "duration \<Rightarrow> profile_error + unit" where
  "check_duration d =
     (if d \<le> 0 then Inl NotPositive
      else if max_session_duration < d then Inl (OverCeiling d)
      else Inr ())"

definition profile_validate :: "go_env \<Rightarrow> profile \<Rightarrow> profile_error + unit" where
  "profile_validate env p =
     (if \<not> profile_name_matches (p_name p) then Inl BadName
      else if p_roles p = [] then Inl NoRoles
      else and_then (valid_description env (p_description p)) (\<lambda>_.
           and_then (check_duration (p_duration p)) (\<lambda>_.
           check_all rule_validate (p_rules p))))"

definition ssh_validate :: "go_env \<Rightarrow> ssh_profile \<Rightarrow> profile_error + unit" where
  "ssh_validate env p =
     (if \<not> profile_name_matches (s_name p) then Inl BadName
      else if s_roles p = [] then Inl NoRoles
      else if s_principals p = [] then Inl NoPrincipals
      else
        and_then (check_all (\<lambda>x. fail_if (\<not> principal_name_matches x) (BadPrincipal x))
                   (s_principals p)) (\<lambda>_.
        and_then (valid_description env (s_description p)) (\<lambda>_.
        and_then (check_all (\<lambda>x. fail_if (\<not> host_pattern_matches x) (BadHost x)) (s_hosts p)) (\<lambda>_.
        and_then (check_all (\<lambda>x. fail_if (\<not> slice_contains valid_extensions x) (BadExtension x))
                   (s_extensions p)) (\<lambda>_.
        check_duration (s_duration p))))))"

section \<open>The role check\<close>

text \<open>
  Everything in gruff that is granted by role is granted the same way: some named role is among
  the caller's. The interface is that law; what follows from it is shared by VPN profiles, SSH
  profiles and administration.
\<close>

locale role_grant =
  fixes required :: "'p \<Rightarrow> string list"
    and allowed :: "'p \<Rightarrow> string list \<Rightarrow> bool"
  assumes allowed_iff: "allowed p roles \<longleftrightarrow> (\<exists>r\<in>set (required p). r \<in> set roles)"
begin

lemma denied_by_default: "required p = [] \<Longrightarrow> \<not> allowed p roles"
  by (simp add: allowed_iff)

lemma no_roles_denied: "\<not> allowed p []"
  by (simp add: allowed_iff)

lemma more_roles: "allowed p roles \<Longrightarrow> set roles \<subseteq> set roles' \<Longrightarrow> allowed p roles'"
  by (auto simp: allowed_iff)

lemma same_roles: "set roles = set roles' \<Longrightarrow> allowed p roles = allowed p roles'"
  by (simp add: allowed_iff)

lemma added_role: "allowed p (roles @ extra) \<longleftrightarrow> allowed p roles \<or> allowed p extra"
  by (auto simp: allowed_iff)

end

interpretation vpn_grant: role_grant p_roles profile_allowed_for
  by unfold_locales (simp add: profile_allowed_for_def)

interpretation ssh_grant: role_grant s_roles ssh_allowed_for
  by unfold_locales (simp add: ssh_allowed_for_def)

section \<open>What validation guarantees\<close>

definition rule_ok :: "rule \<Rightarrow> bool" where
  "rule_ok r \<longleftrightarrow>
     r_action r \<in> set valid_actions
     \<and> (r_protocol r = [] \<or> r_protocol r \<in> set valid_protocols)
     \<and> (r_port r = 0 \<or> r_protocol r \<in> {''tcp'', ''udp''} \<and> 1 \<le> r_port r \<and> r_port r \<le> 65535)"

definition profile_ok :: "profile \<Rightarrow> bool" where
  "profile_ok p \<longleftrightarrow>
     profile_name_matches (p_name p) \<and> p_roles p \<noteq> []
     \<and> (\<forall>c\<in>set (p_description p). \<not> control_byte c) \<and> length (p_description p) \<le> max_description
     \<and> 0 < p_duration p \<and> p_duration p \<le> max_session_duration
     \<and> (\<forall>r\<in>set (p_rules p). rule_ok r)"

definition ssh_profile_ok :: "ssh_profile \<Rightarrow> bool" where
  "ssh_profile_ok p \<longleftrightarrow>
     profile_name_matches (s_name p) \<and> s_roles p \<noteq> [] \<and> s_principals p \<noteq> []
     \<and> (\<forall>x\<in>set (s_principals p). principal_name_matches x)
     \<and> (\<forall>c\<in>set (s_description p). \<not> control_byte c) \<and> length (s_description p) \<le> max_description
     \<and> (\<forall>x\<in>set (s_hosts p). host_pattern_matches x)
     \<and> (\<forall>x\<in>set (s_extensions p). x \<in> set valid_extensions)
     \<and> 0 < s_duration p \<and> s_duration p \<le> max_session_duration"

lemma rule_validate_iff: "rule_validate r = Inr u \<longleftrightarrow> rule_ok r"
  by (auto simp: rule_validate_def rule_ok_def valid_protocols_def)

lemma valid_description_ok:
  "valid_description env s = Inr u \<Longrightarrow>
   (\<forall>c\<in>set s. \<not> control_byte c) \<and> length s \<le> max_description"
  by (auto simp: valid_description_def dest: all_print_no_control split: if_splits)

lemma check_duration_iff: "check_duration d = Inr u \<longleftrightarrow> 0 < d \<and> d \<le> max_session_duration"
  by (auto simp: check_duration_def)

lemma profile_validate_ok: "profile_validate env p = Inr u \<Longrightarrow> profile_ok p"
  by (auto simp: profile_validate_def profile_ok_def and_then_Inr_iff check_all_Inr
      rule_validate_iff check_duration_iff dest: valid_description_ok split: if_splits)

lemma ssh_validate_ok: "ssh_validate env p = Inr u \<Longrightarrow> ssh_profile_ok p"
  by (auto simp: ssh_validate_def ssh_profile_ok_def and_then_Inr_iff check_all_Inr
      check_duration_iff dest: valid_description_ok split: if_splits)

text \<open>
  The rule check never looks at the destination: a rule whose \<^verbatim>\<open>dest\<close> the YAML left out is valid.
\<close>

lemma rule_without_destination:
  "rule_validate r = Inr u \<Longrightarrow> rule_validate (r\<lparr>r_destination := NoNetwork\<rparr>) = Inr ()"
  by (simp add: rule_validate_iff rule_ok_def)

text \<open>Shell-inert characters: names, hosts and principals of a valid profile have no others.\<close>

definition plain_char :: "char \<Rightarrow> bool" where
  "plain_char c = (is_lower c \<or> is_upper c \<or> is_digit c \<or> c \<in> set ''!*?._-'')"

lemma name_char_plain: "name_char c \<Longrightarrow> plain_char c"
  by (auto simp: name_char_def plain_char_def)

lemma profile_name_chars: "profile_name_matches s \<Longrightarrow> c \<in> set s \<Longrightarrow> name_char c"
  by (simp add: profile_name_matches_def list_all_iff)

lemma principal_name_chars: "principal_name_matches s \<Longrightarrow> c \<in> set s \<Longrightarrow> name_char c"
  by (cases s) (auto simp: name_char_def list_all_iff)

lemma host_pattern_chars: "host_pattern_matches s \<Longrightarrow> c \<in> set s \<Longrightarrow> host_char c"
  by (simp add: host_pattern_matches_def list_all_iff)

section \<open>Networks and masks\<close>

definition network_ok :: "network \<Rightarrow> bool" where
  "network_ok n = (case n of NoNetwork \<Rightarrow> False | Network w k \<Rightarrow> k \<le> 32 \<and> w AND mask32 k = w)"

lemma parse_bits_le: "parse_bits s m = Some n \<Longrightarrow> n \<le> m"
  by (auto simp: parse_bits_def split: if_splits option.splits)

lemma parse_network_ok: "parse_network s = Inr n \<Longrightarrow> network_ok n"
  by (auto simp: parse_network_def parse_prefix_def network_ok_def
      dest: parse_bits_le split: option.splits if_splits addr.splits prod.splits)

lemma parse_network_string:
  "network_ok n \<Longrightarrow> parse_network (network_string n) = Inr n"
  by (cases n) (simp_all add: network_ok_def parse_network_def parse_prefix_v4_string)

section \<open>Properties\<close>

text \<open>
  A network written in the configuration survives being written out again: whatever
  \<^verbatim>\<open>ParseNetwork\<close> accepts has no host bits, prints as \<open>a.b.c.d/n\<close>, and that text parses to the
  same network.
\<close>

theorem network_roundtrip:
  assumes "parse_network s = Inr n"
  shows "network_ok n \<and> parse_network (network_string n) = Inr n"
  using parse_network_ok [OF assms] by (simp add: parse_network_string)

theorem network_roundtrip_witness:
  "parse_network ''10.20.0.0/16'' = Inr (Network 0x0A140000 16)
   \<and> parse_network (network_string (Network 0x0A140000 16)) = Inr (Network 0x0A140000 16)"
proof -
  have "parse_network ''10.20.0.0/16'' = Inr (Network 0x0A140000 16)" by code_simp
  with network_roundtrip [OF this] show ?thesis by simp
qed

text \<open>
  Durations are shown exactly to the minute, although \<^verbatim>\<open>Hours()\<close> and \<^verbatim>\<open>Minutes()\<close> are floating
  point: for every duration a profile may have, the hours and minutes shown are the whole hours
  and the whole minutes left over.
\<close>

theorem human_exact:
  assumes "0 < d" "d \<le> max_session_duration"
  shows "human d =
    (if d div hour = 0 then plural (d div minute mod 60) ''minute''
     else if d div minute mod 60 = 0 then plural (d div hour) ''hour''
     else dec_int (d div hour) @ ''h '' @ dec_int (d div minute mod 60) @ ''m'')"
proof -
  have "trunc_int (dur_hours d) = d div hour" "trunc_int (dur_minutes d) = d div minute"
    using assms by (intro dur_hours_trunc dur_minutes_trunc; simp add: max_session_duration_def)+
  moreover have "0 \<le> d div minute" using assms by (simp add: pos_imp_zdiv_nonneg_iff)
  ultimately show ?thesis by (simp add: human_def Let_def)
qed

theorem human_exact_witness:
  "human (90 * minute + 59 * second) = ''1h 30m'' \<and> human (8 * hour) = ''8 hours''"
proof -
  have "dec_nat 1 = ''1''" "dec_nat 30 = ''30''" "dec_nat 8 = ''8''" by code_simp+
  then show ?thesis
    using human_exact [of "90 * minute + 59 * second"] human_exact [of "8 * hour"]
    by (simp add: max_session_duration_def plural_def dec_int_def)
qed

end
