(* ===== verification/Config_Decode.thy ===== *)
theory Config_Decode
  imports Config_Profile
begin

text \<open>
  The decoding of durations and networks from YAML in \<^verbatim>\<open>internal/config/config.go\<close>, with
  \<^verbatim>\<open>time.ParseDuration\<close> as it is: checked 64-bit arithmetic, and a fraction through \<^verbatim>\<open>float64\<close>. What the
  node itself decodes to is an argument, nothing standing for a node that is not a scalar.
\<close>

section \<open>Parsing a duration\<close>

datatype duration_error = InvalidDuration | MissingUnit | UnknownUnit string

fun leading_int :: "nat \<Rightarrow> string \<Rightarrow> (nat \<times> string) option" where
  "leading_int x [] = Some (x, [])"
| "leading_int x (c # cs) =
     (if \<not> is_digit c then Some (x, c # cs)
      else if 2 ^ 63 div 10 < x then None
      else if 2 ^ 63 < 10 * x + digit_value c then None
      else leading_int (10 * x + digit_value c) cs)"

text \<open>Digits past what 63 bits hold are skipped, without their weight.\<close>

fun leading_fraction :: "nat \<Rightarrow> rat \<Rightarrow> bool \<Rightarrow> string \<Rightarrow> nat \<times> rat \<times> string" where
  "leading_fraction x scale overflow [] = (x, scale, [])"
| "leading_fraction x scale overflow (c # cs) =
     (if \<not> is_digit c then (x, scale, c # cs)
      else if overflow \<or> (2 ^ 63 - 1) div 10 < x \<or> 2 ^ 63 < 10 * x + digit_value c
      then leading_fraction x scale True cs
      else leading_fraction (10 * x + digit_value c) (f64 (scale * 10)) False cs)"

definition micro :: "string list" where
  "micro = [map char_of [0xC2 :: nat, 0xB5] @ ''s'', map char_of [0xCE :: nat, 0xBC] @ ''s'']"

definition unit_map :: "(string \<times> nat) list" where
  "unit_map =
     [(''ns'', 1), (''us'', 1000), (micro ! 0, 1000), (micro ! 1, 1000), (''ms'', 1000000),
      (''s'', 1000000000), (''m'', 60000000000), (''h'', 3600000000000)]"

definition number_char :: "char \<Rightarrow> bool" where
  "number_char c \<longleftrightarrow> c = CHR ''.'' \<or> is_digit c"

text \<open>The digits after a point, whether there were any, and what follows.\<close>

fun point_fraction :: "string \<Rightarrow> nat \<times> rat \<times> string \<times> bool" where
  "point_fraction [] = (0, 1, [], False)"
| "point_fraction (c # cs) =
     (if c = CHR ''.'' then
        (case leading_fraction 0 1 False cs of (f, scale, rest) \<Rightarrow> (f, scale, rest, length rest \<noteq> length cs))
      else (0, 1, c # cs, False))"

text \<open>One number with its unit, in nanoseconds.\<close>

definition scaled :: "nat \<Rightarrow> nat \<Rightarrow> rat \<Rightarrow> nat \<Rightarrow> duration_error + nat" where
  "scaled v f scale unit =
     (if 2 ^ 63 div unit < v then Inl InvalidDuration
      else if f = 0 then Inr (v * unit)
      else
        let n = (v * unit + nat (trunc_int (f64 (f64 (of_nat f) * f64 (of_nat unit / scale))))) mod 2 ^ 64 in
        if 2 ^ 63 < n then Inl InvalidDuration else Inr n)"

definition parse_component :: "string \<Rightarrow> duration_error + nat \<times> string" where
  "parse_component s =
     (if s = [] \<or> \<not> number_char (hd s) then Inl InvalidDuration
      else
        case leading_int 0 s of
          None \<Rightarrow> Inl InvalidDuration
        | Some (v, t) \<Rightarrow>
            (case point_fraction t of
               (f, scale, t', post) \<Rightarrow>
                 (let u = takeWhile (\<lambda>c. \<not> number_char c) t'; rest = dropWhile (\<lambda>c. \<not> number_char c) t' in
                  if length t = length s \<and> \<not> post then Inl InvalidDuration
                  else if u = [] then Inl MissingUnit
                  else
                    case map_of unit_map u of
                      None \<Rightarrow> Inl (UnknownUnit u)
                    | Some unit \<Rightarrow> and_then (scaled v f scale unit) (\<lambda>n. Inr (n, rest)))))"

lemma leading_int_shorter: "leading_int x s = Some (v, t) \<Longrightarrow> length t \<le> length s"
  by (induction x s rule: leading_int.induct) (auto simp: Let_def split: if_splits)

lemma leading_fraction_shorter: "leading_fraction x sc b s = (f, scale, t) \<Longrightarrow> length t \<le> length s"
  by (induction x sc b s rule: leading_fraction.induct) (auto simp: Let_def split: if_splits)

lemma point_fraction_shorter: "point_fraction s = (f, scale, t, post) \<Longrightarrow> length t \<le> length s"
  by (cases s) (auto split: if_splits prod.splits dest!: leading_fraction_shorter)

text \<open>A unit is at least a byte, so that every turn of the loop consumes something.\<close>

lemma parse_component_shorter:
  assumes "parse_component s = Inr (n, rest)"
  shows "length rest < length s"
proof -
  obtain v t where t: "leading_int 0 s = Some (v, t)"
    using assms by (auto simp: parse_component_def split: if_splits option.splits)
  obtain f scale t' post where p: "point_fraction t = (f, scale, t', post)" by (metis surj_pair)
  let ?u = "takeWhile (\<lambda>c. \<not> number_char c) t'"
  have "?u \<noteq> []" "rest = dropWhile (\<lambda>c. \<not> number_char c) t'"
    using assms t p by (auto simp: parse_component_def and_then_Inr_iff Let_def split: if_splits option.splits)
  moreover have "length ?u + length (dropWhile (\<lambda>c. \<not> number_char c) t') = length t'"
    by (metis length_append takeWhile_dropWhile_id)
  ultimately show ?thesis
    using leading_int_shorter [OF t] point_fraction_shorter [OF p] by (cases ?u) simp_all
qed

function components :: "nat \<Rightarrow> string \<Rightarrow> duration_error + nat" where
  "components d s =
     (if s = [] then Inr d
      else
        case parse_component s of
          Inl e \<Rightarrow> Inl e
        | Inr (v, rest) \<Rightarrow>
            (if 2 ^ 63 < (d + v) mod 2 ^ 64 then Inl InvalidDuration
             else components ((d + v) mod 2 ^ 64) rest))"
  by pat_completeness auto
termination
  by (relation "measure (\<lambda>(d, s). length s)") (auto dest: parse_component_shorter)

declare components.simps [simp del]

fun sign_of :: "string \<Rightarrow> bool \<times> string" where
  "sign_of [] = (False, [])"
| "sign_of (c # cs) =
     (if c = CHR ''-'' then (True, cs) else if c = CHR ''+'' then (False, cs) else (False, c # cs))"

definition parse_duration :: "string \<Rightarrow> duration_error + duration" where
  "parse_duration s =
     (case sign_of s of
        (neg, t) \<Rightarrow>
          if t = ''0'' then Inr 0
          else if t = [] then Inl InvalidDuration
          else and_then (components 0 t) (\<lambda>d.
            if neg then Inr (- int d)
            else if 2 ^ 63 - 1 < d then Inl InvalidDuration else Inr (int d)))"

section \<open>Decoding a field\<close>

datatype decode_error = NotScalar | BadDuration string duration_error | BadNetwork network_error

definition unmarshal_duration :: "string option \<Rightarrow> decode_error + duration" where
  "unmarshal_duration node =
     (case node of
        None \<Rightarrow> Inl NotScalar
      | Some s \<Rightarrow> wrap_error (BadDuration s) (parse_duration s))"

definition unmarshal_network :: "string option \<Rightarrow> decode_error + network" where
  "unmarshal_network node =
     (case node of None \<Rightarrow> Inl NotScalar | Some s \<Rightarrow> wrap_error BadNetwork (parse_network s))"

section \<open>What printing leaves is read back\<close>

lemma digits_value_foldl:
  "foldl (\<lambda>n c. 10 * n + digit_value c) x ds \<ge> x * 10 ^ length ds"
  by (induction ds rule: rev_induct) (auto simp: algebra_simps)

lemma leading_int_digits:
  assumes "list_all is_digit ds" "foldl (\<lambda>n c. 10 * n + digit_value c) x ds \<le> 2 ^ 63"
    and "rest = [] \<or> \<not> is_digit (hd rest)"
  shows "leading_int x (ds @ rest) = Some (foldl (\<lambda>n c. 10 * n + digit_value c) x ds, rest)"
  using assms(1,2)
proof (induction ds arbitrary: x)
  case Nil
  then show ?case using assms(3) by (cases rest) simp_all
next
  case (Cons c ds)
  let ?y = "10 * x + digit_value c"
  have "?y * 1 \<le> ?y * 10 ^ length ds" by (intro mult_left_mono) simp_all
  also have "\<dots> \<le> 2 ^ 63" using digits_value_foldl [of ?y ds] Cons.prems(2) by simp
  finally have "?y \<le> 2 ^ 63" by simp
  moreover from this have "x \<le> 2 ^ 63 div 10" by simp
  ultimately show ?case using Cons by simp
qed

lemma leading_int_dec_nat:
  assumes "n \<le> 2 ^ 63" "rest = [] \<or> \<not> is_digit (hd rest)"
  shows "leading_int 0 (dec_nat n @ rest) = Some (n, rest)"
proof -
  have "foldl (\<lambda>n c. 10 * n + digit_value c) 0 (dec_nat n) = n"
    using digits_value_dec_nat [of n] by (simp add: digits_value_def)
  with leading_int_digits [OF dec_nat_digits _ assms(2), of 0 n] assms(1) show ?thesis by simp
qed

lemma digit_value_less: "is_digit c \<Longrightarrow> digit_value c < 10"
  by (auto simp: is_digit_def digit_value_def)

lemma digits_value_less: "list_all is_digit ds \<Longrightarrow> digits_value ds < 10 ^ length ds"
  by (induction ds rule: rev_induct) (auto simp: digits_value_def is_digit_def digit_value_def)

lemma f64_ten: "n \<le> 15 \<Longrightarrow> f64 (10 ^ n) = 10 ^ n"
proof -
  assume "n \<le> 15"
  then have "(10::int) ^ n \<le> 10 ^ 15" by (intro power_increasing) simp_all
  with f64_of_int [of "10 ^ n"] show ?thesis by simp
qed

lemma leading_fraction_digits:
  assumes "list_all is_digit ds" "length ds \<le> 15" "rest = [] \<or> \<not> is_digit (hd rest)"
  shows "leading_fraction 0 1 False (ds @ rest) = (digits_value ds, 10 ^ length ds, rest)"
proof -
  have "leading_fraction (digits_value xs) (10 ^ length xs) False (ys @ rest)
      = (digits_value (xs @ ys), 10 ^ length (xs @ ys), rest)"
    if "list_all is_digit (xs @ ys)" "length (xs @ ys) \<le> 15" for xs ys
    using that
  proof (induction ys arbitrary: xs)
    case Nil
    then show ?case using assms(3) by (cases rest) simp_all
  next
    case (Cons c ys)
    let ?x = "digits_value xs"
    have "?x < 10 ^ length xs" using Cons.prems by (intro digits_value_less) simp
    also have "\<dots> \<le> 10 ^ 14" using Cons.prems by (intro power_increasing) simp_all
    finally have "?x < 10 ^ 14" .
    moreover have "digit_value c < 10" using Cons.prems by (intro digit_value_less) simp
    ultimately have x: "\<not> (2 ^ 63 - 1) div 10 < ?x" "\<not> 2 ^ 63 < 10 * ?x + digit_value c" by simp_all
    have "f64 (10 ^ length xs * 10) = 10 ^ length (xs @ [c])"
      using f64_ten [of "length (xs @ [c])"] Cons.prems by (simp add: mult.commute)
    then show ?case using Cons.IH [of "xs @ [c]"] Cons.prems x by simp
  qed
  from this [of "[]" ds] assms show ?thesis by (simp add: digits_value_def)
qed

lemma length_dec_nat: "n < 10 ^ k \<Longrightarrow> 0 < k \<Longrightarrow> length (dec_nat n) \<le> k"
proof (induction n arbitrary: k rule: dec_nat.induct)
  case (1 n)
  show ?case
  proof (cases "n < 10")
    case False
    with "1.prems" have k: "0 < k - 1" by (cases "k = 1") auto
    have "n div 10 < 10 ^ (k - 1)" using "1.prems" by (cases k) (auto simp: less_mult_imp_div_less mult.commute)
    from "1.IH" [OF False this k] False k show ?thesis by (subst dec_nat.simps) simp
  qed (use "1.prems" in \<open>simp add: dec_nat.simps [of n]\<close>)
qed

lemma digits_value_zeros: "digits_value (replicate k (CHR ''0'') @ s) = digits_value s"
  by (induction k) (simp_all add: digits_value_def digit_value_def)

lemma stripped_zeros:
  "digits_value (rev (dropWhile (\<lambda>c. c = CHR ''0'') (rev p)))
     * 10 ^ (length p - length (dropWhile (\<lambda>c. c = CHR ''0'') (rev p))) = digits_value p"
proof (induction p rule: rev_induct)
  case (snoc c p)
  have "length (dropWhile (\<lambda>c. c = CHR ''0'') (rev p)) \<le> length p"
    using length_dropWhile_le [of _ "rev p"] by simp
  with snoc show ?case by (simp add: Suc_diff_le digit_value_def)
qed simp

lemma fraction_parts:
  assumes "0 \<le> v" "v < 10 ^ prec" "0 < prec"
  obtains ds where "fraction v prec = (if ds = [] then [] else CHR ''.'' # ds)" "list_all is_digit ds"
    "length ds \<le> prec" "digits_value ds * 10 ^ (prec - length ds) = nat v"
proof -
  let ?p = "pad_left prec (dec_nat (nat v))"
  define ds where "ds = rev (dropWhile (\<lambda>c. c = CHR ''0'') (rev ?p))"
  have "nat v < 10 ^ prec" using assms by (simp add: nat_less_iff)
  then have p: "length ?p = prec" "digits_value ?p = nat v"
    using length_dec_nat [of "nat v" prec] assms(3) by (simp_all add: pad_left_def digits_value_zeros)
  have "list_all is_digit ?p"
    using dec_nat_digits [of "nat v"] by (auto simp: pad_left_def list_all_iff is_digit_def)
  then have "list_all is_digit ds"
    unfolding ds_def list_all_iff using set_dropWhileD by fastforce
  moreover have "length ds \<le> prec"
    unfolding ds_def using length_dropWhile_le [of _ "rev ?p"] p(1) by simp
  moreover have "digits_value ds * 10 ^ (prec - length ds) = nat v"
    using stripped_zeros [of ?p] p by (simp add: ds_def)
  moreover have "fraction v prec = (if ds = [] then [] else CHR ''.'' # ds)"
    by (simp add: fraction_def ds_def Let_def)
  ultimately show thesis using that by blast
qed

lemma point_fraction_fraction:
  assumes v: "0 \<le> v" "v < 10 ^ prec" "0 < prec" "prec \<le> 15"
    and rest: "rest \<noteq> []" "\<not> number_char (hd rest)"
  obtains f k where "point_fraction (fraction v prec @ rest) = (f, 10 ^ k, rest, k \<noteq> 0)"
    "k \<le> prec" "f * 10 ^ (prec - k) = nat v"
proof -
  from fraction_parts [OF v(1-3)] obtain ds where
    ds: "fraction v prec = (if ds = [] then [] else CHR ''.'' # ds)" "list_all is_digit ds"
    "length ds \<le> prec" "digits_value ds * 10 ^ (prec - length ds) = nat v" by blast
  have "leading_fraction 0 1 False (ds @ rest) = (digits_value ds, 10 ^ length ds, rest)"
    using ds v rest by (intro leading_fraction_digits) (auto simp: number_char_def)
  then have "point_fraction (fraction v prec @ rest) = (digits_value ds, 10 ^ length ds, rest, length ds \<noteq> 0)"
    using rest by (cases rest) (auto simp: ds(1) number_char_def digits_value_def)
  with ds that show thesis by blast
qed

lemma scaled_exact:
  assumes f: "f * 10 ^ (prec - k) = v" "k \<le> prec" "v < 10 ^ prec" "prec \<le> 15"
    and n: "n * 10 ^ prec + v \<le> 2 ^ 63"
  shows "scaled n f (10 ^ k) (10 ^ prec) = Inr (n * 10 ^ prec + v)"
proof -
  have le: "n \<le> 2 ^ 63 div 10 ^ prec"
    using n by (simp add: less_eq_div_iff_mult_less_eq)
  have small: "(10::nat) ^ m \<le> 10 ^ 15" if "m \<le> prec" for m
    using that f(4) by (intro power_increasing) simp_all
  have "f \<le> v" using f(1) by (metis le_add1 mult.commute mult_le_mono2 mult.right_neutral one_le_power one_le_numeral)
  with f(3) small [of prec] have fi: "int f \<le> 2 ^ 53" "int v \<le> 2 ^ 53" by simp_all
  have u: "(10::rat) ^ prec / 10 ^ k = 10 ^ (prec - k)" using f(2) by (simp add: power_diff)
  have "f64 (of_nat f) = of_nat f" "f64 (10 ^ (prec - k)) = (10 ^ (prec - k) :: rat)" "f64 (of_nat v) = of_nat v"
    using f64_of_int [of "int f"] f64_of_int [of "int v"] fi f64_ten [of "prec - k"] f(4) by simp_all
  moreover have "(of_nat f * 10 ^ (prec - k) :: rat) = of_nat v" using f(1) by (metis of_nat_mult of_nat_numeral of_nat_power)
  ultimately have "nat (trunc_int (f64 (f64 (of_nat f) * f64 (of_nat (10 ^ prec) / 10 ^ k)))) = v"
    by (simp add: u trunc_int_def)
  moreover have "v = 0" if "f = 0" using f(1) that by simp
  ultimately show ?thesis using le n by (auto simp: scaled_def Let_def)
qed

lemma unit_chars:
  assumes "list_all (\<lambda>c. \<not> number_char c) u" "rest = [] \<or> number_char (hd rest)"
  shows "takeWhile (\<lambda>c. \<not> number_char c) (u @ rest) = u" "dropWhile (\<lambda>c. \<not> number_char c) (u @ rest) = rest"
  using assms by (cases rest; simp add: list_all_iff takeWhile_append2 dropWhile_append2)+

lemma dec_nat_first: "number_char (hd (dec_nat n @ s))" "dec_nat n @ s \<noteq> []"
proof -
  obtain c cs where c: "dec_nat n = c # cs" by (cases "dec_nat n") auto
  with dec_nat_digits [of n] show "number_char (hd (dec_nat n @ s))" by (simp add: number_char_def)
  show "dec_nat n @ s \<noteq> []" using c by simp
qed

lemma parse_number:
  assumes n: "n \<le> 2 ^ 63" and pf: "point_fraction t = (f, scale, u @ rest, post)" "t = [] \<or> \<not> is_digit (hd t)"
    and u: "u \<noteq> []" "list_all (\<lambda>c. \<not> number_char c) u" "map_of unit_map u = Some unit"
    and rest: "rest = [] \<or> number_char (hd rest)" and m: "scaled n f scale unit = Inr m"
  shows "parse_component (dec_nat n @ t) = Inr (m, rest)"
proof -
  have "length t \<noteq> length (dec_nat n @ t)" by simp
  then show ?thesis
    using leading_int_dec_nat [OF n pf(2)] dec_nat_first [of n t] pf(1) u m
    unfolding parse_component_def by (simp add: unit_chars [OF u(2) rest] Let_def)
qed

lemma parse_whole:
  assumes "n * unit \<le> 2 ^ 63" "0 < unit"
    and u: "u \<noteq> []" "list_all (\<lambda>c. \<not> number_char c) u" "map_of unit_map u = Some unit"
    and rest: "rest = [] \<or> number_char (hd rest)"
  shows "parse_component (dec_nat n @ u @ rest) = Inr (n * unit, rest)"
proof (rule parse_number [where f = 0 and scale = 1 and post = False])
  obtain c cs where c: "u = c # cs" "\<not> number_char c" using u by (cases u) auto
  show "point_fraction (u @ rest) = (0, 1, u @ rest, False)" using c by (simp add: number_char_def)
  show "u @ rest = [] \<or> \<not> is_digit (hd (u @ rest))" using c by (simp add: number_char_def)
  have le: "n \<le> 2 ^ 63 div unit" using assms(1,2) by (simp add: less_eq_div_iff_mult_less_eq)
  then show "scaled n 0 1 unit = Inr (n * unit)" by (simp add: scaled_def)
  show "n \<le> 2 ^ 63" using le div_le_dividend le_trans by blast
qed (use u rest in simp_all)

lemma parse_fractional:
  assumes v: "0 \<le> v" "v < 10 ^ prec" "0 < prec" "prec \<le> 15" and n: "n * 10 ^ prec + nat v \<le> 2 ^ 63"
    and u: "u \<noteq> []" "list_all (\<lambda>c. \<not> number_char c) u" "map_of unit_map u = Some (10 ^ prec)"
    and rest: "rest = [] \<or> number_char (hd rest)"
  shows "parse_component (dec_nat n @ fraction v prec @ u @ rest) = Inr (n * 10 ^ prec + nat v, rest)"
proof -
  have w: "u @ rest \<noteq> []" "\<not> number_char (hd (u @ rest))" using u(1,2) by (cases u; simp)+
  from point_fraction_fraction [OF v w] obtain f k where
    f: "point_fraction (fraction v prec @ u @ rest) = (f, 10 ^ k, u @ rest, k \<noteq> 0)"
    "k \<le> prec" "f * 10 ^ (prec - k) = nat v" by blast
  have "nat v < 10 ^ prec" using v(1,2) by (simp add: nat_less_iff)
  from scaled_exact [OF f(3,2) this v(4) n]
  have s: "scaled n f (10 ^ k) (10 ^ prec) = Inr (n * 10 ^ prec + nat v)" .
  have h: "\<not> is_digit (hd (fraction v prec @ u @ rest))"
  proof (cases "fraction v prec = []")
    case True
    with w(2) show ?thesis by (simp add: number_char_def)
  next
    case False
    then obtain ds where "fraction v prec = CHR ''.'' # ds"
      by (auto simp: fraction_def Let_def split: if_splits)
    then show ?thesis by (simp add: is_digit_def)
  qed
  have "n * 1 \<le> n * 10 ^ prec" by (intro mult_left_mono) simp_all
  then have "n \<le> 2 ^ 63" using n by linarith
  from parse_number [OF this f(1) disjI2 [OF h] u rest s] show ?thesis .
qed

lemma components_step:
  assumes "parse_component s = Inr (v, rest)" "d + v \<le> 2 ^ 63"
  shows "components d s = components (d + v) rest"
proof -
  have "s \<noteq> []" using assms(1) by (auto simp: parse_component_def)
  then show ?thesis using assms by (subst components.simps) simp
qed

lemma known_units:
  "map_of unit_map ''ns'' = Some 1" "map_of unit_map (map char_of [0xC2 :: nat, 0xB5] @ ''s'') = Some (10 ^ 3)"
  "map_of unit_map ''ms'' = Some (10 ^ 6)" "map_of unit_map ''s'' = Some (10 ^ 9)"
  "map_of unit_map ''m'' = Some 60000000000" "map_of unit_map ''h'' = Some 3600000000000"
  by (simp_all add: unit_map_def micro_def char_of_def)

lemma unit_letters:
  "list_all (\<lambda>c. \<not> number_char c) ''ns''" "list_all (\<lambda>c. \<not> number_char c) (map char_of [0xC2 :: nat, 0xB5] @ ''s'')"
  "list_all (\<lambda>c. \<not> number_char c) ''ms''" "list_all (\<lambda>c. \<not> number_char c) ''s''"
  "list_all (\<lambda>c. \<not> number_char c) ''m''" "list_all (\<lambda>c. \<not> number_char c) ''h''"
  by (simp_all add: number_char_def is_digit_def char_of_def bit_0)

lemma components_last:
  "parse_component s = Inr (v, []) \<Longrightarrow> d + v \<le> 2 ^ 63 \<Longrightarrow> components d s = Inr (d + v)"
  by (simp add: components_step) (simp add: components.simps)

lemma dec_int_nat: "0 \<le> i \<Longrightarrow> dec_int i = dec_nat (nat i)"
  by (simp add: dec_int_def)

lemma components_seconds:
  assumes "0 \<le> u" "int d + u mod minute \<le> 2 ^ 63"
  shows "components d (dec_int (u div second mod 60) @ fraction (u mod second) 9 @ ''s'')
    = Inr (d + nat (u mod minute))"
proof -
  let ?n = "nat (u div second mod 60)" and ?v = "u mod second"
  have e: "u mod minute = second * (u div second mod 60) + ?v"
    using zmod_zmult2_eq [of 60 u second] by simp
  have r: "0 \<le> u div second mod 60" "0 \<le> ?v" "?v < 10 ^ 9" by simp_all
  have n: "?n * 10 ^ 9 + nat ?v = nat (u mod minute)"
    unfolding e using r by (simp add: nat_add_distrib nat_mult_distrib)
  have le: "d + nat (u mod minute) \<le> 2 ^ 63" using assms(2) by simp
  then have "?n * 10 ^ 9 + nat ?v \<le> 2 ^ 63" unfolding n by simp
  from parse_fractional [OF r(2,3) _ _ this _ unit_letters(4) known_units(4), of "[]"]
  have "parse_component (dec_nat ?n @ fraction ?v 9 @ ''s'') = Inr (nat (u mod minute), [])"
    unfolding n by simp
  from components_last [OF this le] show ?thesis by (simp only: dec_int_nat [OF r(1)])
qed

text \<open>What \<^verbatim>\<open>String\<close> prints after the sign.\<close>

definition magnitude :: "int \<Rightarrow> string" where
  "magnitude u =
     (let s = u div second; m = s div 60; h = m div 60;
          seconds = dec_int (s mod 60) @ fraction (u mod second) 9 @ ''s'' in
      if u = 0 then ''0s''
      else if u < 1000 then dec_int u @ ''ns''
      else if u < 1000000 then dec_int (u div 1000) @ fraction (u mod 1000) 3 @ map char_of [0xC2 :: nat, 0xB5] @ ''s''
      else if u < second then dec_int (u div 1000000) @ fraction (u mod 1000000) 6 @ ''ms''
      else if m = 0 then seconds
      else if h = 0 then dec_int m @ ''m'' @ seconds
      else dec_int h @ ''h'' @ dec_int (m mod 60) @ ''m'' @ seconds)"

lemma duration_string_magnitude: "duration_string d = (if d < 0 then ''-'' else []) @ magnitude \<bar>d\<bar>"
  by (simp add: duration_string_def magnitude_def Let_def)

lemma components_minutes:
  assumes "0 \<le> m" "0 \<le> u" "int d + m * minute + u mod minute \<le> 2 ^ 63"
  shows "components d (dec_int m @ ''m'' @ dec_int (u div second mod 60) @ fraction (u mod second) 9 @ ''s'')
    = Inr (d + nat (m * minute + u mod minute))"
proof -
  let ?rest = "dec_int (u div second mod 60) @ fraction (u mod second) 9 @ ''s''"
  have u: "0 \<le> u mod minute" by simp
  have le: "d + nat m * 60000000000 \<le> 2 ^ 63" using assms(1,3) u by simp
  have "?rest = [] \<or> number_char (hd ?rest)" using dec_nat_first by (simp add: dec_int_nat)
  with parse_whole [OF _ _ _ unit_letters(5) known_units(5) this, of "nat m"] le
  have "parse_component (dec_nat (nat m) @ ''m'' @ ?rest) = Inr (nat m * 60000000000, ?rest)" by simp
  from components_step [OF this le]
  have "components d (dec_int m @ ''m'' @ ?rest) = components (d + nat m * 60000000000) ?rest"
    using assms(1) by (simp only: dec_int_nat)
  also have "\<dots> = Inr (d + nat m * 60000000000 + nat (u mod minute))"
    using assms by (intro components_seconds) simp_all
  also have "nat (m * minute + u mod minute) = nat m * 60000000000 + nat (u mod minute)"
    using assms(1) u by (simp add: nat_add_distrib nat_mult_distrib)
  ultimately show ?thesis by simp
qed

lemma small_unit:
  assumes "0 < u" "u \<le> 2 ^ 63" "0 < prec" "prec \<le> 9" "w \<noteq> []"
    and w: "list_all (\<lambda>c. \<not> number_char c) w" "map_of unit_map w = Some (10 ^ prec)"
  shows "components 0 (dec_int (u div 10 ^ prec) @ fraction (u mod 10 ^ prec) prec @ w) = Inr (nat u)"
proof -
  let ?n = "nat (u div 10 ^ prec)" and ?v = "u mod 10 ^ prec"
  have v: "0 \<le> ?v" "?v < 10 ^ prec" "0 \<le> u div 10 ^ prec" using assms(1) by (simp_all add: pos_imp_zdiv_nonneg_iff)
  have "u = u div 10 ^ prec * 10 ^ prec + ?v" by (simp only: div_mult_mod_eq)
  then have n: "?n * 10 ^ prec + nat ?v = nat u"
    using v by (metis nat_add_distrib nat_mult_distrib nat_numeral nat_power_eq mult_nonneg_nonneg zero_le_numeral zero_le_power)
  then have "?n * 10 ^ prec + nat ?v \<le> 2 ^ 63" using assms(2) by simp
  from parse_fractional [OF v(1,2) assms(3) _ this assms(5) w, of "[]"] assms(4)
  have "parse_component (dec_nat ?n @ fraction ?v prec @ w) = Inr (nat u, [])" unfolding n by simp
  from components_last [OF this, of 0] show ?thesis using assms(2) v(3) by (simp add: dec_int_nat)
qed

lemma whole_nanoseconds:
  assumes "0 < u" "u < 1000"
  shows "components 0 (dec_int u @ ''ns'') = Inr (nat u)"
proof -
  have "parse_component (dec_nat (nat u) @ ''ns'') = Inr (nat u, [])"
    using parse_whole [OF _ _ _ unit_letters(1) known_units(1), of "nat u" "[]"] assms by simp
  from components_last [OF this, of 0] show ?thesis using assms by (simp add: dec_int_nat)
qed

lemma whole_hours:
  assumes "0 \<le> h" "h * hour \<le> 2 ^ 63" "0 \<le> i"
  shows "components 0 (dec_int h @ ''h'' @ dec_int i @ rest) = components (nat (h * hour)) (dec_int i @ rest)"
proof -
  let ?rest = "dec_int i @ rest"
  have le: "nat h * 3600000000000 \<le> 2 ^ 63" using assms by simp
  have "?rest = [] \<or> number_char (hd ?rest)" using dec_nat_first assms(3) by (simp add: dec_int_nat)
  from parse_whole [OF le _ _ unit_letters(6) known_units(6) this]
  have "parse_component (dec_nat (nat h) @ ''h'' @ ?rest) = Inr (nat h * 3600000000000, ?rest)" by simp
  from components_step [OF this, of 0] le assms show ?thesis by (simp add: dec_int_nat nat_mult_distrib)
qed

lemma magnitude_parses:
  assumes u: "0 < u" "u \<le> 2 ^ 63"
  shows "components 0 (magnitude u) = Inr (nat u)"
proof -
  define m where "m = u div second div 60"
  define h where "h = m div 60"
  let ?seconds = "dec_int (u div second mod 60) @ fraction (u mod second) 9 @ ''s''"
  have mu: "m = u div minute" using zdiv_zmult2_eq [of 60 u second] by (simp add: m_def)
  have parts: "u = m * minute + u mod minute" "m = h * 60 + m mod 60" unfolding mu h_def by simp_all
  have nonneg: "0 \<le> m" "0 \<le> h" using u by (simp_all add: m_def h_def pos_imp_zdiv_nonneg_iff)
  consider "u < 1000" | "1000 \<le> u" "u < 1000000" | "1000000 \<le> u" "u < second"
    | "second \<le> u" "m = 0" | "second \<le> u" "m \<noteq> 0" "h = 0" | "second \<le> u" "m \<noteq> 0" "h \<noteq> 0" by linarith
  then show ?thesis
  proof cases
    case 1
    then have "magnitude u = dec_int u @ ''ns''" using u by (simp add: magnitude_def)
    with whole_nanoseconds [OF u(1) 1] show ?thesis by simp
  next
    case 2
    then have "magnitude u = dec_int (u div 10 ^ 3) @ fraction (u mod 10 ^ 3) 3 @ map char_of [0xC2 :: nat, 0xB5] @ ''s''"
      by (simp add: magnitude_def)
    with small_unit [OF u _ _ _ unit_letters(2) known_units(2)] show ?thesis by simp
  next
    case 3
    then have "magnitude u = dec_int (u div 10 ^ 6) @ fraction (u mod 10 ^ 6) 6 @ ''ms''"
      by (simp add: magnitude_def)
    with small_unit [OF u _ _ _ unit_letters(3) known_units(3)] show ?thesis by simp
  next
    case 4
    then have "magnitude u = ?seconds" by (simp add: magnitude_def m_def Let_def)
    with components_seconds [of u 0] parts u 4 show ?thesis by simp
  next
    case 5
    then have "magnitude u = dec_int m @ ''m'' @ ?seconds" by (simp add: magnitude_def m_def h_def Let_def)
    with components_minutes [of m u 0] nonneg parts u show ?thesis by simp
  next
    case 6
    then have e: "magnitude u = dec_int h @ ''h'' @ dec_int (m mod 60) @ ''m'' @ ?seconds"
      by (simp add: magnitude_def m_def h_def Let_def)
    have total: "h * hour + m mod 60 * minute + u mod minute = u" using parts by linarith
    have m60: "0 \<le> m mod 60" and rest: "0 \<le> u mod minute" by simp_all
    with total u(2) have "h * hour \<le> 2 ^ 63" by linarith
    then have "components 0 (magnitude u) = components (nat (h * hour)) (dec_int (m mod 60) @ ''m'' @ ?seconds)"
      unfolding e by (intro whole_hours nonneg(2) m60)
    also have "\<dots> = Inr (nat (h * hour) + nat (m mod 60 * minute + u mod minute))"
      using nonneg u total by (intro components_minutes) simp_all
    also have "\<dots> = Inr (nat u)" using nonneg by (subst total [symmetric]) (simp add: nat_add_distrib)
    finally show ?thesis .
  qed
qed

lemma components_head:
  assumes "components d s = Inr n" "s \<noteq> []"
  shows "number_char (hd s)"
  using assms by (subst (asm) components.simps) (auto simp: parse_component_def split: if_splits)

lemma components_zero: "components 0 ''0'' = Inl MissingUnit"
  by (subst components.simps) (simp add: parse_component_def number_char_def is_digit_def digit_value_def)

lemma parse_magnitude:
  assumes "0 < u" "u \<le> 2 ^ 63"
  shows "sign_of (magnitude u) = (False, magnitude u)" "magnitude u \<noteq> ''0''" "magnitude u \<noteq> []"
proof -
  note m = magnitude_parses [OF assms]
  show ne: "magnitude u \<noteq> []" using m assms(1) by (intro notI) (simp add: components.simps)
  from components_head [OF m this] show "sign_of (magnitude u) = (False, magnitude u)"
    using ne by (cases "magnitude u") (auto simp: number_char_def is_digit_def)
  show "magnitude u \<noteq> ''0''" using m by (intro notI) (simp add: components_zero)
qed

lemma components_bound: "components d s = Inr n \<Longrightarrow> d \<le> 2 ^ 63 \<Longrightarrow> n \<le> 2 ^ 63"
proof (induction d s rule: components.induct)
  case (1 d s)
  from "1.prems"(1) have e: "(if s = [] then Inr d
      else case parse_component s of
          Inl e \<Rightarrow> Inl e
        | Inr (v, rest) \<Rightarrow>
            (if 2 ^ 63 < (d + v) mod 2 ^ 64 then Inl InvalidDuration
             else components ((d + v) mod 2 ^ 64) rest)) = Inr n"
    by (subst (asm) components.simps)
  show ?case
  proof (cases "s = []")
    case False
    with e obtain v rest where "parse_component s = Inr (v, rest)" "\<not> 2 ^ 63 < (d + v) mod 2 ^ 64"
      "components ((d + v) mod 2 ^ 64) rest = Inr n"
      by (auto split: sum.splits if_splits)
    with "1.IH" [OF False this(1) refl this(2,3)] show ?thesis by simp
  qed (use e "1.prems" in simp)
qed

lemma parse_duration_range:
  "parse_duration s = Inr d \<Longrightarrow> min_duration \<le> d \<and> d \<le> max_duration"
  by (auto simp: parse_duration_def and_then_Inr_iff min_duration_def max_duration_def
      split: if_splits prod.splits dest: components_bound [OF _ zero_le])

section \<open>Properties\<close>

text \<open>
  C40. Any duration of 64 bits, the negative ones and fractions of a second included, is read back
  from the text it prints as: what a configuration is written with is what it is loaded with.
\<close>

theorem duration_roundtrip:
  assumes "min_duration \<le> d" "d \<le> max_duration"
  shows "unmarshal_duration (Some (duration_string d)) = Inr d"
proof (cases "d = 0")
  case True
  have "duration_string 0 = ''0s''" by (simp add: duration_string_def)
  moreover have "components 0 ''0s'' = Inr 0"
    using components_last [of "''0s''" 0 0] parse_whole [OF _ _ _ unit_letters(4) known_units(4), of 0 "[]"]
    by (simp add: dec_nat.simps digit_char_def char_of_def bit_0)
  ultimately show ?thesis using True by (simp add: unmarshal_duration_def parse_duration_def)
next
  case False
  then have u: "0 < \<bar>d\<bar>" "\<bar>d\<bar> \<le> 2 ^ 63" using assms by (auto simp: min_duration_def max_duration_def)
  note m = magnitude_parses [OF u] parse_magnitude [OF u]
  show ?thesis
  proof (cases "d < 0")
    case True
    with m show ?thesis
      by (simp add: unmarshal_duration_def parse_duration_def duration_string_magnitude)
  next
    case d: False
    with assms m show ?thesis
      by (simp add: unmarshal_duration_def parse_duration_def duration_string_magnitude max_duration_def)
  qed
qed

theorem duration_roundtrip_witness:
  "duration_string (5401 * second + 500000000) = ''1h30m1.5s''
   \<and> unmarshal_duration (Some ''1h30m1.5s'') = Inr (5401 * second + 500000000)"
proof -
  have f: "fraction 500000000 9 = ''.5''"
    by (simp add: fraction_def pad_left_def dec_nat.simps digit_char_def char_of_def bit_0)
  have n: "dec_nat (Suc 0) = ''1''" "dec_nat 30 = ''30''" by code_simp+
  have s: "duration_string (5401 * second + 500000000) = ''1h30m1.5s''"
    by (simp add: duration_string_def Let_def dec_int_def f n)
  have "unmarshal_duration (Some (duration_string (5401 * second + 500000000))) = Inr (5401 * second + 500000000)"
    by (rule duration_roundtrip) (simp_all add: min_duration_def max_duration_def)
  with s show ?thesis by (simp only: simp_thms)
qed

end
