(* ===== verification/Http.thy ===== *)
theory Http
  imports Go_Net Go_Time
begin

text \<open>
  The parts of \<^verbatim>\<open>net/http\<close> the portal reads requests through and writes responses with. A request is
  what the server hands a handler: headers, query, form and cookies are parsed already and kept as
  lists in their order of arrival, and \<^verbatim>\<open>Get\<close> returns the first value or the empty string.
  \<open>rq_path\<close> is the path as it was sent, \<^verbatim>\<open>URL.EscapedPath()\<close>. The location of a redirect is the
  one given to \<^verbatim>\<open>http.Redirect\<close>; the headers of a response are those the program sets itself. The
  body of an error is the message given to \<^verbatim>\<open>http.Error\<close>, which adds a newline and a content type.
\<close>

section \<open>Requests\<close>

record request =
  rq_method :: string
  rq_host :: string
  rq_path :: string
  rq_raw_query :: string
  rq_query :: "(string \<times> string) list"
  rq_headers :: "(string \<times> string) list"
  rq_cookies :: "(string \<times> string) list"
  rq_form :: "(string \<times> string) list"
  rq_remote_addr :: string

definition first_value :: "(string \<times> string) list \<Rightarrow> string \<Rightarrow> string" where
  "first_value kvs key = (case map_of kvs key of None \<Rightarrow> [] | Some v \<Rightarrow> v)"

definition query_get :: "request \<Rightarrow> string \<Rightarrow> string" where
  "query_get r key = first_value (rq_query r) key"

text \<open>
  The names of \<open>rq_headers\<close> are canonical, as the server makes them, and \<^verbatim>\<open>Header.Get\<close> makes the name it
  is asked for canonical too: a capital at the start and after each hyphen, unless a byte of it
  cannot be in a name.
\<close>

definition name_byte :: "char \<Rightarrow> bool" where
  "name_byte c = (is_digit c \<or> 65 \<le> byte c \<and> byte c \<le> 90 \<or> 97 \<le> byte c \<and> byte c \<le> 122
     \<or> byte c \<in> {0x21, 0x23, 0x24, 0x25, 0x26, 0x27, 0x2A, 0x2B, 0x2D, 0x2E, 0x5E, 0x5F, 0x60, 0x7C, 0x7E})"

definition to_upper :: "char \<Rightarrow> char" where
  "to_upper c = (if 97 \<le> byte c \<and> byte c \<le> 122 then char_of (byte c - 32) else c)"

definition to_lower :: "char \<Rightarrow> char" where
  "to_lower c = (if 65 \<le> byte c \<and> byte c \<le> 90 then char_of (byte c + 32) else c)"

fun capitalise :: "bool \<Rightarrow> string \<Rightarrow> string" where
  "capitalise up [] = []"
| "capitalise up (c # cs) = (if up then to_upper c else to_lower c) # capitalise (c = CHR ''-'') cs"

definition canonical_name :: "string \<Rightarrow> string" where
  "canonical_name key = (if list_all name_byte key then capitalise True key else key)"

definition header_get :: "request \<Rightarrow> string \<Rightarrow> string" where
  "header_get r key = first_value (rq_headers r) (canonical_name key)"

definition form_value :: "request \<Rightarrow> string \<Rightarrow> string" where
  "form_value r key = first_value (rq_form r) key"

definition request_cookie :: "request \<Rightarrow> string \<Rightarrow> string option" where
  "request_cookie r name = map_of (rq_cookies r) name"

section \<open>Cookies\<close>

datatype same_site = SameSiteLax

text \<open>\<open>ck_max_age\<close> is Go's \<^verbatim>\<open>MaxAge\<close>: negative deletes the cookie, zero leaves the attribute out.\<close>

record cookie =
  ck_name :: string
  ck_value :: string
  ck_path :: string
  ck_expires :: "instant option"
  ck_max_age :: int
  ck_http_only :: bool
  ck_secure :: bool
  ck_same_site :: same_site

text \<open>
  A byte \<^verbatim>\<open>net/http\<close> lets through in the value of a request's cookie.
\<close>

definition cookie_byte :: "char \<Rightarrow> bool" where
  "cookie_byte c =
     (32 \<le> byte c \<and> byte c < 127 \<and> byte c \<noteq> 0x22 \<and> c \<noteq> CHR '';'' \<and> byte c \<noteq> 0x5C)"

section \<open>Responses\<close>

record response =
  rs_status :: nat
  rs_headers :: "(string \<times> string) list"
  rs_location :: string
  rs_cookies :: "cookie list"
  rs_body :: string

definition http_error :: "nat \<Rightarrow> string \<Rightarrow> response" where
  "http_error status body =
     \<lparr>rs_status = status, rs_headers = [], rs_location = [], rs_cookies = [], rs_body = body\<rparr>"

definition http_redirect :: "string \<Rightarrow> nat \<Rightarrow> response" where
  "http_redirect url status =
     \<lparr>rs_status = status, rs_headers = [], rs_location = url, rs_cookies = [], rs_body = []\<rparr>"

definition http_ok :: "string \<Rightarrow> response" where
  "http_ok body =
     \<lparr>rs_status = 200, rs_headers = [], rs_location = [], rs_cookies = [], rs_body = body\<rparr>"

definition with_headers :: "(string \<times> string) list \<Rightarrow> response \<Rightarrow> response" where
  "with_headers hs r = r\<lparr>rs_headers := hs @ rs_headers r\<rparr>"

definition set_cookie :: "cookie \<Rightarrow> response \<Rightarrow> response" where
  "set_cookie c r = r\<lparr>rs_cookies := c # rs_cookies r\<rparr>"

section \<open>Escaping\<close>

text \<open>\<^verbatim>\<open>url.QueryEscape\<close> and its inverse, \<^verbatim>\<open>url.PathUnescape\<close>, and \<^verbatim>\<open>URL.RequestURI\<close>.\<close>

definition hex_digit :: "nat \<Rightarrow> char" where
  "hex_digit n = (if n < 10 then char_of (48 + n) else char_of (55 + n))"

definition unreserved :: "char \<Rightarrow> bool" where
  "unreserved c =
     (48 \<le> byte c \<and> byte c \<le> 57 \<or> 65 \<le> byte c \<and> byte c \<le> 90 \<or> 97 \<le> byte c \<and> byte c \<le> 122
      \<or> c \<in> set ''-_.~'')"

definition query_escape :: "string \<Rightarrow> string" where
  "query_escape s =
     concat (map (\<lambda>c. if unreserved c then [c] else if c = CHR '' '' then ''+''
                      else [CHR ''%'', hex_digit (byte c div 16), hex_digit (byte c mod 16)]) s)"

fun percent_decode :: "bool \<Rightarrow> string \<Rightarrow> string option" where
  "percent_decode query [] = Some []"
| "percent_decode query (c # s) =
     (if c = CHR ''%'' then
        (case s of
           a # b # s' \<Rightarrow>
             (case (hex_value a, hex_value b) of
                (Some x, Some y) \<Rightarrow> map_option ((#) (char_of (16 * x + y))) (percent_decode query s')
              | _ \<Rightarrow> None)
         | _ \<Rightarrow> None)
      else map_option ((#) (if query \<and> c = CHR ''+'' then CHR '' '' else c)) (percent_decode query s))"

definition request_uri :: "request \<Rightarrow> string" where
  "request_uri r =
     (if rq_path r = [] then ''/'' else rq_path r) @ (if rq_raw_query r = [] then [] else ''?'' @ rq_raw_query r)"

text \<open>\<^verbatim>\<open>strconv.Quote\<close>, which is what \<^verbatim>\<open>%q\<close> prints: bytes that are not UTF-8 are escaped one by one.\<close>

definition hex_lower :: "nat \<Rightarrow> char" where
  "hex_lower n = (if n < 10 then char_of (48 + n) else char_of (87 + n))"

fun hex_fixed :: "nat \<Rightarrow> nat \<Rightarrow> string" where
  "hex_fixed 0 n = []"
| "hex_fixed (Suc k) n = hex_fixed k (n div 16) @ [hex_lower (n mod 16)]"

definition quote_rune :: "(nat \<Rightarrow> bool) \<Rightarrow> nat \<times> string \<Rightarrow> string" where
  "quote_rune uc rb =
     (case rb of (r, bytes) \<Rightarrow>
        if r = rune_error \<and> length bytes = 1 then CHR 0x5C # ''x'' @ hex_fixed 2 (byte (hd bytes))
        else if r = 0x22 \<or> r = 0x5C then CHR 0x5C # bytes
        else if is_print uc r then bytes
        else if r = 7 then CHR 0x5C # ''a'' else if r = 8 then CHR 0x5C # ''b''
        else if r = 12 then CHR 0x5C # ''f'' else if r = 10 then CHR 0x5C # ''n''
        else if r = 13 then CHR 0x5C # ''r'' else if r = 9 then CHR 0x5C # ''t''
        else if r = 11 then CHR 0x5C # ''v''
        else if r < 0x20 \<or> r = 0x7F then CHR 0x5C # ''x'' @ hex_fixed 2 r
        else if r < 0x10000 then CHR 0x5C # ''u'' @ hex_fixed 4 r
        else CHR 0x5C # ''U'' @ hex_fixed 8 r)"

definition go_quote :: "(nat \<Rightarrow> bool) \<Rightarrow> string \<Rightarrow> string" where
  "go_quote uc s = CHR 0x22 # concat (map (quote_rune uc) (runes s)) @ [CHR 0x22]"

lemma query_escape_Cons:
  "query_escape (c # s) =
     (if unreserved c then [c] else if c = CHR '' '' then ''+''
      else [CHR ''%'', hex_digit (byte c div 16), hex_digit (byte c mod 16)]) @ query_escape s"
  by (simp add: query_escape_def)

lemma hex_value_digit: "n < 16 \<Longrightarrow> hex_value (hex_digit n) = Some n"
  by (auto simp: hex_digit_def hex_value_def is_digit_def digit_value_def)

lemma query_unescape_escape: "percent_decode True (query_escape s) = Some s"
proof (induction s)
  case (Cons c s)
  have "char_of (16 * (byte c div 16) + byte c mod 16) = c" by (simp only: mult_div_mod_eq char_of_char)
  moreover have "char_of (43::nat) = CHR ''+''" "char_of (37::nat) = CHR ''%''" by code_simp+
  moreover have "byte c div 16 < 16" "byte c mod 16 < 16" by (simp_all add: less_mult_imp_div_less)
  ultimately show ?case
    using Cons by (auto simp: query_escape_Cons hex_value_digit unreserved_def)
qed (simp add: query_escape_def)

end
