(* ===== verification/File_System.thy ===== *)
theory File_System
  imports Go_Strings
begin

text \<open>
  The part of the operating system Gruff's writers use: Go's \<^verbatim>\<open>path/filepath\<close> on Unix, and a file
  system whose calls can fail. Every call first takes the next outcome from a list of faults, so a
  theorem that holds for every list holds whichever call fails; an exhausted list is a file system
  that works. \<open>w_seen\<close> records what a concurrent reader could have seen, one entry per change.
\<close>

section \<open>Paths\<close>

abbreviation slash :: char where "slash \<equiv> CHR ''/''"

text \<open>
  \<^verbatim>\<open>filepath.Clean\<close>: empty and \<open>.\<close> elements go, \<open>..\<close> removes the element before it, and at the
  root it removes nothing. Elements are kept in reverse.
\<close>

fun clean_elements :: "bool \<Rightarrow> string list \<Rightarrow> string list \<Rightarrow> string list" where
  "clean_elements rooted out [] = rev out"
| "clean_elements rooted out (e # es) =
     (if e = [] \<or> e = ''.'' then clean_elements rooted out es
      else if e = ''..'' then
        (case out of
           [] \<Rightarrow> clean_elements rooted (if rooted then [] else [e]) es
         | o1 # os \<Rightarrow> clean_elements rooted (if o1 = ''..'' then e # out else os) es)
      else clean_elements rooted (e # out) es)"

definition path_clean :: "string \<Rightarrow> string" where
  "path_clean p =
     (let rooted = has_prefix p ''/'';
          out = (if rooted then ''/'' else []) @ join ''/'' (clean_elements rooted [] (split_on slash p))
      in if out = [] then ''.'' else out)"

text \<open>\<^verbatim>\<open>filepath.Join\<close> drops leading empty elements and cleans the rest.\<close>

definition path_join :: "string \<Rightarrow> string \<Rightarrow> string" where
  "path_join dir name =
     (if dir = [] then (if name = [] then [] else path_clean name)
      else path_clean (dir @ ''/'' @ name))"

text \<open>\<^verbatim>\<open>filepath.Dir\<close> and \<^verbatim>\<open>filepath.Base\<close>.\<close>

definition path_dir :: "string \<Rightarrow> string" where
  "path_dir p = path_clean (rev (dropWhile (\<lambda>c. c \<noteq> slash) (rev p)))"

definition path_base :: "string \<Rightarrow> string" where
  "path_base p =
     (if p = [] then ''.''
      else let q = dropWhile (\<lambda>c. c = slash) (rev p); b = rev (takeWhile (\<lambda>c. c \<noteq> slash) q)
           in if b = [] then ''/'' else b)"

section \<open>The world\<close>

text \<open>
  A fault of a write says how many bytes reached the file before it; of any other call, only
  that it failed.
\<close>

datatype fault = Works | Fails nat

record entry =
  f_data :: string
  f_mode :: nat
  f_synced :: bool

type_synonym files = "string \<Rightarrow> entry option"

record world =
  w_files :: files
  w_dirs :: "string list"
  w_durable :: "string list"
  w_faults :: "fault list"
  w_names :: "nat list"
  w_seen :: "files list"

text \<open>\<open>w_durable\<close> lists the directories whose entries have reached the disk.\<close>

definition next_fault :: "world \<Rightarrow> fault \<times> world" where
  "next_fault w =
     (case w_faults w of
        [] \<Rightarrow> (Works, w)
      | f # fs \<Rightarrow> (f, w\<lparr>w_faults := fs\<rparr>))"

definition put_files :: "files \<Rightarrow> world \<Rightarrow> world" where
  "put_files m w = w\<lparr>w_files := m, w_seen := m # w_seen w\<rparr>"

definition entry_changed :: "string \<Rightarrow> world \<Rightarrow> world" where
  "entry_changed dir w = w\<lparr>w_durable := removeAll dir (w_durable w)\<rparr>"

section \<open>Calls\<close>

text \<open>
  \<^verbatim>\<open>os.MkdirAll\<close> makes every directory on the way to its argument. A directory that is already
  there is fine, a file in its place is not.
\<close>

definition path_prefixes :: "string \<Rightarrow> string list" where
  "path_prefixes d =
     (let es = split_on slash d in
      filter (\<lambda>p. p \<noteq> []) (map (\<lambda>n. join ''/'' (take n es)) [1..<Suc (length es)]))"

definition sys_mkdir_all :: "string \<Rightarrow> world \<Rightarrow> bool \<times> world" where
  "sys_mkdir_all d w =
     (case next_fault w of
        (Fails k, w) \<Rightarrow> (False, w\<lparr>w_dirs := fold List.insert (take k (path_prefixes d)) (w_dirs w)\<rparr>)
      | (Works, w) \<Rightarrow>
          if list_ex (\<lambda>p. w_files w p \<noteq> None) (path_prefixes d) then (False, w)
          else (True, w\<lparr>w_dirs := fold List.insert (path_prefixes d) (w_dirs w)\<rparr>))"

text \<open>
  \<^verbatim>\<open>os.CreateTemp\<close>: opened exclusively, so a random number that is taken is drawn again. The
  numbers drawn are those of \<open>w_names\<close>. A pattern with a separator in it is refused.
\<close>

definition temp_path :: "string \<Rightarrow> string \<Rightarrow> nat \<Rightarrow> string" where
  "temp_path dir base r = (if has_suffix dir ''/'' then dir else dir @ ''/'') @ base @ dec_nat r"

fun draw_name :: "(nat \<Rightarrow> bool) \<Rightarrow> nat list \<Rightarrow> (nat \<times> nat list) option" where
  "draw_name taken [] = None"
| "draw_name taken (r # rs) = (if taken r then draw_name taken rs else Some (r, rs))"

definition sys_create_temp :: "string \<Rightarrow> string \<Rightarrow> world \<Rightarrow> string option \<times> world" where
  "sys_create_temp dir base w =
     (case next_fault w of
        (Fails _, w) \<Rightarrow> (None, w)
      | (Works, w) \<Rightarrow>
          if contains_char base slash \<or> \<not> slice_contains (w_dirs w) dir then (None, w)
          else
            (case draw_name (\<lambda>r. w_files w (temp_path dir base r) \<noteq> None
                               \<or> slice_contains (w_dirs w) (temp_path dir base r)) (w_names w) of
               None \<Rightarrow> (None, w)
             | Some (r, rs) \<Rightarrow>
                 (Some (temp_path dir base r), entry_changed dir
                   (put_files ((w_files w)(temp_path dir base r \<mapsto>
                        \<lparr>f_data = [], f_mode = 0x180, f_synced = False\<rparr>))
                     (w\<lparr>w_names := rs\<rparr>)))))"

text \<open>Calls on an open file, named by its path.\<close>

definition change_file :: "string \<Rightarrow> (entry \<Rightarrow> entry) \<Rightarrow> world \<Rightarrow> world" where
  "change_file p f w =
     (case w_files w p of None \<Rightarrow> w | Some x \<Rightarrow> put_files ((w_files w)(p \<mapsto> f x)) w)"

definition sys_chmod :: "string \<Rightarrow> nat \<Rightarrow> world \<Rightarrow> bool \<times> world" where
  "sys_chmod p mode w =
     (case next_fault w of
        (Fails _, w) \<Rightarrow> (False, w)
      | (Works, w) \<Rightarrow> (True, change_file p (f_mode_update (\<lambda>_. mode)) w))"

definition append_data :: "string \<Rightarrow> entry \<Rightarrow> entry" where
  "append_data s x = x\<lparr>f_data := f_data x @ s, f_synced := False\<rparr>"

definition sys_write :: "string \<Rightarrow> string \<Rightarrow> world \<Rightarrow> bool \<times> world" where
  "sys_write p s w =
     (case next_fault w of
        (Fails k, w) \<Rightarrow> (False, change_file p (append_data (take k s)) w)
      | (Works, w) \<Rightarrow> (True, change_file p (append_data s) w))"

definition sys_fsync :: "string \<Rightarrow> world \<Rightarrow> bool \<times> world" where
  "sys_fsync p w =
     (case next_fault w of
        (Fails _, w) \<Rightarrow> (False, w)
      | (Works, w) \<Rightarrow> (True, change_file p (f_synced_update (\<lambda>_. True)) w))"

definition sys_close :: "string \<Rightarrow> world \<Rightarrow> bool \<times> world" where
  "sys_close p w = (case next_fault w of (Fails _, w) \<Rightarrow> (False, w) | (Works, w) \<Rightarrow> (True, w))"

text \<open>\<^verbatim>\<open>os.Rename\<close> replaces a file, and refuses to replace a directory.\<close>

definition sys_rename :: "string \<Rightarrow> string \<Rightarrow> world \<Rightarrow> bool \<times> world" where
  "sys_rename old new w =
     (case next_fault w of
        (Fails _, w) \<Rightarrow> (False, w)
      | (Works, w) \<Rightarrow>
          (case w_files w old of
             None \<Rightarrow> (False, w)
           | Some x \<Rightarrow>
               if slice_contains (w_dirs w) new then (False, w)
               else (True, entry_changed (path_dir new)
                             (put_files ((w_files w)(old := None, new \<mapsto> x)) w))))"

definition sys_remove :: "string \<Rightarrow> world \<Rightarrow> bool \<times> world" where
  "sys_remove p w =
     (case next_fault w of
        (Fails _, w) \<Rightarrow> (False, w)
      | (Works, w) \<Rightarrow>
          if w_files w p = None then (False, w)
          else (True, entry_changed (path_dir p) (put_files ((w_files w)(p := None)) w)))"

definition sys_open_dir :: "string \<Rightarrow> world \<Rightarrow> bool \<times> world" where
  "sys_open_dir d w =
     (case next_fault w of
        (Fails _, w) \<Rightarrow> (False, w)
      | (Works, w) \<Rightarrow> (slice_contains (w_dirs w) d, w))"

definition sys_sync_dir :: "string \<Rightarrow> world \<Rightarrow> bool \<times> world" where
  "sys_sync_dir d w =
     (case next_fault w of
        (Fails _, w) \<Rightarrow> (False, w)
      | (Works, w) \<Rightarrow> (True, w\<lparr>w_durable := List.insert d (w_durable w)\<rparr>))"

text \<open>
  \<^verbatim>\<open>os.WriteFile\<close>: truncates or creates in place, so a failure leaves a partial file. The mode only
  applies to a file it creates.
\<close>

definition sys_write_file :: "string \<Rightarrow> string \<Rightarrow> nat \<Rightarrow> world \<Rightarrow> bool \<times> world" where
  "sys_write_file p s mode w =
     (let put = (\<lambda>s w. put_files ((w_files w)(p \<mapsto>
            \<lparr>f_data = s, f_mode = (case w_files w p of None \<Rightarrow> mode | Some x \<Rightarrow> f_mode x),
             f_synced = False\<rparr>)) w) in
      case next_fault w of
        (Fails k, w) \<Rightarrow>
          if slice_contains (w_dirs w) p \<or> \<not> slice_contains (w_dirs w) (path_dir p) then (False, w)
          else (False, put (take k s) w)
      | (Works, w) \<Rightarrow>
          if slice_contains (w_dirs w) p \<or> \<not> slice_contains (w_dirs w) (path_dir p) then (False, w)
          else (True, put s w))"

section \<open>What calls leave alone\<close>

text \<open>
  \<open>within P w w'\<close>: between \<open>w\<close> and \<open>w'\<close> only states satisfying \<open>P\<close> were visible.
\<close>

definition within :: "(files \<Rightarrow> bool) \<Rightarrow> world \<Rightarrow> world \<Rightarrow> bool" where
  "within P w w' \<longleftrightarrow> (\<exists>ms. w_seen w' = ms @ w_seen w \<and> list_all P ms)"

lemma within_refl [intro, simp]: "within P w w"
  by (simp add: within_def)

lemma within_trans [trans]: "within P w w' \<Longrightarrow> within P w' w'' \<Longrightarrow> within P w w''"
  by (auto simp: within_def)

lemma within_mono: "within P w w' \<Longrightarrow> (\<And>m. P m \<Longrightarrow> Q m) \<Longrightarrow> within Q w w'"
  by (auto simp: within_def list_all_iff)

lemma within_put_files [simp]: "within P w (put_files m w) \<longleftrightarrow> P m"
  by (auto simp: within_def put_files_def)

lemma next_fault_frame:
  "next_fault w = (f, w') \<Longrightarrow>
   w_files w' = w_files w \<and> w_dirs w' = w_dirs w \<and> w_durable w' = w_durable w
   \<and> w_seen w' = w_seen w \<and> w_names w' = w_names w"
  by (auto simp: next_fault_def split: list.splits)

lemma path_base_append:
  assumes "slash \<notin> set b" "b \<noteq> []"
  shows "path_base (d @ slash # b) = b"
proof -
  have "rev b \<noteq> []" "\<forall>c\<in>set (rev b). c \<noteq> slash" using assms by auto
  then have "dropWhile (\<lambda>c. c = slash) (rev b @ slash # rev d) = rev b @ slash # rev d"
    by (cases "rev b") auto
  moreover have "takeWhile (\<lambda>c. c \<noteq> slash) (rev b @ slash # rev d) = rev b"
    using assms by (subst takeWhile_append2) auto
  ultimately show ?thesis using assms by (simp add: path_base_def Let_def)
qed

lemma path_base_plain: "slash \<notin> set b \<Longrightarrow> b \<noteq> [] \<Longrightarrow> path_base b = b"
  using takeWhile_eq_all_conv [of "\<lambda>c. c \<noteq> slash" "rev b"] dropWhile_eq_self_iff [of "\<lambda>c. c = slash" "rev b"]
  by (cases "rev b") (auto simp: path_base_def Let_def)

lemma dec_nat_no_slash: "slash \<notin> set (dec_nat n)"
  using dec_nat_digits [of n] by (auto simp: list_all_iff is_digit_def)

lemma path_base_temp:
  assumes "slash \<notin> set base"
  shows "path_base (temp_path dir base r) = base @ dec_nat r"
proof -
  obtain d where d: "temp_path dir base r = d @ slash # base @ dec_nat r"
    by (cases "has_suffix dir ''/''") (auto simp: temp_path_def has_suffix_iff)
  show ?thesis unfolding d using assms
    by (intro path_base_append) (auto simp: dec_nat_no_slash)
qed

end
