(* ===== verification/Path_Laws.thy ===== *)
theory Path_Laws
  imports File_System
begin

text \<open>
  Facts about \<^verbatim>\<open>filepath.Clean\<close> and \<^verbatim>\<open>filepath.Join\<close>: cleaning is idempotent, and joining an ordinary
  element to a directory names an entry of exactly that directory.
\<close>

definition ordinary :: "string \<Rightarrow> bool" where
  "ordinary e \<longleftrightarrow> e \<noteq> [] \<and> e \<noteq> ''.'' \<and> e \<noteq> ''..'' \<and> slash \<notin> set e"

text \<open>A list of elements, innermost first, that cleaning has nothing left to do on.\<close>

fun settled :: "bool \<Rightarrow> string list \<Rightarrow> bool" where
  "settled rooted [] = True"
| "settled rooted (e # es) =
     (settled rooted es \<and> e \<noteq> [] \<and> e \<noteq> ''.''
      \<and> (e = ''..'' \<longrightarrow> \<not> rooted \<and> set es \<subseteq> {''..''}))"

lemma clean_elements_settled:
  "settled rooted out \<Longrightarrow> settled rooted (rev (clean_elements rooted out es))"
  by (induction rooted out es rule: clean_elements.induct) (auto split: list.splits)

lemma settled_append: "settled rooted (xs @ ys) \<Longrightarrow> settled rooted ys"
  by (induction xs) auto

lemma settled_nonempty: "settled rooted es \<Longrightarrow> e \<in> set es \<Longrightarrow> e \<noteq> []"
  by (induction es) auto

lemma clean_elements_id:
  "settled rooted (rev es @ out) \<Longrightarrow> clean_elements rooted out es = rev out @ es"
proof (induction es arbitrary: out)
  case (Cons e es)
  have IH: "clean_elements rooted (e # out) es = rev (e # out) @ es"
    using Cons.IH [of "e # out"] Cons.prems by simp
  have "settled rooted (e # out)"
    using Cons.prems settled_append [of rooted "rev es" "e # out"] by simp
  with IH show ?case by (cases out) auto
qed simp

lemma clean_elements_append:
  "clean_elements rooted out (es @ fs) =
     clean_elements rooted (rev (clean_elements rooted out es)) fs"
proof (induction es arbitrary: out)
  case (Cons e es)
  then show ?case by (cases out) simp_all
qed simp

lemma clean_elements_no_slash:
  "\<forall>e\<in>set out \<union> set es. slash \<notin> set e \<Longrightarrow>
   \<forall>e\<in>set (clean_elements rooted out es). slash \<notin> set e"
  by (induction rooted out es rule: clean_elements.induct) (auto split: list.splits)

definition elements :: "string \<Rightarrow> string list" where
  "elements p = clean_elements (has_prefix p ''/'') [] (split_on slash p)"

definition assemble :: "bool \<Rightarrow> string list \<Rightarrow> string" where
  "assemble rooted es = (if rooted then ''/'' else []) @ join ''/'' es"

lemma path_clean_eq:
  "path_clean p = (let s = assemble (has_prefix p ''/'') (elements p) in if s = [] then ''.'' else s)"
  by (simp add: path_clean_def elements_def assemble_def Let_def)

lemma elements_ok:
  "settled (has_prefix p ''/'') (rev (elements p))" "\<forall>e\<in>set (elements p). e \<noteq> [] \<and> slash \<notin> set e"
proof -
  show s: "settled (has_prefix p ''/'') (rev (elements p))"
    unfolding elements_def by (rule clean_elements_settled) simp
  then have "\<forall>e\<in>set (elements p). e \<noteq> []" using settled_nonempty by fastforce
  moreover have "\<forall>e\<in>set (elements p). slash \<notin> set e"
    unfolding elements_def by (rule clean_elements_no_slash) (auto dest: split_on_no_sep)
  ultimately show "\<forall>e\<in>set (elements p). e \<noteq> [] \<and> slash \<notin> set e" by blast
qed

lemma join_slash_eq_Nil: "\<forall>e\<in>set es. e \<noteq> [] \<Longrightarrow> join ''/'' es = [] \<longleftrightarrow> es = []"
  by (cases es rule: remdups_adj.cases) auto

lemma join_slash_head:
  "es \<noteq> [] \<Longrightarrow> \<forall>e\<in>set es. e \<noteq> [] \<and> slash \<notin> set e \<Longrightarrow> \<not> has_prefix (join ''/'' es) ''/''"
  by (cases es rule: remdups_adj.cases; cases "hd es") auto

text \<open>The elements and the root of an assembled path are those it was assembled from.\<close>

lemma assemble_elements:
  assumes "\<forall>e\<in>set es. e \<noteq> [] \<and> slash \<notin> set e" "settled rooted (rev es)" "es \<noteq> [] \<or> rooted"
  shows "elements (assemble rooted es) = es" "has_prefix (assemble rooted es) ''/'' = rooted"
proof -
  show root: "has_prefix (assemble rooted es) ''/'' = rooted"
    using assms join_slash_head [of es] by (auto simp: assemble_def)
  have id: "clean_elements rooted [] es = es" using clean_elements_id [of rooted es "[]"] assms(2) by simp
  show "elements (assemble rooted es) = es"
  proof (cases "es = []")
    case True
    with assms(3) show ?thesis by (simp add: elements_def assemble_def)
  next
    case False
    then have "split_on slash (join ''/'' es) = es" using assms(1) by (intro split_on_join) auto
    then show ?thesis
      using id root by (cases rooted) (simp_all add: elements_def assemble_def)
  qed
qed

lemma path_clean_assemble:
  assumes "\<forall>e\<in>set es. e \<noteq> [] \<and> slash \<notin> set e" "settled rooted (rev es)" "es \<noteq> [] \<or> rooted"
  shows "path_clean (assemble rooted es) = assemble rooted es"
proof -
  have "assemble rooted es \<noteq> []"
    using assms join_slash_eq_Nil [of es] by (auto simp: assemble_def)
  then show ?thesis
    by (simp add: path_clean_eq [of "assemble rooted es"] assemble_elements [OF assms])
qed

lemma path_clean_idem [simp]: "path_clean (path_clean p) = path_clean p"
proof (cases "elements p = [] \<and> \<not> has_prefix p ''/''")
  case True
  then have "path_clean p = ''.''" by (simp add: path_clean_eq assemble_def)
  moreover have "path_clean ''.'' = ''.''" by code_simp
  ultimately show ?thesis by simp
next
  case False
  then have "assemble (has_prefix p ''/'') (elements p) \<noteq> []"
    using elements_ok [of p] join_slash_eq_Nil [of "elements p"] by (auto simp: assemble_def)
  then have "path_clean p = assemble (has_prefix p ''/'') (elements p)" by (simp add: path_clean_eq)
  moreover have "path_clean (assemble (has_prefix p ''/'') (elements p))
      = assemble (has_prefix p ''/'') (elements p)"
    using False elements_ok [of p] by (intro path_clean_assemble) auto
  ultimately show ?thesis by simp
qed

text \<open>Joining an ordinary element.\<close>

lemma ordinary_simps:
  "ordinary e \<Longrightarrow> e \<noteq> []" "ordinary e \<Longrightarrow> e \<noteq> ''.''" "ordinary e \<Longrightarrow> e \<noteq> ''..''"
  "ordinary e \<Longrightarrow> slash \<notin> set e"
  by (simp_all add: ordinary_def)

lemma split_on_snoc: "slash \<notin> set e \<Longrightarrow> split_on slash (d @ slash # e) = split_on slash d @ [e]"
proof (induction d)
  case Nil
  then show ?case by (simp add: split_on_word)
next
  case (Cons c d)
  then show ?case by (cases "split_on slash d") auto
qed

lemma elements_snoc:
  assumes "ordinary e" "dir \<noteq> []"
  shows "elements (dir @ slash # e) = elements dir @ [e]"
    and "has_prefix (dir @ slash # e) ''/'' = has_prefix dir ''/''"
proof -
  show root: "has_prefix (dir @ slash # e) ''/'' = has_prefix dir ''/''"
    using assms(2) by (cases dir) auto
  show "elements (dir @ slash # e) = elements dir @ [e]"
    unfolding elements_def root
    using assms by (simp add: split_on_snoc clean_elements_append ordinary_simps)
qed

lemma path_join_elements:
  assumes "ordinary e" "dir \<noteq> []"
  shows "path_join dir e = assemble (has_prefix dir ''/'') (elements dir @ [e])"
proof -
  have "join ''/'' (elements dir @ [e]) \<noteq> []"
    using join_slash_eq_Nil [of "elements dir @ [e]"] elements_ok(2) [of dir] assms(1)
    by (auto simp: ordinary_simps)
  then show ?thesis
    using assms(2)
    by (simp add: path_join_def path_clean_eq [of "dir @ slash # e"] assemble_def elements_snoc [OF assms])
qed

lemma elements_join:
  assumes "ordinary e" "dir \<noteq> []"
  shows "elements (path_join dir e) = elements dir @ [e]"
    and "has_prefix (path_join dir e) ''/'' = has_prefix dir ''/''"
  using assemble_elements [of "elements dir @ [e]" "has_prefix dir ''/''"] elements_ok [of "dir @ slash # e"]
  by (simp_all only: path_join_elements [OF assms] elements_snoc [OF assms]) simp_all

lemma join_snoc: "es \<noteq> [] \<Longrightarrow> join sep (es @ [e]) = join sep es @ sep @ e"
  by (induction sep es rule: join.induct) auto

lemma path_join_shape:
  assumes "ordinary e" "dir \<noteq> []"
  shows "path_join dir e =
    (if elements dir = [] then (if has_prefix dir ''/'' then ''/'' else []) @ e
     else assemble (has_prefix dir ''/'') (elements dir) @ ''/'' @ e)"
  using assms by (simp add: path_join_elements assemble_def join_snoc)

lemma path_base_join [simp]: "ordinary e \<Longrightarrow> dir \<noteq> [] \<Longrightarrow> path_base (path_join dir e) = e"
  by (simp add: path_join_shape path_base_append path_base_plain ordinary_simps
      path_base_append [of e "[]", simplified])

lemma path_clean_trailing: "p \<noteq> [] \<Longrightarrow> path_clean (p @ ''/'') = path_clean p"
proof -
  assume "p \<noteq> []"
  then have root: "has_prefix (p @ ''/'') ''/'' = has_prefix p ''/''" by (cases p) auto
  have "elements (p @ ''/'') = elements p"
    unfolding elements_def root using split_on_snoc [of "[]" p]
    by (simp add: clean_elements_append)
  with root show ?thesis by (simp add: path_clean_eq)
qed

lemma drop_last_element:
  "slash \<notin> set e \<Longrightarrow> rev (dropWhile (\<lambda>c. c \<noteq> slash) (rev (d @ slash # e))) = d @ ''/''"
  by (simp add: dropWhile_append)

lemma path_dir_plain:
  assumes "slash \<notin> set e"
  shows "path_dir e = ''.''"
proof -
  have "dropWhile (\<lambda>c. c \<noteq> slash) (rev e) = []"
    using assms by (intro dropWhile_eq_Nil_conv [THEN iffD2]) auto
  then have "path_dir e = path_clean []" unfolding path_dir_def by (simp only: rev.simps)
  also have "\<dots> = ''.''" by code_simp
  finally show ?thesis .
qed

lemma path_dir_join [simp]:
  assumes "ordinary e" "dir \<noteq> []"
  shows "path_dir (path_join dir e) = path_clean dir"
proof (cases "elements dir = []")
  case True
  have "path_clean ''/'' = ''/''" by code_simp
  moreover have "path_dir (slash # e) = path_clean ''/''"
    using assms(1) drop_last_element [of e "[]"] by (simp add: path_dir_def ordinary_simps)
  ultimately show ?thesis
    using True assms
    by (simp add: path_join_shape path_dir_plain ordinary_simps path_clean_eq [of dir] assemble_def)
next
  case False
  let ?s = "assemble (has_prefix dir ''/'') (elements dir)"
  have "?s \<noteq> []" using False join_slash_eq_Nil [of "elements dir"] elements_ok(2) [of dir]
    by (auto simp: assemble_def)
  then have "path_clean dir = ?s" by (simp add: path_clean_eq)
  moreover have "path_dir (path_join dir e) = path_clean ?s"
    using assms False drop_last_element [of e ?s] \<open>?s \<noteq> []\<close>
    by (simp add: path_join_shape path_dir_def ordinary_simps path_clean_trailing)
  ultimately show ?thesis by (metis path_clean_idem)
qed

lemma path_join_inject:
  assumes "ordinary e" "ordinary e'" "dir \<noteq> []" "dir' \<noteq> []"
    and "path_join dir e = path_join dir' e'"
  shows "e = e' \<and> path_clean dir = path_clean dir'"
  using path_base_join [OF assms(1,3)] path_base_join [OF assms(2,4)]
    path_dir_join [OF assms(1,3)] path_dir_join [OF assms(2,4)] assms(5) by simp

lemma path_join_clean [simp]:
  assumes "ordinary e" "dir \<noteq> []"
  shows "path_clean (path_join dir e) = path_join dir e"
  using assms by (simp add: path_join_def)

lemma path_join_nonempty [simp]: "ordinary e \<Longrightarrow> dir \<noteq> [] \<Longrightarrow> path_join dir e \<noteq> []"
  by (simp add: path_join_shape ordinary_simps)

lemma path_join_longer:
  assumes "ordinary e" "dir \<noteq> []"
  shows "path_join dir e \<noteq> path_clean dir"
proof (cases "elements dir = []")
  case True
  with assms show ?thesis
    by (auto simp: path_join_shape path_clean_eq assemble_def ordinary_simps split: if_splits)
next
  case False
  then have "assemble (has_prefix dir ''/'') (elements dir) \<noteq> []"
    using join_slash_eq_Nil [of "elements dir"] elements_ok(2) [of dir] by (auto simp: assemble_def)
  then have "length (path_join dir e) = length (path_clean dir) + Suc (length e)"
    using False assms by (simp add: path_join_shape path_clean_eq)
  then show ?thesis by (metis add_Suc_right n_not_Suc_n not_add_less1 lessI less_add_Suc1 nat_neq_iff)
qed

end
