(* ===== verification/Serve_Mux.thy ===== *)
theory Serve_Mux
  imports Http Path_Laws Config_Auth
begin

text \<open>
  What the router uses of \<^verbatim>\<open>net/http\<close>: the method and path patterns of \<^verbatim>\<open>ServeMux\<close>, with its redirects to
  a cleaned path or to a trailing slash, and its 404 and 405 answers; and \<^verbatim>\<open>CrossOriginProtection\<close>.
  A path is matched as it was sent, one segment at a time, each unescaped by itself.
\<close>

section \<open>Patterns\<close>

text \<open>\<^verbatim>\<open>/a/{x}\<close> is a literal and a wildcard, \<^verbatim>\<open>/{$}\<close> the literal \<^verbatim>\<open>/\<close>, and a final slash is \<open>Rest\<close>.\<close>

datatype segment = Lit string | Wild | Rest

record 'h pattern =
  pn_method :: string
  pn_path :: "segment list"
  pn_handler :: 'h

definition path_unescape :: "string \<Rightarrow> string" where
  "path_unescape s = (case percent_decode False s of None \<Rightarrow> s | Some t \<Rightarrow> t)"

text \<open>
  \<^verbatim>\<open>URL.Path\<close>, of which the path that was sent is the encoding. A path that does not decode is refused
  when the request is parsed, before any handler sees it.
\<close>

definition url_path :: "request \<Rightarrow> string" where
  "url_path r = (case percent_decode False (rq_path r) of None \<Rightarrow> [] | Some u \<Rightarrow> u)"

text \<open>The segments of a path, each after its slash; a last slash on its own is a segment \<^verbatim>\<open>/\<close>.\<close>

function path_segments :: "string \<Rightarrow> string list" where
  "path_segments [] = []"
| "path_segments (c # cs) =
     (if cs = [] then [''/'']
      else path_unescape (takeWhile (\<lambda>d. d \<noteq> slash) cs) # path_segments (dropWhile (\<lambda>d. d \<noteq> slash) cs))"
  by pat_completeness auto

termination
  by (relation "measure length") (auto simp: le_imp_less_Suc length_dropWhile_le)

text \<open>
  The routing tree: the patterns still possible, as what is left of each. A literal is tried before
  a wildcard and that before the rest of the path, and a wildcard does not match a lone slash.
\<close>

definition after_literal :: "string \<Rightarrow> (segment list \<times> 'h) list \<Rightarrow> (segment list \<times> 'h) list" where
  "after_literal s ps =
     concat (map (\<lambda>(q, h). case q of Lit l # q' \<Rightarrow> if l = s then [(q', h)] else [] | _ \<Rightarrow> []) ps)"

definition after_wildcard :: "(segment list \<times> 'h) list \<Rightarrow> (segment list \<times> 'h) list" where
  "after_wildcard ps = concat (map (\<lambda>(q, h). case q of Wild # q' \<Rightarrow> [(q', h)] | _ \<Rightarrow> []) ps)"

definition ending :: "segment list \<Rightarrow> (segment list \<times> 'h) list \<Rightarrow> 'h option" where
  "ending q ps = map_option snd (find (\<lambda>(q', _). q' = q) ps)"

fun match_path :: "(segment list \<times> 'h) list \<Rightarrow> string list \<Rightarrow> string list \<Rightarrow> ('h \<times> string list) option" where
  "match_path ps [] ms = map_option (\<lambda>h. (h, ms)) (ending [] ps)"
| "match_path ps (s # ss) ms =
     (case match_path (after_literal s ps) ss ms of
        Some m \<Rightarrow> Some m
      | None \<Rightarrow>
          (case (if s \<noteq> ''/'' then match_path (after_wildcard ps) ss (ms @ [s]) else None) of
             Some m \<Rightarrow> Some m
           | None \<Rightarrow> map_option (\<lambda>h. (h, ms)) (ending [Rest] ps)))"

definition of_method :: "string \<Rightarrow> 'h pattern list \<Rightarrow> (segment list \<times> 'h pattern) list" where
  "of_method m ps = map (\<lambda>p. (pn_path p, p)) (filter (\<lambda>p. pn_method p = m) ps)"

text \<open>A pattern for GET also serves HEAD. No pattern here leaves the method open.\<close>

definition mux_match :: "'h pattern list \<Rightarrow> string \<Rightarrow> string \<Rightarrow> ('h pattern \<times> string list) option" where
  "mux_match ps meth path =
     (case match_path (of_method meth ps) (path_segments path) [] of
        Some m \<Rightarrow> Some m
      | None \<Rightarrow>
          if meth = ''HEAD'' then match_path (of_method ''GET'' ps) (path_segments path) [] else None)"

section \<open>Redirects\<close>

text \<open>\<^verbatim>\<open>cleanPath\<close>: rooted, cleaned, with its trailing slash if it had one.\<close>

definition clean_url_path :: "string \<Rightarrow> string" where
  "clean_url_path p =
     (if p = [] then ''/''
      else
        let p = (if hd p \<noteq> slash then slash # p else p); np = path_clean p in
        if last p = slash \<and> np \<noteq> ''/'' then np @ ''/'' else np)"

text \<open>Whether a match is more than the beginning of the path.\<close>

fun exact_match :: "('h pattern \<times> string list) option \<Rightarrow> string \<Rightarrow> bool" where
  "exact_match None path = False"
| "exact_match (Some (p, _)) path =
     (path \<noteq> [] \<and> last path \<noteq> slash \<or> length (pn_path p) = count_list path slash)"

text \<open>\<^verbatim>\<open>URL.String\<close> of a path and a query.\<close>

definition path_escape :: "string \<Rightarrow> string" where
  "path_escape s =
     concat (map (\<lambda>c. if unreserved c \<or> c \<in> set ''$&+,/:;=@'' then [c]
                      else [CHR ''%'', hex_digit (byte c div 16), hex_digit (byte c mod 16)]) s)"

definition local_url :: "string \<Rightarrow> string \<Rightarrow> string" where
  "local_url path query = path_escape path @ (if query = [] then [] else ''?'' @ query)"

definition slash_redirect :: "'h pattern list \<Rightarrow> string \<Rightarrow> string \<Rightarrow> request \<Rightarrow> string option" where
  "slash_redirect ps meth path r =
     (if \<not> exact_match (mux_match ps meth path) path \<and> \<not> has_suffix path ''/''
         \<and> exact_match (mux_match ps meth (path @ ''/'')) (path @ ''/'')
      then Some (local_url (clean_url_path (url_path r) @ ''/'') (rq_raw_query r))
      else None)"

section \<open>Finding the handler\<close>

datatype 'h found =
    Dispatch 'h "string list"
  | RedirectTo string
  | NotAllowed "string list"
  | NotFound
  | BadRequest

definition allowed_methods :: "'h pattern list \<Rightarrow> string \<Rightarrow> string list" where
  "allowed_methods ps path =
     (let paths = path # (if has_suffix path ''/'' then [] else [path @ ''/'']);
          ms = filter (\<lambda>m. list_ex (\<lambda>q. match_path (of_method m ps) (path_segments q) [] \<noteq> None) paths)
                 (map pn_method ps)
      in sort (remdups (ms @ (if slice_contains ms ''GET'' then [''HEAD''] else []))))"

definition find_handler :: "'h pattern list \<Rightarrow> request \<Rightarrow> 'h found" where
  "find_handler ps r =
     (let path = (if rq_method r = ''CONNECT'' then rq_path r else clean_url_path (rq_path r)) in
      if request_uri r = ''*'' then BadRequest
      else case slash_redirect ps (rq_method r) path r of
        Some u \<Rightarrow> RedirectTo u
      | None \<Rightarrow>
          if path \<noteq> rq_path r then RedirectTo (local_url path (rq_raw_query r))
          else case mux_match ps (rq_method r) path of
            Some (p, ms) \<Rightarrow> Dispatch (pn_handler p) ms
          | None \<Rightarrow>
              (let ms = allowed_methods ps path in if ms \<noteq> [] then NotAllowed ms else NotFound))"

section \<open>Requests from other origins\<close>

definition safe_method :: "string \<Rightarrow> bool" where
  "safe_method m \<longleftrightarrow> m = ''GET'' \<or> m = ''HEAD'' \<or> m = ''OPTIONS''"

definition cross_origin_check :: "go_env \<Rightarrow> request \<Rightarrow> string option" where
  "cross_origin_check env r =
     (let site = header_get r ''Sec-Fetch-Site''; origin = header_get r ''Origin'' in
      if safe_method (rq_method r) then None
      else if site = ''same-origin'' \<or> site = ''none'' then None
      else if site \<noteq> [] then Some ''cross-origin request detected from Sec-Fetch-Site header''
      else if origin = [] then None
      else if (case parse_url env origin of None \<Rightarrow> False | Some u \<Rightarrow> u_host u = rq_host r) then None
      else Some (''cross-origin request detected, and/or browser is out of date: ''
                 @ ''Sec-Fetch-Site is missing, and Origin does not match Host''))"

section \<open>What a match means\<close>

fun fits :: "segment list \<Rightarrow> string list \<Rightarrow> string list option" where
  "fits [] [] = Some []"
| "fits [Rest] (s # ss) = Some []"
| "fits (Lit l # q) (s # ss) = (if l = s then fits q ss else None)"
| "fits (Wild # q) (s # ss) = (if s \<noteq> ''/'' then map_option ((#) s) (fits q ss) else None)"
| "fits _ _ = None"

lemma ending_Some: "ending q ps = Some h \<Longrightarrow> (q, h) \<in> set ps"
  by (auto simp: ending_def find_Some_iff) (metis nth_mem)

lemma ending_None: "ending q ps = None \<longleftrightarrow> (\<forall>h. (q, h) \<notin> set ps)"
  by (auto simp: ending_def find_None_iff)

lemma after_literal_iff: "(q, h) \<in> set (after_literal s ps) \<longleftrightarrow> (Lit s # q, h) \<in> set ps"
  by (fastforce simp: after_literal_def split: list.splits segment.splits if_splits)

lemma after_wildcard_iff: "(q, h) \<in> set (after_wildcard ps) \<longleftrightarrow> (Wild # q, h) \<in> set ps"
  by (fastforce simp: after_wildcard_def split: list.splits segment.splits if_splits)

text \<open>The tree finds a pattern that fits, and finds one whenever there is one.\<close>

lemma match_path_sound:
  "match_path ps ss ms = Some (h, out) \<Longrightarrow> \<exists>q c. (q, h) \<in> set ps \<and> fits q ss = Some c \<and> out = ms @ c"
proof (induction ps ss ms rule: match_path.induct)
  case (1 ps ms)
  then show ?case by (fastforce dest: ending_Some)
next
  case (2 ps s ss ms)
  consider "match_path (after_literal s ps) ss ms = Some (h, out)"
    | "s \<noteq> ''/''" "match_path (after_literal s ps) ss ms = None" "match_path (after_wildcard ps) ss (ms @ [s]) = Some (h, out)"
    | "ending [Rest] ps = Some h" "out = ms"
    using "2.prems" by (auto split: option.splits if_splits)
  then show ?case
  proof cases
    case 1
    from "2.IH"(1) [OF this] obtain q c where "(Lit s # q, h) \<in> set ps" "fits q ss = Some c" "out = ms @ c"
      by (auto simp: after_literal_iff)
    then show ?thesis by (intro exI [of _ "Lit s # q"] exI [of _ c]) simp
  next
    case 2
    from "2.IH"(2) [OF 2(2,1,3)] obtain q c where "(Wild # q, h) \<in> set ps" "fits q ss = Some c" "out = ms @ s # c"
      by (auto simp: after_wildcard_iff)
    with 2(1) show ?thesis by (intro exI [of _ "Wild # q"] exI [of _ "s # c"]) simp
  next
    case 3
    then show ?thesis by (intro exI [of _ "[Rest]"] exI [of _ "[]"]) (simp add: ending_Some)
  qed
qed

lemma match_path_complete:
  "(q, h) \<in> set ps \<Longrightarrow> fits q ss = Some c \<Longrightarrow> match_path ps ss ms \<noteq> None"
proof (induction ps ss ms arbitrary: q c rule: match_path.induct)
  case (1 ps ms)
  then show ?case by (cases "(q, [] :: string list)" rule: fits.cases) (auto simp: ending_None)
next
  case (2 ps s ss ms)
  show ?case
  proof (cases "(q, s # ss)" rule: fits.cases)
    case (3 l q' s' ss')
    then have "(q', h) \<in> set (after_literal s ps)" "fits q' ss = Some c"
      using "2.prems" by (auto simp: after_literal_iff split: if_splits)
    from "2.IH"(1) [OF this] show ?thesis by (auto split: option.splits)
  next
    case (4 q' s' ss')
    then obtain c' where f: "s \<noteq> ''/''" "(q', h) \<in> set (after_wildcard ps)" "fits q' ss = Some c'"
      using "2.prems" by (auto simp: after_wildcard_iff split: if_splits)
    from "2.IH"(2) [OF _ f] show ?thesis using f(1) by (auto split: option.splits)
  next
    case (2 s' ss')
    then have "ending [Rest] ps \<noteq> None" using "2.prems" by (auto simp: ending_None simp del: not_None_eq)
    then show ?thesis by (auto split: option.splits)
  qed (use "2.prems" in auto)
qed

section \<open>Dispatching\<close>

lemma mux_match_Some:
  assumes "mux_match ps meth path = Some (p, ms)"
  shows "p \<in> set ps \<and> (meth = pn_method p \<or> meth = ''HEAD'' \<and> pn_method p = ''GET'')
    \<and> fits (pn_path p) (path_segments path) = Some ms"
proof -
  have "p \<in> set ps \<and> pn_method p = m \<and> fits (pn_path p) (path_segments path) = Some ms"
    if "match_path (of_method m ps) (path_segments path) [] = Some (p, ms)" for m
    using match_path_sound [OF that] by (auto simp: of_method_def)
  with assms show ?thesis by (auto simp: mux_match_def split: option.splits if_splits)
qed

lemma clean_url_path_rooted: "\<exists>cs. clean_url_path p = slash # cs"
proof -
  have "\<exists>cs. path_clean (slash # q) = slash # cs" for q
    by (simp add: path_clean_eq [of "slash # q"] assemble_def)
  moreover have "\<exists>q. p = slash # q" if "p \<noteq> []" "hd p = slash" using that by (cases p) auto
  ultimately show ?thesis unfolding clean_url_path_def Let_def
    by (cases "p = []"; cases "hd p = slash") (auto, (metis append_Cons)+)
qed

lemma dispatch_pattern:
  assumes "find_handler ps r = Dispatch h ms" "\<forall>p\<in>set ps. pn_method p \<noteq> ''CONNECT''"
  shows "\<exists>p cs. p \<in> set ps \<and> pn_handler p = h
    \<and> (rq_method r = pn_method p \<or> rq_method r = ''HEAD'' \<and> pn_method p = ''GET'')
    \<and> fits (pn_path p) (path_segments (rq_path r)) = Some ms \<and> rq_path r = slash # cs"
proof -
  let ?path = "if rq_method r = ''CONNECT'' then rq_path r else clean_url_path (rq_path r)"
  have p: "?path = rq_path r" "\<exists>p. mux_match ps (rq_method r) (rq_path r) = Some (p, ms) \<and> pn_handler p = h"
    using assms(1) by (auto simp: find_handler_def Let_def split: if_splits option.splits prod.splits)
  then obtain p where m: "mux_match ps (rq_method r) (rq_path r) = Some (p, ms)" "pn_handler p = h" by blast
  note f = mux_match_Some [OF m(1)]
  then have "rq_method r \<noteq> ''CONNECT''" using assms(2) by auto
  with p(1) have "clean_url_path (rq_path r) = rq_path r" by simp
  with clean_url_path_rooted [of "rq_path r"] f m(2) show ?thesis by auto
qed

text \<open>What the decoded path starts with, from the first segment of the path that was sent.\<close>

lemma percent_decode_append:
  "percent_decode False (a @ slash # b) =
     (case percent_decode False a of None \<Rightarrow> None
      | Some x \<Rightarrow> map_option (\<lambda>y. x @ slash # y) (percent_decode False b))"
proof (induction "False" a rule: percent_decode.induct)
  case (2 c s)
  have h: "hex_value slash = None" by code_simp
  show ?case
  proof (cases "c = CHR ''%''")
    case True
    consider "s = []" | d where "s = [d]" | d e s' where "s = d # e # s'"
      by (cases s rule: remdups_adj.cases) auto
    then show ?thesis using True 2
      by cases (auto simp: h option.map_comp comp_def split: option.splits list.splits)
  qed (use 2 in \<open>auto simp: option.map_comp comp_def split: option.splits\<close>)
qed simp

lemma url_path_first:
  assumes "rq_path r = slash # cs" "path_segments (rq_path r) = d # ds"
  shows "url_path r = [] \<or> url_path r = ''/'' \<and> d = ''/''
    \<or> (\<exists>y. url_path r = slash # d @ y \<and> (y = [] \<or> hd y = slash))"
proof (cases "percent_decode False (rq_path r)")
  case None
  then show ?thesis by (simp add: url_path_def)
next
  case (Some u)
  then obtain v where v: "percent_decode False cs = Some v" "u = slash # v" using assms(1) by auto
  let ?s = "takeWhile (\<lambda>c. c \<noteq> slash) cs"
  show ?thesis
  proof (cases "cs = []")
    case True
    then show ?thesis using assms Some v by (simp add: url_path_def)
  next
    case False
    then have d: "d = path_unescape ?s" using assms by auto
    have "\<exists>y. v = d @ y \<and> (y = [] \<or> hd y = slash)"
    proof (cases "dropWhile (\<lambda>c. c \<noteq> slash) cs")
      case Nil
      then have "?s = cs" by (metis append.right_neutral takeWhile_dropWhile_id)
      with d v show ?thesis by (simp add: path_unescape_def)
    next
      case (Cons c rest)
      then have "c = slash" using hd_dropWhile [of "\<lambda>c. c \<noteq> slash" cs] by simp
      with Cons have "cs = ?s @ slash # rest" by (metis takeWhile_dropWhile_id)
      with v(1) percent_decode_append [of ?s rest] obtain x y where "percent_decode False ?s = Some x" "v = x @ slash # y"
        by (cases "percent_decode False rest") (auto split: option.splits)
      with d show ?thesis by (simp add: path_unescape_def)
    qed
    with Some v(2) show ?thesis by (auto simp: url_path_def)
  qed
qed

end
