(* ===== verification/Wire.thy ===== *)
theory Wire
  imports Go_Net
begin

text \<open>
  The SSH wire format: big-endian integers and length-prefixed strings, as \<^verbatim>\<open>encoding/binary\<close> writes
  them, with the reader that recovers them. The interface between the two is \<open>wire_codec\<close>.
\<close>

section \<open>Big-endian integers\<close>

fun be_nat :: "nat \<Rightarrow> nat \<Rightarrow> string" where
  "be_nat 0 x = []"
| "be_nat (Suc n) x = be_nat n (x div 256) @ [char_of (x mod 256)]"

definition read_be :: "string \<Rightarrow> nat" where
  "read_be s = foldl (\<lambda>a c. 256 * a + byte c) 0 s"

text \<open>\<^verbatim>\<open>binary.Write(w, binary.BigEndian, x)\<close> for a \<^verbatim>\<open>uint32\<close> and a \<^verbatim>\<open>uint64\<close>.\<close>

definition put_u32 :: "32 word \<Rightarrow> string" where "put_u32 w = be_nat 4 (unat w)"
definition put_u64 :: "64 word \<Rightarrow> string" where "put_u64 w = be_nat 8 (unat w)"

lemma length_be_nat [simp]: "length (be_nat n x) = n"
  by (induction n arbitrary: x) simp_all

lemma read_be_snoc [simp]: "read_be (s @ [c]) = 256 * read_be s + byte c"
  by (simp add: read_be_def)

lemma read_be_Nil [simp]: "read_be [] = 0"
  by (simp add: read_be_def)

lemma read_be_nat: "x < 256 ^ n \<Longrightarrow> read_be (be_nat n x) = x"
  by (induction n arbitrary: x) (simp_all add: less_mult_imp_div_less mult.commute)

section \<open>Reading\<close>

definition take_bytes :: "nat \<Rightarrow> string \<Rightarrow> (string \<times> string) option" where
  "take_bytes n s = (if n \<le> length s then Some (take n s, drop n s) else None)"

definition get_u32 :: "string \<Rightarrow> (32 word \<times> string) option" where
  "get_u32 s = map_option (\<lambda>(b, r). (of_nat (read_be b), r)) (take_bytes 4 s)"

definition get_u64 :: "string \<Rightarrow> (64 word \<times> string) option" where
  "get_u64 s = map_option (\<lambda>(b, r). (of_nat (read_be b), r)) (take_bytes 8 s)"

text \<open>An SSH string: its length as a \<^verbatim>\<open>uint32\<close>, which wraps, then its bytes.\<close>

definition write_string :: "string \<Rightarrow> string" where
  "write_string data = put_u32 (of_nat (length data)) @ data"

definition read_string :: "string \<Rightarrow> (string \<times> string) option" where
  "read_string s = Option.bind (get_u32 s) (\<lambda>(n, r). take_bytes (unat n) r)"

fun read_all :: "(string \<Rightarrow> ('a \<times> string) option) \<Rightarrow> nat \<Rightarrow> string \<Rightarrow> 'a list option" where
  "read_all dec fuel [] = Some []"
| "read_all dec 0 (c # s) = None"
| "read_all dec (Suc fuel) (c # s) =
     (case dec (c # s) of
        None \<Rightarrow> None
      | Some (x, rest) \<Rightarrow> map_option (Cons x) (read_all dec fuel rest))"

section \<open>Codecs\<close>

locale wire_codec =
  fixes enc :: "'a \<Rightarrow> string"
    and dec :: "string \<Rightarrow> ('a \<times> string) option"
    and ok :: "'a \<Rightarrow> bool"
  assumes dec_enc: "ok x \<Longrightarrow> dec (enc x @ rest) = Some (x, rest)"
    and enc_nonempty: "ok x \<Longrightarrow> enc x \<noteq> []"
begin

text \<open>One unit of fuel per item is enough.\<close>

lemma read_all_concat:
  "\<forall>x\<in>set xs. ok x \<Longrightarrow> length xs \<le> fuel \<Longrightarrow> read_all dec fuel (concat (map enc xs)) = Some xs"
proof (induction xs arbitrary: fuel)
  case (Cons x xs)
  obtain f where f: "fuel = Suc f" using Cons.prems(2) by (cases fuel) auto
  obtain c s where c: "enc x = c # s" using enc_nonempty [of x] Cons.prems(1) by (cases "enc x") auto
  have "dec (c # s @ concat (map enc xs)) = Some (x, concat (map enc xs))"
    using dec_enc [of x] Cons.prems(1) c by simp
  with Cons f c show ?case by simp
qed simp

lemma length_concat_enc: "\<forall>x\<in>set xs. ok x \<Longrightarrow> length xs \<le> length (concat (map enc xs))"
proof (induction xs)
  case (Cons x xs)
  have "0 < length (enc x)" using Cons.prems enc_nonempty by simp
  then have "Suc 0 \<le> length (enc x)" by linarith
  moreover have "length xs \<le> length (concat (map enc xs))" using Cons by simp
  ultimately show ?case by simp
qed simp

lemma read_all_bytes:
  "\<forall>x\<in>set xs. ok x \<Longrightarrow> read_all dec (length (concat (map enc xs))) (concat (map enc xs)) = Some xs"
  using read_all_concat [OF _ length_concat_enc] by blast

lemma enc_inject: "ok x \<Longrightarrow> ok y \<Longrightarrow> enc x @ r = enc y @ r' \<longleftrightarrow> x = y \<and> r = r'"
proof -
  assume "ok x" "ok y"
  then have "dec (enc x @ r) = Some (x, r)" "dec (enc y @ r') = Some (y, r')" using dec_enc by auto
  then show ?thesis by (metis Pair_inject option.inject)
qed

end

lemma take_bytes_append [simp]: "length a = n \<Longrightarrow> take_bytes n (a @ rest) = Some (a, rest)"
  by (simp add: take_bytes_def)

interpretation u32: wire_codec put_u32 get_u32 "\<lambda>_. True"
proof
  fix x :: "32 word" and rest
  have "unat x < 256 ^ 4" using unsigned_less [of x] by simp
  then show "get_u32 (put_u32 x @ rest) = Some (x, rest)"
    by (simp add: get_u32_def put_u32_def read_be_nat)
  have "length (put_u32 x) = 4" by (simp only: put_u32_def length_be_nat)
  then show "put_u32 x \<noteq> []" by force
qed

interpretation u64: wire_codec put_u64 get_u64 "\<lambda>_. True"
proof
  fix x :: "64 word" and rest
  have "unat x < 256 ^ 8" using unsigned_less [of x] by simp
  then show "get_u64 (put_u64 x @ rest) = Some (x, rest)"
    by (simp add: get_u64_def put_u64_def read_be_nat)
  have "length (put_u64 x) = 8" by (simp only: put_u64_def length_be_nat)
  then show "put_u64 x \<noteq> []" by force
qed

interpretation wstring: wire_codec write_string read_string "\<lambda>s. length s < 2 ^ 32"
proof
  fix s rest :: string
  assume "length s < 2 ^ 32"
  then have "unat (of_nat (length s) :: 32 word) = length s"
    by (simp add: unat_of_nat take_bit_nat_eq_self)
  then show "read_string (write_string s @ rest) = Some (s, rest)"
    using u32.dec_enc [of "of_nat (length s)" "s @ rest"]
    by (simp add: read_string_def write_string_def)
  show "write_string s \<noteq> []" using u32.enc_nonempty by (simp add: write_string_def)
qed

lemma length_put [simp]: "length (put_u32 w) = 4" "length (put_u64 v) = 8"
  by (simp_all add: put_u32_def put_u64_def)

lemma length_write_string [simp]: "length (write_string s) = 4 + length s"
  by (simp add: write_string_def)

end
