(* ===== verification/Auth_Session.thy ===== *)
theory Auth_Session
  imports Http Base64 Wire
begin

text \<open>
  \<^verbatim>\<open>internal/authsession/authsession.go\<close>: sessions carried in an encrypted cookie. AES-GCM and JSON are
  the standard library's: the record \<open>aead\<close> is the cipher a key gives, \<open>session_json\<close> the encoding
  of a session. What the code relies on of the cipher is the predicate \<open>aead_ok\<close>.
\<close>

section \<open>The cipher\<close>

record aead =
  ae_nonce_size :: nat
  ae_seal :: "string \<Rightarrow> string \<Rightarrow> string \<Rightarrow> string"
  ae_open :: "string \<Rightarrow> string \<Rightarrow> string \<Rightarrow> string option"

text \<open>
  \<open>ae_seal nonce plaintext data\<close> and \<open>ae_open nonce ciphertext data\<close>. Opening reverses sealing; what
  opens is what sealing the same plaintext gives; and, the guarantee of additional data, nothing
  sealed with one opens with another.
\<close>

definition aead_ok :: "aead \<Rightarrow> bool" where
  "aead_ok A \<longleftrightarrow>
     (\<forall>n p d. length n = ae_nonce_size A \<longrightarrow> ae_open A n (ae_seal A n p d) d = Some p)
   \<and> (\<forall>n c d p. ae_open A n c d = Some p \<longrightarrow> c = ae_seal A n p d)
   \<and> (\<forall>n p d p' d'. ae_seal A n p d = ae_seal A n p' d' \<longrightarrow> d = d')"

section \<open>Sessions\<close>

record user =
  us_username :: string
  us_fullname :: string
  us_roles :: "string list"
  us_expires :: instant

record session_json =
  sj_marshal :: "user \<Rightarrow> string option"
  sj_unmarshal :: "string \<Rightarrow> user option"

record codec =
  cd_aead :: aead
  cd_secure :: bool

datatype session_error =
    KeyLength nat
  | NoCipher
  | NoNonce
  | CookieTooLarge nat
  | CannotEncode
  | NoSession
  | InvalidSession
  | NoRandomKey

definition cookie_name :: string where "cookie_name = ''__Host-gruff''"
definition insecure_cookie_name :: string where "insecure_cookie_name = ''gruff''"
definition max_cookie_size :: nat where "max_cookie_size = 3800"
definition session_purpose :: string where "session_purpose = ''gruff/session/v1''"
definition flow_purpose :: string where "flow_purpose = ''gruff/flow/v1''"

definition codec_name :: "codec \<Rightarrow> string" where
  "codec_name c = (if cd_secure c then cookie_name else insecure_cookie_name)"

definition user_expired :: "user \<Rightarrow> instant \<Rightarrow> bool" where
  "user_expired u now = (us_expires u < now)"

text \<open>\<open>aes_gcm\<close> stands for \<^verbatim>\<open>aes.NewCipher\<close> and \<^verbatim>\<open>cipher.NewGCM\<close>.\<close>

definition new_codec :: "(string \<Rightarrow> aead option) \<Rightarrow> string \<Rightarrow> bool \<Rightarrow> session_error + codec" where
  "new_codec aes_gcm key secure =
     (if length key \<noteq> 32 then Inl (KeyLength (length key))
      else case aes_gcm key of
             None \<Rightarrow> Inl NoCipher
           | Some a \<Rightarrow> Inr \<lparr>cd_aead = a, cd_secure = secure\<rparr>)"

definition generate_key :: "string \<Rightarrow> session_error + (string \<times> string)" where
  "generate_key rng = (case take_bytes 32 rng of None \<Rightarrow> Inl NoRandomKey | Some r \<Rightarrow> Inr r)"

section \<open>Sealing and opening\<close>

definition seal_raw :: "codec \<Rightarrow> string \<Rightarrow> string \<Rightarrow> string \<Rightarrow> session_error + (string \<times> string)" where
  "seal_raw c purpose plaintext rng =
     (case take_bytes (ae_nonce_size (cd_aead c)) rng of
        None \<Rightarrow> Inl NoNonce
      | Some (nonce, rng) \<Rightarrow>
          (let sealed = nonce @ ae_seal (cd_aead c) nonce plaintext purpose;
               value = b64_encode url_alphabet False sealed
           in if max_cookie_size < length value then Inl (CookieTooLarge (length value))
              else Inr (value, rng)))"

definition open_raw :: "codec \<Rightarrow> string \<Rightarrow> string \<Rightarrow> session_error + string" where
  "open_raw c purpose value =
     (let size = ae_nonce_size (cd_aead c) in
      case b64_decode url_alphabet False True value of
        None \<Rightarrow> Inl InvalidSession
      | Some sealed \<Rightarrow>
          if length sealed < size then Inl InvalidSession
          else case ae_open (cd_aead c) (take size sealed) (drop size sealed) purpose of
                 None \<Rightarrow> Inl InvalidSession
               | Some plaintext \<Rightarrow> Inr plaintext)"

definition seal :: "session_json \<Rightarrow> codec \<Rightarrow> user \<Rightarrow> instant \<Rightarrow> string \<Rightarrow> session_error + (cookie \<times> string)" where
  "seal js c u now rng =
     (case sj_marshal js u of
        None \<Rightarrow> Inl CannotEncode
      | Some plaintext \<Rightarrow>
          and_then (seal_raw c session_purpose plaintext rng) (\<lambda>(value, rng).
          Inr (\<lparr>ck_name = codec_name c, ck_value = value, ck_path = ''/'',
                ck_expires = Some (us_expires u),
                ck_max_age = trunc_int (dur_seconds (time_sub (us_expires u) now)),
                ck_http_only = True, ck_secure = cd_secure c, ck_same_site = SameSiteLax\<rparr>, rng)))"

definition open_session :: "session_json \<Rightarrow> codec \<Rightarrow> request \<Rightarrow> instant \<Rightarrow> session_error + user" where
  "open_session js c r now =
     (case request_cookie r (codec_name c) of
        None \<Rightarrow> Inl NoSession
      | Some value \<Rightarrow>
          (case open_raw c session_purpose value of
             Inl e \<Rightarrow> Inl InvalidSession
           | Inr plaintext \<Rightarrow>
               (case sj_unmarshal js plaintext of
                  None \<Rightarrow> Inl InvalidSession
                | Some u \<Rightarrow> if user_expired u now then Inl InvalidSession else Inr u)))"

definition clear_session :: "codec \<Rightarrow> cookie" where
  "clear_session c =
     \<lparr>ck_name = codec_name c, ck_value = [], ck_path = ''/'', ck_expires = None, ck_max_age = -1,
      ck_http_only = True, ck_secure = cd_secure c, ck_same_site = SameSiteLax\<rparr>"

section \<open>Facts about sealing\<close>

lemma take_bytes_Some: "take_bytes n s = Some (a, r) \<longleftrightarrow> s = a @ r \<and> length a = n"
  by (auto simp: take_bytes_def)

lemma seal_raw_Inr:
  "seal_raw c purpose plaintext rng = Inr (value, rng') \<Longrightarrow>
   \<exists>nonce. length nonce = ae_nonce_size (cd_aead c) \<and> rng = nonce @ rng'
     \<and> value = b64_encode url_alphabet False (nonce @ ae_seal (cd_aead c) nonce plaintext purpose)
     \<and> length value \<le> max_cookie_size"
  by (auto simp: seal_raw_def Let_def take_bytes_Some split: option.splits if_splits)

lemma open_raw_encoded:
  assumes "length nonce = ae_nonce_size (cd_aead c)"
  shows "open_raw c purpose (b64_encode url_alphabet False (nonce @ ct))
    = (case ae_open (cd_aead c) nonce ct purpose of None \<Rightarrow> Inl InvalidSession | Some p \<Rightarrow> Inr p)"
  using assms by (simp add: open_raw_def url64.decode_encode)

lemma open_raw_Inr:
  assumes "open_raw c purpose value = Inr p" "aead_ok (cd_aead c)"
  shows "\<exists>nonce. length nonce = ae_nonce_size (cd_aead c)
    \<and> skip_newlines value = b64_encode url_alphabet False (nonce @ ae_seal (cd_aead c) nonce p purpose)"
proof -
  let ?n = "ae_nonce_size (cd_aead c)"
  obtain sealed where s: "b64_decode url_alphabet False True value = Some sealed" "?n \<le> length sealed"
      "ae_open (cd_aead c) (take ?n sealed) (drop ?n sealed) purpose = Some p"
    using assms(1) by (auto simp: open_raw_def Let_def split: option.splits if_splits)
  then have "drop ?n sealed = ae_seal (cd_aead c) (take ?n sealed) p purpose"
    using assms(2) by (auto simp: aead_ok_def)
  then have "sealed = take ?n sealed @ ae_seal (cd_aead c) (take ?n sealed) p purpose"
    by (metis append_take_drop_id)
  then show ?thesis
    using url64.strict_canonical [OF s(1)] s(2) by (intro exI [of _ "take ?n sealed"]) simp
qed

lemma skip_newlines_cookie: "list_all cookie_byte v \<Longrightarrow> skip_newlines v = v"
  unfolding skip_newlines_def list_all_iff by (rule filter_True) (force simp: cookie_byte_def)

lemma seal_raw_opens:
  assumes "seal_raw c purpose plaintext rng = Inr (value, rng')" "aead_ok (cd_aead c)"
  shows "open_raw c q value = (if q = purpose then Inr plaintext else Inl InvalidSession)"
proof -
  obtain nonce where n: "length nonce = ae_nonce_size (cd_aead c)"
      "value = b64_encode url_alphabet False (nonce @ ae_seal (cd_aead c) nonce plaintext purpose)"
    using seal_raw_Inr [OF assms(1)] by blast
  let ?A = "cd_aead c" and ?ct = "ae_seal (cd_aead c) nonce plaintext purpose"
  have "ae_open ?A nonce ?ct purpose = Some plaintext"
    using assms(2) n(1) by (simp add: aead_ok_def)
  moreover have "q = purpose" if "ae_open ?A nonce ?ct q = Some p" for p
  proof -
    have "?ct = ae_seal ?A nonce p q" using assms(2) that unfolding aead_ok_def by blast
    then show ?thesis using assms(2) unfolding aead_ok_def by metis
  qed
  ultimately have "ae_open ?A nonce ?ct q = (if q = purpose then Some plaintext else None)"
    by (cases "ae_open ?A nonce ?ct q") auto
  then show ?thesis using open_raw_encoded [OF n(1)] by (simp add: n(2))
qed

lemma purposes_differ: "flow_purpose \<noteq> session_purpose"
  by (simp add: flow_purpose_def session_purpose_def)

section \<open>Properties\<close>

text \<open>
  C2. What is sealed for one purpose opens for that purpose, giving back exactly the plaintext, and
  for no other: the cookie of a login in progress, which any visitor is handed with a value of
  their choosing in it, never opens as a session.
\<close>

theorem sealed_for_one_purpose:
  assumes "seal_raw c purpose plaintext rng = Inr (value, rng')" "aead_ok (cd_aead c)"
  shows "open_raw c q value = (if q = purpose then Inr plaintext else Inl InvalidSession)
    \<and> (purpose = flow_purpose \<longrightarrow> request_cookie r (codec_name c) = Some value \<longrightarrow>
         open_session js c r now = Inl InvalidSession)"
  using seal_raw_opens [OF assms] purposes_differ by (auto simp: open_session_def)

text \<open>
  C9. A value a browser can send opens only if it is, byte for byte, the encoding of something
  sealed under this key for this purpose: a session cookie has one spelling, and none that was not
  sealed here opens at all.
\<close>

theorem opened_was_sealed:
  assumes "open_raw c purpose value = Inr plaintext" "list_all cookie_byte value" "aead_ok (cd_aead c)"
  shows "\<exists>nonce. length nonce = ae_nonce_size (cd_aead c)
    \<and> value = b64_encode url_alphabet False (nonce @ ae_seal (cd_aead c) nonce plaintext purpose)"
  using open_raw_Inr [OF assms(1,3)] unfolding skip_newlines_cookie [OF assms(2)] .

text \<open>What a sealed session opens to, shared by the property below and by the login.\<close>

lemma sealed_session_opens:
  assumes "seal js c u issued rng = Inr (ck, rng')" "aead_ok (cd_aead c)"
    and "\<And>x. sj_marshal js u = Some x \<Longrightarrow> sj_unmarshal js x = Some u"
    and "request_cookie r (ck_name ck) = Some (ck_value ck)"
  shows "open_session js c r now = (if us_expires u < now then Inl InvalidSession else Inr u)
    \<and> ck_http_only ck \<and> ck_path ck = ''/'' \<and> length (ck_value ck) \<le> max_cookie_size
    \<and> (ck_secure ck \<longleftrightarrow> cd_secure c) \<and> (has_prefix (ck_name ck) ''__Host-'' \<longleftrightarrow> cd_secure c)"
proof -
  obtain x where m: "sj_marshal js u = Some x"
    using assms(1) by (cases "sj_marshal js u") (auto simp: seal_def)
  then obtain v rng1 where "seal_raw c session_purpose x rng = Inr (v, rng1)"
    using assms(1) by (cases "seal_raw c session_purpose x rng") (auto simp: seal_def)
  then have x: "sj_marshal js u = Some x" "seal_raw c session_purpose x rng = Inr (ck_value ck, rng')"
      "ck_name ck = codec_name c" "ck_http_only ck" "ck_path ck = ''/''" "ck_secure ck = cd_secure c"
    using assms(1) m by (auto simp: seal_def)
  have "open_raw c session_purpose (ck_value ck) = Inr x"
    using seal_raw_opens [OF x(2) assms(2)] by simp
  moreover have "length (ck_value ck) \<le> max_cookie_size" using seal_raw_Inr [OF x(2)] by blast
  moreover have "has_prefix (codec_name c) ''__Host-'' \<longleftrightarrow> cd_secure c"
    by (simp add: codec_name_def cookie_name_def insecure_cookie_name_def)
  ultimately show ?thesis
    using x assms(3) [OF x(1)] assms(4) by (simp add: open_session_def user_expired_def)
qed

text \<open>
  C10. A session cookie gives back the user it was made for until the expiry that was sealed into it,
  whatever the browser makes of the cookie's own attributes, and nobody after it; it is never
  readable by scripts, and is \<^verbatim>\<open>Secure\<close> with the \<^verbatim>\<open>__Host-\<close> name unless that was switched off.
\<close>

theorem session_lives_until_expiry:
  assumes "seal js c u issued rng = Inr (ck, rng')" "aead_ok (cd_aead c)"
    and "\<And>x. sj_marshal js u = Some x \<Longrightarrow> sj_unmarshal js x = Some u"
    and "request_cookie r (ck_name ck) = Some (ck_value ck)"
  shows "open_session js c r now = (if us_expires u < now then Inl InvalidSession else Inr u)
    \<and> ck_http_only ck \<and> ck_path ck = ''/'' \<and> length (ck_value ck) \<le> max_cookie_size
    \<and> (ck_secure ck \<longleftrightarrow> cd_secure c) \<and> (has_prefix (ck_name ck) ''__Host-'' \<longleftrightarrow> cd_secure c)"
  using sealed_session_opens [OF assms] .

section \<open>Concrete runs\<close>

text \<open>A cipher that meets \<open>aead_ok\<close>: the nonce and the data, each behind its length in unary.\<close>

definition unary :: "string \<Rightarrow> string" where
  "unary a = replicate (length a) (CHR ''1'') @ CHR ''0'' # a"

definition toy_aead :: aead where
  "toy_aead =
     \<lparr>ae_nonce_size = 12, ae_seal = (\<lambda>n p d. unary n @ unary d @ p),
      ae_open = (\<lambda>n c d. if take (length (unary n @ unary d)) c = unary n @ unary d
                        then Some (drop (length (unary n @ unary d)) c) else None)\<rparr>"

lemma unary_inject: "unary a @ p = unary b @ q \<Longrightarrow> a = b \<and> p = q"
proof -
  assume eq: "unary a @ p = unary b @ q"
  then have "takeWhile (\<lambda>c. c = CHR ''1'') (unary a @ p) = takeWhile (\<lambda>c. c = CHR ''1'') (unary b @ q)" by simp
  then have "length a = length b" by (simp add: unary_def takeWhile_append)
  with eq show ?thesis by (simp add: unary_def)
qed

lemma toy_aead_ok: "aead_ok toy_aead"
proof -
  have "c = unary n @ unary d @ p"
    if "take (length (unary n @ unary d)) c = unary n @ unary d" "p = drop (length (unary n @ unary d)) c" for n c d p
    using that append_take_drop_id [of "length (unary n @ unary d)" c] by simp
  moreover have "d = d'" if "unary n @ unary d @ p = unary n @ unary d' @ p'" for n d p d' p'
    using that unary_inject by blast
  ultimately show ?thesis by (auto simp: aead_ok_def toy_aead_def)
qed

definition toy_codec :: codec where
  "toy_codec = \<lparr>cd_aead = toy_aead, cd_secure = True\<rparr>"

abbreviation toy_rng :: string where "toy_rng \<equiv> replicate 12 (CHR ''n'')"

text \<open>Any fixed-size encoding of the one user below will do for JSON.\<close>

definition ann :: user where
  "ann = \<lparr>us_username = ''ann'', us_fullname = ''Ann'', us_roles = [''eng''], us_expires = 8 * hour\<rparr>"

definition toy_json :: session_json where
  "toy_json = \<lparr>sj_marshal = (\<lambda>u. Some (us_username u)),
               sj_unmarshal = (\<lambda>s. if s = ''ann'' then Some ann else None)\<rparr>"

abbreviation request_with :: "(string \<times> string) list \<Rightarrow> request" where
  "request_with cookies \<equiv>
     \<lparr>rq_method = ''GET'', rq_host = ''gruff'', rq_path = ''/'', rq_raw_query = [], rq_query = [], rq_headers = [],
      rq_cookies = cookies, rq_form = [], rq_remote_addr = ''10.0.0.9:4711''\<rparr>"

lemma toy_codec_simps [simp]: "cd_aead toy_codec = toy_aead" "cd_secure toy_codec" "ae_nonce_size toy_aead = 12"
  by (simp_all add: toy_codec_def toy_aead_def)

text \<open>Values small enough are sealed.\<close>

lemma toy_seals:
  "seal_raw toy_codec flow_purpose ''login'' toy_rng
     = Inr (b64_encode url_alphabet False (toy_rng @ ae_seal toy_aead toy_rng ''login'' flow_purpose), [])"
  "seal_raw toy_codec session_purpose ''ann'' toy_rng
     = Inr (b64_encode url_alphabet False (toy_rng @ ae_seal toy_aead toy_rng ''ann'' session_purpose), [])"
proof -
  have "length (b64_encode url_alphabet False (toy_rng @ ae_seal toy_aead toy_rng ''login'' flow_purpose)) \<le> max_cookie_size"
    "length (b64_encode url_alphabet False (toy_rng @ ae_seal toy_aead toy_rng ''ann'' session_purpose)) \<le> max_cookie_size"
    by code_simp+
  moreover have "take_bytes 12 toy_rng = Some (toy_rng, [])" by (simp add: take_bytes_def)
  ultimately show
    "seal_raw toy_codec flow_purpose ''login'' toy_rng
     = Inr (b64_encode url_alphabet False (toy_rng @ ae_seal toy_aead toy_rng ''login'' flow_purpose), [])"
    "seal_raw toy_codec session_purpose ''ann'' toy_rng
     = Inr (b64_encode url_alphabet False (toy_rng @ ae_seal toy_aead toy_rng ''ann'' session_purpose), [])"
    by (simp_all only: seal_raw_def toy_codec_simps option.case prod.case Let_def linorder_not_less [symmetric]
        if_False)
qed

theorem sealed_for_one_purpose_witness:
  "\<exists>value. seal_raw toy_codec flow_purpose ''login'' toy_rng = Inr (value, [])
     \<and> open_raw toy_codec flow_purpose value = Inr ''login''
     \<and> open_session toy_json toy_codec (request_with [(cookie_name, value)]) 0 = Inl InvalidSession"
proof -
  obtain v where v: "seal_raw toy_codec flow_purpose ''login'' toy_rng = Inr (v, [])"
    using toy_seals(1) by blast
  have "request_cookie (request_with [(cookie_name, v)]) (codec_name toy_codec) = Some v"
    by (simp add: request_cookie_def codec_name_def)
  then show ?thesis
    using v toy_aead_ok
      sealed_for_one_purpose [OF v, of flow_purpose "request_with [(cookie_name, v)]" toy_json 0]
    by simp
qed

theorem opened_was_sealed_witness:
  "\<exists>value nonce. open_raw toy_codec session_purpose value = Inr ''ann'' \<and> length nonce = 12
     \<and> value = b64_encode url_alphabet False (nonce @ ae_seal toy_aead nonce ''ann'' session_purpose)"
proof -
  let ?v = "b64_encode url_alphabet False (toy_rng @ ae_seal toy_aead toy_rng ''ann'' session_purpose)"
  have o: "open_raw toy_codec session_purpose ?v = Inr ''ann''"
    using seal_raw_opens [OF toy_seals(2)] toy_aead_ok by simp
  have "list_all cookie_byte ?v" by code_simp
  from opened_was_sealed [OF o this] toy_aead_ok o show ?thesis by auto
qed

theorem session_lives_until_expiry_witness:
  "\<exists>ck. seal toy_json toy_codec ann 0 toy_rng = Inr (ck, []) \<and> ck_name ck = cookie_name
     \<and> open_session toy_json toy_codec (request_with [(cookie_name, ck_value ck)]) hour = Inr ann
     \<and> open_session toy_json toy_codec (request_with [(cookie_name, ck_value ck)]) (9 * hour) = Inl InvalidSession"
proof -
  obtain ck where ck: "seal toy_json toy_codec ann 0 toy_rng = Inr (ck, [])" "ck_name ck = cookie_name"
    using toy_seals(2) by (simp add: seal_def toy_json_def ann_def codec_name_def)
  let ?r = "request_with [(cookie_name, ck_value ck)]"
  have c: "request_cookie ?r (ck_name ck) = Some (ck_value ck)" by (simp add: request_cookie_def ck(2))
  have j: "sj_marshal toy_json ann = Some x \<Longrightarrow> sj_unmarshal toy_json x = Some ann" for x
    by (simp add: toy_json_def ann_def)
  have "aead_ok (cd_aead toy_codec)" using toy_aead_ok by simp
  note s = session_lives_until_expiry [OF ck(1) this j c]
  have e: "us_expires ann = 8 * hour" by (simp add: ann_def)
  show ?thesis using ck s [of hour] s [of "9 * hour"] by (intro exI [of _ ck]) (simp add: e)
qed

end
