(* ===== verification/Config.thy ===== *)
theory Config
  imports Config_Profile
begin

text \<open>
  The second half of \<^verbatim>\<open>internal/config/config.go\<close>: the configuration record, its defaults and
  validation, the loopback check of proxy mode, lookup by name, administration and the issuance
  limit. \<open>config_ok\<close> is what a loaded configuration satisfies.
\<close>

section \<open>The configuration\<close>

definition default_listen :: string where "default_listen = ''127.0.0.1:9000''"
definition default_fullname_header :: string where "default_fullname_header = ''X-Auth-Fullname''"
definition default_username_header :: string where "default_username_header = ''X-Auth-Username''"
definition default_roles_header :: string where "default_roles_header = ''X-Auth-Roles''"
definition default_banner :: string where "default_banner = ''VPN Portal''"

record config =
  c_listen :: string
  c_metrics_listen :: string
  c_auth :: auth
  c_fullname_header :: string
  c_username_header :: string
  c_roles_header :: string
  c_admin_roles :: "string list"
  c_ca_certificate_file :: string
  c_ca_private_file :: string
  c_ssh_ca_private_file :: string
  c_issues_per_hour :: "int option"
  c_max_tracked_sessions :: int
  c_configdir_enabled :: bool
  c_configdir_path :: string
  c_profiles :: "profile list"
  c_ssh_profiles :: "ssh_profile list"
  c_template :: string
  c_banner :: string
  c_logout_url :: string
  c_help_url :: string
  c_profile_template :: "string option"

datatype config_error =
    AuthError auth_error
  | UntrustedListen string
  | NoProfilesConfigured
  | CaFilesApart
  | NegativeIssues int
  | NegativeTracked int
  | ConfigdirWithoutPath
  | LinkUnparsable string
  | LinkNotHttp string
  | LinkWithoutHost string
  | TemplateEmpty
  | TemplateUnparsable
  | BadProfile nat string profile_error
  | DuplicateProfile string
  | BadSshProfile nat string profile_error
  | DuplicateSshProfile string

section \<open>Proxy mode only on loopback\<close>

definition loopback_listen :: "string \<Rightarrow> bool" where
  "loopback_listen hostport =
     (case split_host_port hostport of
        None \<Rightarrow> False
      | Some (host, _) \<Rightarrow>
          if host = ''localhost'' then True
          else (case parse_addr host of None \<Rightarrow> False | Some ip \<Rightarrow> is_loopback ip))"

definition check_header_trust :: "config \<Rightarrow> config_error + unit" where
  "check_header_trust c =
     (if a_mode (c_auth c) \<noteq> auth_proxy \<or> a_insecure_trusted_headers (c_auth c) then Inr ()
      else if loopback_listen (c_listen c) then Inr ()
      else Inl (UntrustedListen (c_listen c)))"

section \<open>Validation\<close>

definition with_defaults :: "config \<Rightarrow> config" where
  "with_defaults c =
     c\<lparr>c_listen := cmp_or (c_listen c) default_listen,
       c_fullname_header := cmp_or (c_fullname_header c) default_fullname_header,
       c_username_header := cmp_or (c_username_header c) default_username_header,
       c_roles_header := cmp_or (c_roles_header c) default_roles_header,
       c_banner := cmp_or (c_banner c) default_banner\<rparr>"

definition check_link :: "go_env \<Rightarrow> string \<times> string \<Rightarrow> config_error + unit" where
  "check_link env link =
     (case link of (name, value) \<Rightarrow>
        if value = [] then Inr ()
        else case parse_url env value of
               None \<Rightarrow> Inl (LinkUnparsable name)
             | Some u \<Rightarrow>
                 if u_scheme u \<noteq> ''http'' \<and> u_scheme u \<noteq> ''https'' then Inl (LinkNotHttp name)
                 else if u_host u = [] then Inl (LinkWithoutHost name)
                 else Inr ())"

definition parse_profile_template :: "go_env \<Rightarrow> config \<Rightarrow> config_error + config" where
  "parse_profile_template env c =
     (if c_profiles c = [] then Inr c
      else if c_template c = [] then Inl TemplateEmpty
      else if \<not> template_parses env (c_template c) then Inl TemplateUnparsable
      else Inr (c\<lparr>c_profile_template := Some (c_template c)\<rparr>))"

text \<open>The two loops over profiles, with the names seen so far.\<close>

fun check_profiles :: "go_env \<Rightarrow> nat \<Rightarrow> string list \<Rightarrow> profile list \<Rightarrow> config_error + unit" where
  "check_profiles env i seen [] = Inr ()"
| "check_profiles env i seen (p # ps) =
     and_then (wrap_error (BadProfile i (p_name p)) (profile_validate env p)) (\<lambda>_.
     if slice_contains seen (p_name p) then Inl (DuplicateProfile (p_name p))
     else check_profiles env (i + 1) (p_name p # seen) ps)"

fun check_ssh_profiles :: "go_env \<Rightarrow> nat \<Rightarrow> string list \<Rightarrow> ssh_profile list \<Rightarrow> config_error + unit" where
  "check_ssh_profiles env i seen [] = Inr ()"
| "check_ssh_profiles env i seen (p # ps) =
     and_then (wrap_error (BadSshProfile i (s_name p)) (ssh_validate env p)) (\<lambda>_.
     if slice_contains seen (s_name p) then Inl (DuplicateSshProfile (s_name p))
     else check_ssh_profiles env (i + 1) (s_name p # seen) ps)"

definition check_limits :: "config \<Rightarrow> config_error + unit" where
  "check_limits c =
     (if c_profiles c = [] \<and> c_ssh_profiles c = [] then Inl NoProfilesConfigured
      else if (c_ca_certificate_file c = []) \<noteq> (c_ca_private_file c = []) then Inl CaFilesApart
      else if (case c_issues_per_hour c of None \<Rightarrow> False | Some n \<Rightarrow> n < 0)
      then Inl (NegativeIssues (the (c_issues_per_hour c)))
      else if c_max_tracked_sessions c < 0 then Inl (NegativeTracked (c_max_tracked_sessions c))
      else if c_configdir_enabled c \<and> c_configdir_path c = [] then Inl ConfigdirWithoutPath
      else Inr ())"

definition config_validate :: "go_env \<Rightarrow> config \<Rightarrow> config_error + config" where
  "config_validate env c0 =
     (let c = with_defaults c0 in
      and_then (wrap_error AuthError (auth_validate env (c_auth c))) (\<lambda>auth.
      let c = c\<lparr>c_auth := auth\<rparr> in
      and_then (check_header_trust c) (\<lambda>_.
      and_then (check_limits c) (\<lambda>_.
      and_then (check_all (check_link env)
                 [(''logout-url'', c_logout_url c), (''help-url'', c_help_url c)]) (\<lambda>_.
      and_then (parse_profile_template env c) (\<lambda>c.
      and_then (check_profiles env 0 [] (c_profiles c)) (\<lambda>_.
      and_then (check_ssh_profiles env 0 [] (c_ssh_profiles c)) (\<lambda>_. Inr c))))))))"

text \<open>\<^verbatim>\<open>Load\<close>: the YAML decoder is third-party code, the parameter \<open>decode\<close>.\<close>

datatype load_error = UnreadableConfig | UndecodableConfig | InvalidConfig config_error

definition config_load ::
  "go_env \<Rightarrow> (string \<Rightarrow> config option) \<Rightarrow> string \<Rightarrow> load_error + config" where
  "config_load env decode path =
     (case read_file env path of
        None \<Rightarrow> Inl UnreadableConfig
      | Some b \<Rightarrow>
          (case decode b of
             None \<Rightarrow> Inl UndecodableConfig
           | Some c \<Rightarrow> wrap_error InvalidConfig (config_validate env c)))"

section \<open>Queries\<close>

fun find_profile :: "profile list \<Rightarrow> string \<Rightarrow> profile option" where
  "find_profile [] name = None"
| "find_profile (p # ps) name = (if p_name p = name then Some p else find_profile ps name)"

fun find_ssh_profile :: "ssh_profile list \<Rightarrow> string \<Rightarrow> ssh_profile option" where
  "find_ssh_profile [] name = None"
| "find_ssh_profile (p # ps) name = (if s_name p = name then Some p else find_ssh_profile ps name)"

definition config_profile :: "config \<Rightarrow> string \<Rightarrow> profile option" where
  "config_profile c name = find_profile (c_profiles c) name"

definition config_ssh_profile :: "config \<Rightarrow> string \<Rightarrow> ssh_profile option" where
  "config_ssh_profile c name = find_ssh_profile (c_ssh_profiles c) name"

definition is_admin :: "config \<Rightarrow> string list \<Rightarrow> bool" where
  "is_admin c roles = slice_contains_func (c_admin_roles c) (\<lambda>required. slice_contains roles required)"

definition issue_limit :: "config \<Rightarrow> int" where
  "issue_limit c =
     (case c_issues_per_hour c of None \<Rightarrow> default_issues_per_hour | Some n \<Rightarrow> n)"

text \<open>\<^verbatim>\<open>Roles\<close>: the entries of a comma-separated header, trimmed, the empty ones dropped.\<close>

definition roles_of_header :: "string \<Rightarrow> string list" where
  "roles_of_header header = filter (\<lambda>r. r \<noteq> []) (map trim_space (split_on (CHR '','') header))"

interpretation admin_grant: role_grant c_admin_roles is_admin
  by unfold_locales (simp add: is_admin_def)

text \<open>
  Lookup by name: the first entry with that name. With distinct names every entry is found under
  its own.
\<close>

locale named_lookup =
  fixes name_of :: "'p \<Rightarrow> string"
    and lookup :: "'p list \<Rightarrow> string \<Rightarrow> 'p option"
  assumes lookup_Nil: "lookup [] name = None"
    and lookup_Cons: "lookup (p # ps) name = (if name_of p = name then Some p else lookup ps name)"
begin

lemma lookup_sound: "lookup ps name = Some p \<Longrightarrow> p \<in> set ps \<and> name_of p = name"
  by (induction ps) (auto simp: lookup_Nil lookup_Cons split: if_splits)

lemma lookup_None: "lookup ps name = None \<longleftrightarrow> name \<notin> name_of ` set ps"
  by (induction ps) (auto simp: lookup_Nil lookup_Cons)

lemma lookup_own_name: "distinct (map name_of ps) \<Longrightarrow> p \<in> set ps \<Longrightarrow> lookup ps (name_of p) = Some p"
  by (induction ps) (auto simp: lookup_Nil lookup_Cons)

end

interpretation vpn_lookup: named_lookup p_name find_profile
  by unfold_locales simp_all

interpretation ssh_lookup: named_lookup s_name find_ssh_profile
  by unfold_locales simp_all

section \<open>What a loaded configuration satisfies\<close>

lemma check_profiles_ok:
  "check_profiles env i seen ps = Inr u \<Longrightarrow>
   (\<forall>p\<in>set ps. profile_ok p) \<and> distinct (map p_name ps) \<and> p_name ` set ps \<inter> set seen = {}"
proof (induction ps arbitrary: i seen)
  case (Cons p ps)
  then have "profile_ok p" "p_name p \<notin> set seen"
    "check_profiles env (i + 1) (p_name p # seen) ps = Inr u"
    by (auto simp: and_then_Inr_iff dest: profile_validate_ok split: if_splits)
  with Cons.IH [of "i + 1" "p_name p # seen"] show ?case by auto
qed simp

lemma check_ssh_profiles_ok:
  "check_ssh_profiles env i seen ps = Inr u \<Longrightarrow>
   (\<forall>p\<in>set ps. ssh_profile_ok p) \<and> distinct (map s_name ps) \<and> s_name ` set ps \<inter> set seen = {}"
proof (induction ps arbitrary: i seen)
  case (Cons p ps)
  then have "ssh_profile_ok p" "s_name p \<notin> set seen"
    "check_ssh_profiles env (i + 1) (s_name p # seen) ps = Inr u"
    by (auto simp: and_then_Inr_iff dest: ssh_validate_ok split: if_splits)
  with Cons.IH [of "i + 1" "s_name p # seen"] show ?case by auto
qed simp

definition link_ok :: "go_env \<Rightarrow> string \<Rightarrow> bool" where
  "link_ok env value \<longleftrightarrow>
     value = [] \<or> (\<exists>u. parse_url env value = Some u \<and> u_scheme u \<in> {''http'', ''https''} \<and> u_host u \<noteq> [])"

definition config_ok :: "go_env \<Rightarrow> config \<Rightarrow> bool" where
  "config_ok env c \<longleftrightarrow>
     auth_ok env (c_auth c)
     \<and> (a_mode (c_auth c) = auth_proxy \<and> \<not> a_insecure_trusted_headers (c_auth c)
          \<longrightarrow> loopback_listen (c_listen c))
     \<and> (\<forall>p\<in>set (c_profiles c). profile_ok p) \<and> distinct (map p_name (c_profiles c))
     \<and> (\<forall>p\<in>set (c_ssh_profiles c). ssh_profile_ok p) \<and> distinct (map s_name (c_ssh_profiles c))
     \<and> (c_profiles c \<noteq> [] \<or> c_ssh_profiles c \<noteq> [])
     \<and> (c_profiles c \<noteq> [] \<longrightarrow> c_profile_template c = Some (c_template c)
                              \<and> template_parses env (c_template c))
     \<and> (c_ca_certificate_file c = [] \<longleftrightarrow> c_ca_private_file c = [])
     \<and> 0 \<le> issue_limit c \<and> 0 \<le> c_max_tracked_sessions c
     \<and> (c_configdir_enabled c \<longrightarrow> c_configdir_path c \<noteq> [])
     \<and> link_ok env (c_logout_url c) \<and> link_ok env (c_help_url c)
     \<and> c_username_header c \<noteq> [] \<and> c_roles_header c \<noteq> [] \<and> c_listen c \<noteq> []"

lemma check_link_ok: "check_link env (name, value) = Inr u \<Longrightarrow> link_ok env value"
  by (auto simp: check_link_def link_ok_def split: if_splits option.splits)

lemma parse_profile_template_cases:
  assumes "parse_profile_template env c = Inr c'"
  obtains "c_profiles c = []" "c' = c"
  | "c_profiles c \<noteq> []" "template_parses env (c_template c)"
    "c' = c\<lparr>c_profile_template := Some (c_template c)\<rparr>"
  using assms by (auto simp: parse_profile_template_def split: if_splits)

lemma config_validate_ok:
  assumes "config_validate env c0 = Inr c"
  shows "config_ok env c"
proof -
  let ?d = "with_defaults c0"
  from assms obtain auth c' where steps:
      "auth_validate env (c_auth ?d) = Inr auth"
      "c' = ?d\<lparr>c_auth := auth\<rparr>"
      "check_header_trust c' = Inr ()" "check_limits c' = Inr ()"
      "check_link env (''logout-url'', c_logout_url c') = Inr ()"
      "check_link env (''help-url'', c_help_url c') = Inr ()"
      "parse_profile_template env c' = Inr c"
      "check_profiles env 0 [] (c_profiles c) = Inr ()"
      "check_ssh_profiles env 0 [] (c_ssh_profiles c) = Inr ()"
    by (auto simp: config_validate_def Let_def and_then_Inr_iff)
  have a: "auth_ok env (c_auth c')" using auth_validate_ok [OF steps(1)] steps(2) by simp
  have t: "a_mode (c_auth c') = auth_proxy \<and> \<not> a_insecure_trusted_headers (c_auth c')
      \<longrightarrow> loopback_listen (c_listen c')"
    using steps(3) by (auto simp: check_header_trust_def split: if_splits)
  have l: "link_ok env (c_logout_url c')" "link_ok env (c_help_url c')"
    using check_link_ok steps(5,6) by blast+
  have n: "c_username_header c' \<noteq> []" "c_roles_header c' \<noteq> []" "c_listen c' \<noteq> []"
    by (simp_all add: steps(2) with_defaults_def default_username_header_def
        default_roles_header_def default_listen_def)
  have p: "\<forall>p\<in>set (c_profiles c). profile_ok p" "distinct (map p_name (c_profiles c))"
    using check_profiles_ok [OF steps(8)] by auto
  have s: "\<forall>p\<in>set (c_ssh_profiles c). ssh_profile_ok p" "distinct (map s_name (c_ssh_profiles c))"
    using check_ssh_profiles_ok [OF steps(9)] by auto
  have m: "c_profiles c' \<noteq> [] \<or> c_ssh_profiles c' \<noteq> []"
    "c_ca_certificate_file c' = [] \<longleftrightarrow> c_ca_private_file c' = []"
    "0 \<le> issue_limit c'" "0 \<le> c_max_tracked_sessions c'"
    "c_configdir_enabled c' \<longrightarrow> c_configdir_path c' \<noteq> []"
    using steps(4) by (auto simp: check_limits_def issue_limit_def default_issues_per_hour_def
        split: if_splits option.splits)
  from steps(7) show ?thesis
    by (cases rule: parse_profile_template_cases)
      (use a t l n p s m in \<open>auto simp: config_ok_def issue_limit_def\<close>)
qed

lemma config_load_ok:
  "config_load env decode path = Inr c \<Longrightarrow> config_ok env c"
  by (auto simp: config_load_def dest: config_validate_ok split: option.splits)

text \<open>A role taken from the header is never empty and holds no comma.\<close>

lemma trim_space_subset: "set (trim_space s) \<subseteq> set s"
proof -
  let ?sp = "\<lambda>(r, _). is_space r"
  have "set (rev (dropWhile ?sp (rev (dropWhile ?sp (runes s))))) \<subseteq> set (runes s)"
    by (auto dest!: set_dropWhileD)
  then have "set (trim_space s) \<subseteq> set (concat (map snd (runes s)))"
    by (fastforce simp: trim_space_def Let_def)
  then show ?thesis by (simp add: runes_concat)
qed

lemma roles_of_header_plain:
  "r \<in> set (roles_of_header h) \<Longrightarrow> r \<noteq> [] \<and> CHR '','' \<notin> set r"
  using trim_space_subset by (fastforce simp: roles_of_header_def dest: split_on_no_sep)

section \<open>Properties\<close>

definition example_ssh_profile :: ssh_profile where
  "example_ssh_profile =
     \<lparr>s_name = ''shell'', s_description = ''Login'', s_duration = 4 * hour, s_roles = [''eng''],
      s_principals = [''root''], s_extensions = [], s_hosts = [''*.lan'']\<rparr>"

definition empty_auth :: auth where
  "empty_auth =
     \<lparr>a_mode = [], a_issuer = [], a_client_id = [], a_client_secret = [], a_client_secret_env = [],
      a_redirect_url = [], a_scopes = [], a_roles_claim = [], a_username_claim = [],
      a_session_key_file = [], a_session_lifetime = 0, a_insecure_cookies = False,
      a_insecure_trusted_headers = False, a_local_roles = [], a_session_key = []\<rparr>"

text \<open>A file that names nothing but one SSH profile and its CA.\<close>

definition example_decoded :: config where
  "example_decoded =
     \<lparr>c_listen = [], c_metrics_listen = [], c_auth = empty_auth, c_fullname_header = [],
      c_username_header = [], c_roles_header = [], c_admin_roles = [''ops''],
      c_ca_certificate_file = [], c_ca_private_file = [], c_ssh_ca_private_file = ''ssh/ca'',
      c_issues_per_hour = None, c_max_tracked_sessions = 0, c_configdir_enabled = False,
      c_configdir_path = [], c_profiles = [], c_ssh_profiles = [example_ssh_profile], c_template = [],
      c_banner = [], c_logout_url = ''https://sso/out'', c_help_url = [], c_profile_template = None\<rparr>"

definition example_env :: go_env where
  "example_env = plain_env (\<lambda>path. if path = ''gruff.yaml'' then Some ''yaml'' else None)"

definition example_config :: config where
  "example_config = (with_defaults example_decoded)\<lparr>c_auth := empty_auth\<lparr>a_mode := auth_proxy\<rparr>\<rparr>"

lemma example_loads_from:
  assumes "f ''gruff.yaml'' = Some ''yaml''"
  shows "config_load (plain_env f) (\<lambda>_. Some example_decoded) ''gruff.yaml'' = Inr example_config"
proof -
  have l: "loopback_listen default_listen" by code_simp
  have "ssh_validate (plain_env f) q = ssh_validate example_env q" for q
    by (simp add: ssh_validate_def valid_description_def example_env_def plain_env_def)
  moreover have "ssh_validate example_env example_ssh_profile = Inr ()" by code_simp
  ultimately have p: "ssh_validate (plain_env f) example_ssh_profile = Inr ()" by simp
  have url: "parse_url (plain_env f) = parse_url example_env" by (simp add: example_env_def plain_env_def)
  have "check_link (plain_env f) l = check_link example_env l" for l unfolding check_link_def url by (rule refl)
  moreover have "check_link example_env (''logout-url'', ''https://sso/out'') = Inr ()" by code_simp
  ultimately have u: "check_link (plain_env f) (''logout-url'', ''https://sso/out'') = Inr ()" by simp
  show ?thesis
    using l p u assms
    by (simp add: config_load_def config_validate_def plain_env_def auth_validate_def
        example_decoded_def example_config_def empty_auth_def with_defaults_def check_header_trust_def
        check_limits_def parse_profile_template_def Let_def cmp_or_def check_link_def)
qed

lemma example_loads:
  "config_load example_env (\<lambda>_. Some example_decoded) ''gruff.yaml'' = Inr example_config"
  unfolding example_env_def by (rule example_loads_from) simp

text \<open>
  C1. A configuration that loads is safe to run with. In proxy mode the listener is loopback unless
  the operator has said otherwise; every profile is valid, under a name of its own; secrets, keys and
  lifetimes are what the chosen mode needs; links are absolute; the CA files come in pairs.
\<close>

theorem config_load_safe:
  "config_load env decode path = Inr c \<Longrightarrow> config_ok env c"
  by (rule config_load_ok)

theorem config_load_safe_witness:
  "config_ok example_env example_config \<and> c_listen example_config = ''127.0.0.1:9000''"
  using config_load_safe [OF example_loads]
  by (simp add: example_config_def with_defaults_def example_decoded_def cmp_or_def default_listen_def)

text \<open>
  In a loaded configuration a request for a profile gets the profile of that name or nothing:
  every configured profile, of either kind, is found under its own name, and what is found was
  configured, under that name.
\<close>

theorem config_lookup:
  assumes "config_load env decode path = Inr c"
  shows "(\<forall>p. config_profile c name = Some p \<longleftrightarrow> p \<in> set (c_profiles c) \<and> p_name p = name)
    \<and> (\<forall>p. config_ssh_profile c name = Some p \<longleftrightarrow> p \<in> set (c_ssh_profiles c) \<and> s_name p = name)"
proof -
  have "distinct (map p_name (c_profiles c))" "distinct (map s_name (c_ssh_profiles c))"
    using config_load_ok [OF assms] by (simp_all add: config_ok_def)
  then show ?thesis
    using vpn_lookup.lookup_sound vpn_lookup.lookup_own_name ssh_lookup.lookup_sound
      ssh_lookup.lookup_own_name
    by (auto simp: config_profile_def config_ssh_profile_def)
qed

theorem config_lookup_witness:
  "config_ssh_profile example_config ''shell'' = Some example_ssh_profile
   \<and> config_profile example_config ''shell'' = None"
proof -
  have s: "example_ssh_profile \<in> set (c_ssh_profiles example_config)" "c_profiles example_config = []"
    "s_name example_ssh_profile = ''shell''"
    by (simp_all add: example_config_def with_defaults_def example_decoded_def example_ssh_profile_def)
  show ?thesis
    using config_lookup [OF example_loads, of "''shell''"] s by (cases "config_profile example_config ''shell''") auto
qed

end
