(* ===== verification/Oidc.thy ===== *)
theory Oidc
  imports Auth_Session Config
begin

text \<open>
  \<^verbatim>\<open>internal/oidcauth/oidcauth.go\<close>: the OpenID Connect code flow. The provider, with the go-oidc and
  oauth2 packages that talk to it, is the record \<open>provider\<close>; the JSON encoding of the flow and
  SHA-256 are parameters too. What was kept of a login between the redirect and the callback is
  in the flow cookie, sealed with the key of the sessions under a purpose of its own.
\<close>

section \<open>The provider\<close>

text \<open>A value of Go's \<^verbatim>\<open>any\<close>: what decoding JSON gives, and the slice of strings the code allows for.\<close>

datatype any =
    AnyNil
  | AnyBool bool
  | AnyNumber rat
  | AnyString string
  | AnyList "any list"
  | AnyMap "(string \<times> any) list"
  | AnyStrings "string list"

record id_token =
  it_nonce :: string
  it_subject :: string
  it_claims :: "(string \<times> any) list option"

record oauth2_config =
  oc_client_id :: string
  oc_client_secret :: string
  oc_redirect_url :: string
  oc_scopes :: "string list"

text \<open>
  \<open>pv_exchange\<close> gives the token response's \<^verbatim>\<open>id_token\<close>; \<open>pv_verify\<close> checks a raw ID token for a
  client at an instant; \<open>pv_metadata\<close> is the end-session endpoint of the discovery document.
\<close>

record provider =
  pv_auth_code_url :: "oauth2_config \<Rightarrow> string \<Rightarrow> (string \<times> string) list \<Rightarrow> string"
  pv_exchange :: "oauth2_config \<Rightarrow> string \<Rightarrow> (string \<times> string) list \<Rightarrow> any option"
  pv_verify :: "string \<Rightarrow> instant \<Rightarrow> string \<Rightarrow> id_token option"
  pv_metadata :: "string option"

section \<open>State\<close>

record flow =
  fl_state :: string
  fl_nonce :: string
  fl_verifier :: string
  fl_next :: string
  fl_expires :: int

text \<open>\<open>ol_set_query\<close> parses a URL, sets the given query parameters and prints it.\<close>

record oidc_lib =
  ol_marshal_flow :: "flow \<Rightarrow> string option"
  ol_unmarshal_flow :: "string \<Rightarrow> flow option"
  ol_session_json :: session_json
  ol_sha256 :: "string \<Rightarrow> string"
  ol_set_query :: "string \<Rightarrow> (string \<times> string) list \<Rightarrow> string option"

record authenticator =
  au_provider :: provider
  au_client_id :: string
  au_oauth :: oauth2_config
  au_sessions :: codec
  au_cfg :: auth
  au_secure :: bool

datatype oidc_error =
    CannotDiscover string
  | NoRandomValue
  | NoLoginInProgress
  | LoginRefused string
  | NoAuthorizationCode
  | ExchangeFailed
  | NoIdToken
  | BadIdToken
  | NonceMismatch
  | UnreadableClaims
  | CannotEncodeFlow
  | SealError session_error

definition flow_cookie :: string where "flow_cookie = ''__Host-gruff-flow''"
definition insecure_flow_cookie :: string where "insecure_flow_cookie = ''gruff-flow''"
definition flow_lifetime :: duration where "flow_lifetime = 10 * minute"

definition new_authenticator ::
  "go_env \<Rightarrow> (string \<Rightarrow> provider option) \<Rightarrow> auth \<Rightarrow> codec \<Rightarrow> oidc_error + authenticator" where
  "new_authenticator env discover cfg sessions =
     (case discover (a_issuer cfg) of
        None \<Rightarrow> Inl (CannotDiscover (a_issuer cfg))
      | Some p \<Rightarrow>
          Inr \<lparr>au_provider = p, au_client_id = a_client_id cfg,
               au_oauth = \<lparr>oc_client_id = a_client_id cfg, oc_client_secret = secret env cfg,
                           oc_redirect_url = a_redirect_url cfg, oc_scopes = oidc_scopes cfg\<rparr>,
               au_sessions = sessions, au_cfg = cfg, au_secure = (\<not> a_insecure_cookies cfg)\<rparr>)"

definition random_string :: "string \<Rightarrow> oidc_error + (string \<times> string)" where
  "random_string rng =
     (case take_bytes 32 rng of
        None \<Rightarrow> Inl NoRandomValue
      | Some (b, rng) \<Rightarrow> Inr (b64_encode url_alphabet False b, rng))"

definition safe_next :: "string \<Rightarrow> string" where
  "safe_next next =
     (if next = [] \<or> \<not> has_prefix next ''/'' \<or> has_prefix next ''//'' then ''/''
      else if contains_char next (char_of (0x5C :: nat)) then ''/''
      else next)"

section \<open>The flow cookie\<close>

definition flow_name :: "authenticator \<Rightarrow> string" where
  "flow_name a = (if au_secure a then flow_cookie else insecure_flow_cookie)"

definition clear_flow :: "authenticator \<Rightarrow> cookie" where
  "clear_flow a =
     \<lparr>ck_name = flow_name a, ck_value = [], ck_path = ''/'', ck_expires = None, ck_max_age = -1,
      ck_http_only = True, ck_secure = au_secure a, ck_same_site = SameSiteLax\<rparr>"

definition seal_flow ::
  "oidc_lib \<Rightarrow> authenticator \<Rightarrow> flow \<Rightarrow> string \<Rightarrow> oidc_error + (cookie \<times> string)" where
  "seal_flow L a f rng =
     (case ol_marshal_flow L f of
        None \<Rightarrow> Inl CannotEncodeFlow
      | Some payload \<Rightarrow>
          and_then (wrap_error SealError (seal_raw (au_sessions a) flow_purpose payload rng)) (\<lambda>(sealed, rng).
          Inr (\<lparr>ck_name = flow_name a, ck_value = sealed, ck_path = ''/'', ck_expires = None,
                ck_max_age = trunc_int (dur_seconds flow_lifetime),
                ck_http_only = True, ck_secure = au_secure a, ck_same_site = SameSiteLax\<rparr>, rng)))"

definition open_flow :: "oidc_lib \<Rightarrow> authenticator \<Rightarrow> request \<Rightarrow> instant \<Rightarrow> oidc_error + flow" where
  "open_flow L a r now =
     (case request_cookie r (flow_name a) of
        None \<Rightarrow> Inl NoLoginInProgress
      | Some value \<Rightarrow>
          (case open_raw (au_sessions a) flow_purpose value of
             Inl e \<Rightarrow> Inl NoLoginInProgress
           | Inr payload \<Rightarrow>
               (case ol_unmarshal_flow L payload of
                  None \<Rightarrow> Inl NoLoginInProgress
                | Some f \<Rightarrow> if fl_expires f < unix now then Inl NoLoginInProgress else Inr f)))"

section \<open>Claims\<close>

definition claim :: "(string \<times> any) list \<Rightarrow> string \<Rightarrow> any" where
  "claim claims key = (case map_of claims key of None \<Rightarrow> AnyNil | Some v \<Rightarrow> v)"

definition any_string :: "any \<Rightarrow> string" where
  "any_string v = (case v of AnyString s \<Rightarrow> s | _ \<Rightarrow> [])"

definition string_claim :: "(string \<times> any) list \<Rightarrow> string \<Rightarrow> string" where
  "string_claim claims key = (if key = [] then [] else any_string (claim claims key))"

definition strings_claim :: "(string \<times> any) list \<Rightarrow> string \<Rightarrow> string list" where
  "strings_claim claims key =
     (if key = [] then []
      else case claim claims key of
             AnyList vs \<Rightarrow> filter (\<lambda>s. s \<noteq> []) (map any_string vs)
           | AnyStrings ss \<Rightarrow> ss
           | AnyString s \<Rightarrow> Go_Strings.fields s
           | _ \<Rightarrow> [])"

text \<open>\<open>us_expires\<close> is Go's zero time, year 1, until the caller sets it.\<close>

definition zero_time :: instant where "zero_time = -62135596800 * second"

definition identity_of_token :: "authenticator \<Rightarrow> id_token \<Rightarrow> oidc_error + user" where
  "identity_of_token a t =
     (case it_claims t of
        None \<Rightarrow> Inl UnreadableClaims
      | Some claims \<Rightarrow>
          (let username = string_claim claims (a_username_claim (au_cfg a));
               username = (if username = [] then string_claim claims ''email'' else username);
               username = (if username = [] then it_subject t else username) in
           Inr \<lparr>us_username = username, us_fullname = string_claim claims ''name'',
                us_roles = strings_claim claims (a_roles_claim (au_cfg a)), us_expires = zero_time\<rparr>))"

section \<open>The two halves of a login\<close>

definition oidc_start ::
  "oidc_lib \<Rightarrow> authenticator \<Rightarrow> string \<Rightarrow> instant \<Rightarrow> string \<Rightarrow> oidc_error + ((string \<times> cookie) \<times> string)" where
  "oidc_start L a next now rng =
     and_then (random_string rng) (\<lambda>(state, rng).
     and_then (random_string rng) (\<lambda>(nonce, rng).
     and_then (random_string rng) (\<lambda>(verifier, rng).
     let f = \<lparr>fl_state = state, fl_nonce = nonce, fl_verifier = verifier, fl_next = safe_next next,
              fl_expires = unix (now + flow_lifetime)\<rparr> in
     and_then (seal_flow L a f rng) (\<lambda>(cookie, rng).
     let challenge = ol_sha256 L verifier;
         url = pv_auth_code_url (au_provider a) (au_oauth a) state
           [(''nonce'', nonce), (''code_challenge'', b64_encode url_alphabet False challenge),
            (''code_challenge_method'', ''S256'')]
     in Inr ((url, cookie), rng)))))"

text \<open>
  The clock is read where the callback is checked, by the verification of the ID token, for the
  session's expiry and for the cookie's age.
\<close>

record login_clock =
  lc_opened :: instant
  lc_verified :: instant
  lc_issued :: instant
  lc_sealed :: instant

definition check_callback :: "flow \<Rightarrow> request \<Rightarrow> oidc_error + string" where
  "check_callback f r =
     (let state = query_get r ''state'' in
      if state = [] \<or> state \<noteq> fl_state f then Inl NoLoginInProgress
      else if query_get r ''error'' \<noteq> [] then Inl (LoginRefused (query_get r ''error''))
      else if query_get r ''code'' = [] then Inl NoAuthorizationCode
      else Inr (query_get r ''code''))"

definition redeem_code ::
  "authenticator \<Rightarrow> flow \<Rightarrow> string \<Rightarrow> instant \<Rightarrow> oidc_error + id_token" where
  "redeem_code a f code now =
     (case pv_exchange (au_provider a) (au_oauth a) code [(''code_verifier'', fl_verifier f)] of
        None \<Rightarrow> Inl ExchangeFailed
      | Some (AnyString raw) \<Rightarrow>
          (case pv_verify (au_provider a) (au_client_id a) now raw of
             None \<Rightarrow> Inl BadIdToken
           | Some t \<Rightarrow> if it_nonce t \<noteq> fl_nonce f then Inl NonceMismatch else Inr t)
      | Some _ \<Rightarrow> Inl NoIdToken)"

definition oidc_complete ::
  "oidc_lib \<Rightarrow> authenticator \<Rightarrow> request \<Rightarrow> login_clock \<Rightarrow> string
     \<Rightarrow> oidc_error + ((cookie \<times> string) \<times> string)" where
  "oidc_complete L a r now rng =
     and_then (open_flow L a r (lc_opened now)) (\<lambda>f.
     and_then (check_callback f r) (\<lambda>code.
     and_then (redeem_code a f code (lc_verified now)) (\<lambda>t.
     and_then (identity_of_token a t) (\<lambda>u.
     let u = u\<lparr>us_expires := lc_issued now + session_duration (au_cfg a)\<rparr> in
     and_then (wrap_error SealError (seal (ol_session_json L) (au_sessions a) u (lc_sealed now) rng)) (\<lambda>(cookie, rng).
     Inr ((cookie, fl_next f), rng))))))"

section \<open>Signing out at the provider\<close>

definition logout_at_provider :: "oidc_lib \<Rightarrow> authenticator \<Rightarrow> string \<Rightarrow> string" where
  "logout_at_provider L a redirect =
     (case pv_metadata (au_provider a) of
        None \<Rightarrow> []
      | Some end_session \<Rightarrow>
          if end_session = [] then []
          else (case ol_set_query L end_session
                       ([(''client_id'', a_client_id (au_cfg a))]
                        @ (if redirect \<noteq> [] then [(''post_logout_redirect_uri'', redirect)] else [])) of
                  None \<Rightarrow> []
                | Some url \<Rightarrow> url))"

section \<open>What a completed login has checked\<close>

lemma open_flow_Inr:
  "open_flow L a r now = Inr f \<Longrightarrow>
   \<exists>v payload. request_cookie r (flow_name a) = Some v \<and> open_raw (au_sessions a) flow_purpose v = Inr payload
     \<and> ol_unmarshal_flow L payload = Some f \<and> unix now \<le> fl_expires f"
  by (auto simp: open_flow_def split: option.splits sum.splits if_splits)

lemma check_callback_Inr:
  "check_callback f r = Inr code \<Longrightarrow>
   query_get r ''state'' = fl_state f \<and> fl_state f \<noteq> [] \<and> query_get r ''error'' = []
   \<and> code = query_get r ''code'' \<and> code \<noteq> []"
  by (auto simp: check_callback_def Let_def split: if_splits)

lemma redeem_code_Inr:
  "redeem_code a f code now = Inr t \<Longrightarrow>
   \<exists>raw. pv_exchange (au_provider a) (au_oauth a) code [(''code_verifier'', fl_verifier f)] = Some (AnyString raw)
     \<and> pv_verify (au_provider a) (au_client_id a) now raw = Some t \<and> it_nonce t = fl_nonce f"
  by (auto simp: redeem_code_def split: option.splits any.splits if_splits)

lemma oidc_complete_Inr:
  assumes "oidc_complete L a r now rng = Inr ((ck, next), rng')"
  obtains f code t u where "open_flow L a r (lc_opened now) = Inr f" "check_callback f r = Inr code"
    "redeem_code a f code (lc_verified now) = Inr t" "identity_of_token a t = Inr u" "next = fl_next f"
    "seal (ol_session_json L) (au_sessions a)
       (u\<lparr>us_expires := lc_issued now + session_duration (au_cfg a)\<rparr>) (lc_sealed now) rng = Inr (ck, rng')"
  using assms by (auto simp: oidc_complete_def and_then_Inr_iff Let_def)

text \<open>The \<open>i\<close>-th random value of a login.\<close>

definition random_value :: "string \<Rightarrow> nat \<Rightarrow> string" where
  "random_value rng i = b64_encode url_alphabet False (take 32 (drop (32 * i) rng))"

lemma random_string_Inr:
  "random_string rng = Inr (s, rng') \<Longrightarrow> s = random_value rng 0 \<and> rng' = drop 32 rng \<and> s \<noteq> []"
  by (auto simp: random_string_def random_value_def take_bytes_def split: if_splits option.splits)

lemma random_value_drop: "random_value (drop (32 * j) rng) i = random_value rng (i + j)"
  by (simp add: random_value_def algebra_simps)

text \<open>
  C21. Nobody is signed in without having logged in here. When the callback succeeds, the browser
  presented the cookie of a login, sealed under this instance's key for that purpose and not older
  than its ten minutes; the callback carried the state of that login and no error; the code was
  exchanged with that login's PKCE verifier; and the ID token was verified for this client and
  carries that login's nonce. The session it opens is the token's identity, until the configured
  lifetime after issue and not beyond.
\<close>

theorem login_checked:
  assumes "oidc_complete L a r now rng = Inr ((ck, next), rng')" "aead_ok (cd_aead (au_sessions a))"
    and "\<And>u x. sj_marshal (ol_session_json L) u = Some x \<Longrightarrow> sj_unmarshal (ol_session_json L) x = Some u"
  shows "\<exists>f raw t u payload value. request_cookie r (flow_name a) = Some value
     \<and> open_raw (au_sessions a) flow_purpose value = Inr payload \<and> ol_unmarshal_flow L payload = Some f
     \<and> unix (lc_opened now) \<le> fl_expires f
     \<and> query_get r ''state'' = fl_state f \<and> fl_state f \<noteq> [] \<and> query_get r ''error'' = []
     \<and> pv_exchange (au_provider a) (au_oauth a) (query_get r ''code'') [(''code_verifier'', fl_verifier f)]
         = Some (AnyString raw)
     \<and> pv_verify (au_provider a) (au_client_id a) (lc_verified now) raw = Some t \<and> it_nonce t = fl_nonce f
     \<and> identity_of_token a t = Inr u \<and> next = fl_next f
     \<and> (\<forall>q later. request_cookie q (ck_name ck) = Some (ck_value ck) \<longrightarrow>
          open_session (ol_session_json L) (au_sessions a) q later =
            (if lc_issued now + session_duration (au_cfg a) < later then Inl InvalidSession
             else Inr (u\<lparr>us_expires := lc_issued now + session_duration (au_cfg a)\<rparr>)))"
proof -
  obtain f code t u where *: "open_flow L a r (lc_opened now) = Inr f" "check_callback f r = Inr code"
    "redeem_code a f code (lc_verified now) = Inr t" "identity_of_token a t = Inr u" "next = fl_next f"
    "seal (ol_session_json L) (au_sessions a)
       (u\<lparr>us_expires := lc_issued now + session_duration (au_cfg a)\<rparr>) (lc_sealed now) rng = Inr (ck, rng')"
    using assms(1) by (rule oidc_complete_Inr)
  from sealed_session_opens [OF *(6) assms(2,3)]
  have "\<forall>q later. request_cookie q (ck_name ck) = Some (ck_value ck) \<longrightarrow>
      open_session (ol_session_json L) (au_sessions a) q later =
        (if lc_issued now + session_duration (au_cfg a) < later then Inl InvalidSession
         else Inr (u\<lparr>us_expires := lc_issued now + session_duration (au_cfg a)\<rparr>))" by simp
  with *(4,5) open_flow_Inr [OF *(1)] check_callback_Inr [OF *(2)] redeem_code_Inr [OF *(3)]
  show ?thesis by blast
qed

section \<open>A login that is completed\<close>

lemma seal_flow_Inr:
  assumes "seal_flow L a f rng = Inr (ck, rng')" "aead_ok (cd_aead (au_sessions a))"
    and "\<And>x. ol_marshal_flow L f = Some x \<Longrightarrow> ol_unmarshal_flow L x = Some f"
    and "request_cookie r (ck_name ck) = Some (ck_value ck)"
  shows "open_flow L a r now = (if fl_expires f < unix now then Inl NoLoginInProgress else Inr f)"
proof -
  obtain x where m: "ol_marshal_flow L f = Some x"
    using assms(1) by (cases "ol_marshal_flow L f") (auto simp: seal_flow_def)
  then obtain v rng1 where v: "seal_raw (au_sessions a) flow_purpose x rng = Inr (v, rng1)"
    using assms(1) by (cases "seal_raw (au_sessions a) flow_purpose x rng") (auto simp: seal_flow_def)
  with assms(1) m have ck: "ck_name ck = flow_name a" "ck_value ck = v" by (auto simp: seal_flow_def)
  from seal_raw_opens [OF v assms(2)] have "open_raw (au_sessions a) flow_purpose v = Inr x" by simp
  with assms(3) [OF m] assms(4) ck show ?thesis by (simp add: open_flow_def)
qed

lemma oidc_start_Inr:
  assumes "oidc_start L a next now rng = Inr ((url, ck), rng')"
  obtains f rng1 where "fl_state f \<noteq> []" "fl_state f = random_value rng 0" "fl_nonce f = random_value rng 1"
    "fl_verifier f = random_value rng 2" "fl_next f = safe_next next" "fl_expires f = unix (now + flow_lifetime)"
    "seal_flow L a f rng1 = Inr (ck, rng')"
    "url = pv_auth_code_url (au_provider a) (au_oauth a) (fl_state f)
       [(''nonce'', fl_nonce f), (''code_challenge'', b64_encode url_alphabet False (ol_sha256 L (fl_verifier f))),
        (''code_challenge_method'', ''S256'')]"
proof -
  obtain s1 r1 where 1: "random_string rng = Inr (s1, r1)"
    using assms by (cases "random_string rng") (auto simp: oidc_start_def)
  obtain s2 r2 where 2: "random_string r1 = Inr (s2, r2)"
    using assms 1 by (cases "random_string r1") (auto simp: oidc_start_def)
  obtain s3 r3 where 3: "random_string r2 = Inr (s3, r3)"
    using assms 1 2 by (cases "random_string r2") (auto simp: oidc_start_def)
  let ?f = "\<lparr>fl_state = s1, fl_nonce = s2, fl_verifier = s3, fl_next = safe_next next,
             fl_expires = unix (now + flow_lifetime)\<rparr>"
  have "seal_flow L a ?f r3 = Inr (ck, rng')"
    using assms 1 2 3 by (cases "seal_flow L a ?f r3") (auto simp: oidc_start_def Let_def)
  moreover have "url = pv_auth_code_url (au_provider a) (au_oauth a) s1
      [(''nonce'', s2), (''code_challenge'', b64_encode url_alphabet False (ol_sha256 L s3)),
       (''code_challenge_method'', ''S256'')]"
    using assms 1 2 3 by (cases "seal_flow L a ?f r3") (auto simp: oidc_start_def Let_def)
  moreover have "s1 = random_value rng 0" "s1 \<noteq> []" "s2 = random_value rng 1" "s3 = random_value rng 2"
    using random_string_Inr [OF 1] random_string_Inr [OF 2] random_string_Inr [OF 3]
      random_value_drop [of 1 rng 0] random_value_drop [of 2 rng 0] by (auto simp: numeral_2_eq_2)
  ultimately show thesis by (intro that [of ?f]) simp_all
qed


section \<open>A concrete login\<close>

definition toy_state :: string where
  "toy_state = b64_encode url_alphabet False (replicate 32 (CHR ''r''))"

definition toy_flow :: flow where
  "toy_flow = \<lparr>fl_state = toy_state, fl_nonce = toy_state, fl_verifier = toy_state,
               fl_next = ''/issued'', fl_expires = 600\<rparr>"

definition toy_lib :: oidc_lib where
  "toy_lib =
     \<lparr>ol_marshal_flow = (\<lambda>f. if f = toy_flow then Some ''login'' else None),
      ol_unmarshal_flow = (\<lambda>s. if s = ''login'' then Some toy_flow else None),
      ol_session_json = \<lparr>sj_marshal = (\<lambda>u. if u = ann then Some ''ann'' else None),
                         sj_unmarshal = (\<lambda>s. if s = ''ann'' then Some ann else None)\<rparr>,
      ol_sha256 = rev, ol_set_query = (\<lambda>u q. None)\<rparr>"

definition toy_token :: id_token where
  "toy_token =
     \<lparr>it_nonce = toy_state, it_subject = ''4711'',
      it_claims = Some [(''name'', AnyString ''Ann''), (''preferred_username'', AnyString ''ann''),
                        (''groups'', AnyList [AnyString ''eng'', AnyNumber 7, AnyString []])]\<rparr>"

text \<open>A provider that checks the PKCE verifier and knows one code and one token.\<close>

definition toy_provider :: provider where
  "toy_provider =
     \<lparr>pv_auth_code_url = (\<lambda>c state ps. ''https://sso/auth?state='' @ state),
      pv_exchange = (\<lambda>c code ps. if code = ''code'' \<and> ps = [(''code_verifier'', toy_state)]
                                 then Some (AnyString ''raw'') else None),
      pv_verify = (\<lambda>client now raw. if raw = ''raw'' then Some toy_token else None),
      pv_metadata = None\<rparr>"

definition toy_authenticator :: authenticator where
  "toy_authenticator =
     \<lparr>au_provider = toy_provider, au_client_id = ''gruff'',
      au_oauth = \<lparr>oc_client_id = ''gruff'', oc_client_secret = ''s'', oc_redirect_url = ''https://gruff/auth/callback'',
                  oc_scopes = [''openid'']\<rparr>,
      au_sessions = toy_codec,
      au_cfg = empty_auth\<lparr>a_username_claim := ''preferred_username'', a_roles_claim := ''groups''\<rparr>,
      au_secure = True\<rparr>"

definition toy_clock :: "instant \<Rightarrow> login_clock" where
  "toy_clock now = \<lparr>lc_opened = now, lc_verified = now, lc_issued = 0, lc_sealed = 0\<rparr>"

abbreviation toy_start :: "oidc_error + ((string \<times> cookie) \<times> string)" where
  "toy_start \<equiv> oidc_start toy_lib toy_authenticator ''/issued'' 0 (replicate 96 (CHR ''r'') @ toy_rng)"

abbreviation toy_callback :: "cookie \<Rightarrow> request" where
  "toy_callback ck \<equiv>
     request_with [(ck_name ck, ck_value ck)]\<lparr>rq_query := [(''code'', ''code''), (''state'', toy_state)]\<rparr>"

lemma toy_random:
  "random_string (replicate 32 (CHR ''r'') @ rng) = Inr (toy_state, rng)"
  by (simp add: random_string_def take_bytes_def toy_state_def)

lemma toy_seal_flow: "\<exists>ck. seal_flow toy_lib toy_authenticator toy_flow toy_rng = Inr (ck, [])"
  using toy_seals(1) by (simp add: seal_flow_def toy_lib_def toy_authenticator_def)

lemma toy_starts:
  "\<exists>ck. toy_start = Inr ((''https://sso/auth?state='' @ toy_state, ck), [])"
proof -
  have "replicate 96 (CHR ''r'') @ toy_rng
      = replicate 32 (CHR ''r'') @ replicate 32 (CHR ''r'') @ replicate 32 (CHR ''r'') @ toy_rng"
    by (simp flip: append_assoc replicate_add)
  moreover have "safe_next ''/issued'' = ''/issued''" by code_simp
  moreover have "unix (0 + flow_lifetime) = 600" by (simp add: unix_def flow_lifetime_def)
  moreover note toy_seal_flow
  ultimately show ?thesis
    by (auto simp: oidc_start_def toy_random Let_def toy_flow_def toy_authenticator_def toy_provider_def)
qed

lemma toy_authenticator_simps [simp]:
  "au_provider toy_authenticator = toy_provider" "au_sessions toy_authenticator = toy_codec"
  "pv_exchange toy_provider c ''code'' [(''code_verifier'', toy_state)] = Some (AnyString ''raw'')"
  "pv_verify toy_provider client now ''raw'' = Some toy_token" "it_nonce toy_token = toy_state"
  by (simp_all add: toy_authenticator_def toy_provider_def toy_token_def)

lemma toy_identity:
  "identity_of_token toy_authenticator toy_token = Inr (ann\<lparr>us_expires := zero_time\<rparr>)"
  by (simp add: identity_of_token_def toy_authenticator_def toy_token_def string_claim_def strings_claim_def claim_def
      any_string_def ann_def Let_def)

lemma toy_seal:
  "\<exists>c. seal (ol_session_json toy_lib) toy_codec ann 0 toy_rng = Inr (c, [])"
  using toy_seals(2) by (simp add: seal_def toy_lib_def)

lemma toy_expiry:
  "(ann\<lparr>us_expires := zero_time\<rparr>)\<lparr>us_expires := 0 + session_duration (au_cfg toy_authenticator)\<rparr> = ann"
  by (simp add: ann_def toy_authenticator_def session_duration_def empty_auth_def default_session_lifetime_def)

lemma toy_aead_codec: "aead_ok (cd_aead (au_sessions toy_authenticator))"
  using toy_aead_ok by simp

lemma toy_flow_json: "ol_marshal_flow toy_lib f = Some x \<Longrightarrow> ol_unmarshal_flow toy_lib x = Some f"
  by (simp add: toy_lib_def split: if_splits)

lemma toy_completes:
  "\<exists>ck c. seal_flow toy_lib toy_authenticator toy_flow toy_rng = Inr (ck, [])
     \<and> oidc_complete toy_lib toy_authenticator (toy_callback ck) (toy_clock (5 * minute)) toy_rng
         = Inr ((c, ''/issued''), [])"
proof -
  obtain ck where ck: "seal_flow toy_lib toy_authenticator toy_flow toy_rng = Inr (ck, [])"
    using toy_seal_flow by blast
  obtain c where c: "seal (ol_session_json toy_lib) toy_codec ann 0 toy_rng = Inr (c, [])"
    using toy_seal by blast
  define r where "r = toy_callback ck"
  have r: "request_cookie r (ck_name ck) = Some (ck_value ck)" "query_get r ''state'' = toy_state"
    "query_get r ''error'' = []" "query_get r ''code'' = ''code''"
    by (simp_all add: r_def query_get_def first_value_def request_cookie_def)
  have "open_flow toy_lib toy_authenticator r (5 * minute) = Inr toy_flow"
    using seal_flow_Inr [OF ck toy_aead_codec toy_flow_json r(1), of "5 * minute"]
    by (simp add: toy_flow_def unix_def)
  moreover have "toy_state \<noteq> []" by (simp add: toy_state_def)
  ultimately have "oidc_complete toy_lib toy_authenticator r (toy_clock (5 * minute)) toy_rng = Inr ((c, ''/issued''), [])"
    using c toy_expiry
    by (simp add: oidc_complete_def toy_clock_def check_callback_def redeem_code_def r toy_flow_def toy_identity Let_def)
  with ck show ?thesis unfolding r_def by blast
qed

theorem login_checked_witness:
  "\<exists>f raw t u payload value r c. oidc_complete toy_lib toy_authenticator r (toy_clock (5 * minute)) toy_rng
       = Inr ((c, ''/issued''), [])
     \<and> request_cookie r flow_cookie = Some value \<and> open_raw toy_codec flow_purpose value = Inr payload
     \<and> ol_unmarshal_flow toy_lib payload = Some f \<and> query_get r ''state'' = fl_state f
     \<and> pv_verify toy_provider ''gruff'' (5 * minute) raw = Some t \<and> identity_of_token toy_authenticator t = Inr u"
proof -
  obtain ck c where c: "oidc_complete toy_lib toy_authenticator (toy_callback ck) (toy_clock (5 * minute)) toy_rng
      = Inr ((c, ''/issued''), [])"
    using toy_completes by blast
  define r where "r = toy_callback ck"
  have json: "sj_marshal (ol_session_json toy_lib) u = Some x \<Longrightarrow> sj_unmarshal (ol_session_json toy_lib) x = Some u" for u x
    by (simp add: toy_lib_def split: if_splits)
  have n: "flow_name toy_authenticator = flow_cookie" "au_client_id toy_authenticator = ''gruff''"
    "lc_verified (toy_clock (5 * minute)) = 5 * minute"
    by (simp_all add: flow_name_def toy_authenticator_def toy_clock_def)
  note c' = c [folded r_def]
  from login_checked [OF c' toy_aead_codec json]
  obtain f raw t u payload v where
    "request_cookie r (flow_name toy_authenticator) = Some v"
    "open_raw (au_sessions toy_authenticator) flow_purpose v = Inr payload"
    "ol_unmarshal_flow toy_lib payload = Some f" "query_get r ''state'' = fl_state f"
    "pv_verify (au_provider toy_authenticator) (au_client_id toy_authenticator)
       (lc_verified (toy_clock (5 * minute))) raw = Some t"
    "identity_of_token toy_authenticator t = Inr u"
    by blast
  with c' show ?thesis unfolding n toy_authenticator_simps by blast
qed


section \<open>Where a login can lead\<close>

text \<open>
  A browser drops tabs and newlines from a URL before it reads it (URL Standard, basic URL parser),
  and takes a leading \<^verbatim>\<open>//\<close> or \<^verbatim>\<open>/\<close> and backslash for the name of another host.
\<close>

definition browser_url :: "string \<Rightarrow> string" where
  "browser_url u = filter (\<lambda>c. byte c \<notin> {9, 10, 13}) u"

definition on_this_site :: "string \<Rightarrow> bool" where
  "on_this_site u \<longleftrightarrow> has_prefix u ''/'' \<and> \<not> has_prefix u ''//'' \<and> \<not> contains_char u (char_of (0x5C :: nat))"

lemma safe_next_on_this_site: "on_this_site (safe_next next)"
proof -
  have "char_of (92 :: nat) \<noteq> CHR ''/''" by code_simp
  then show ?thesis by (auto simp: on_this_site_def safe_next_def contains_char_def)
qed

text \<open>
  C30. After a login the browser stays on this site whatever page was asked for, as long as the
  request names it without a tab or a newline. With a tab it does not: \<^verbatim>\<open>safeNext\<close> lets
  \<^verbatim>\<open>/<TAB>/evil.example\<close> through unchanged, and to a browser that is \<^verbatim>\<open>//evil.example\<close>, another
  host.
\<close>

theorem redirect_stays_here:
  "(list_all (\<lambda>c. byte c \<notin> {9, 10, 13}) next \<longrightarrow> on_this_site (browser_url (safe_next next)))
   \<and> safe_next (''/'' @ CHR 0x09 # ''/evil.example'') = ''/'' @ CHR 0x09 # ''/evil.example''
   \<and> browser_url (''/'' @ CHR 0x09 # ''/evil.example'') = ''//evil.example''"
proof -
  have "browser_url (safe_next next) = safe_next next" if "list_all (\<lambda>c. byte c \<notin> {9, 10, 13}) next"
  proof -
    have "list_all (\<lambda>c. byte c \<notin> {9, 10, 13}) (safe_next next)" using that by (auto simp: safe_next_def)
    then show ?thesis by (auto simp: browser_url_def list_all_iff intro!: filter_True)
  qed
  moreover have "safe_next (''/'' @ CHR 0x09 # ''/evil.example'') = ''/'' @ CHR 0x09 # ''/evil.example''"
    "browser_url (''/'' @ CHR 0x09 # ''/evil.example'') = ''//evil.example''" by code_simp+
  ultimately show ?thesis using safe_next_on_this_site by simp
qed

theorem redirect_stays_here_witness:
  "on_this_site (browser_url (safe_next ''//evil.example'')) \<and> on_this_site (browser_url (safe_next ''/issued''))
   \<and> safe_next ''/issued'' = ''/issued''"
proof -
  have "list_all (\<lambda>c. byte c \<notin> {9, 10, 13}) ''//evil.example''" "list_all (\<lambda>c. byte c \<notin> {9, 10, 13}) ''/issued''"
    "safe_next ''/issued'' = ''/issued''" by code_simp+
  with redirect_stays_here [of "''//evil.example''"] redirect_stays_here [of "''/issued''"] show ?thesis by blast
qed

end
