(* ===== verification/Session_Store.thy ===== *)
theory Session_Store
  imports Go_Time "HOL-Library.Sublist"
begin

text \<open>
  \<^verbatim>\<open>internal/portal/session.go\<close> and the store half of \<^verbatim>\<open>internal/portal/revoke.go\<close>: the in-memory
  list of issued credentials, its pruning and cap, and the list of revocations. Every operation
  takes the instant its \<^verbatim>\<open>time.Now()\<close> returns. The mutex makes each operation atomic, so a
  concurrent run is some sequence of them.
\<close>

section \<open>Sessions\<close>

datatype kind = KindVPN | KindSSH

fun kind_string :: "kind \<Rightarrow> string" where
  "kind_string KindVPN = ''vpn''"
| "kind_string KindSSH = ''ssh''"

definition default_max_sessions :: int where "default_max_sessions = 1000"

record session =
  ss_user :: string
  ss_profile :: string
  ss_kind :: kind
  ss_serial :: string
  ss_client_ip :: string
  ss_issued_at :: instant
  ss_expires_at :: instant

definition session_expired :: "session \<Rightarrow> instant \<Rightarrow> bool" where
  "session_expired s t = (ss_expires_at s < t)"

definition remaining :: "session \<Rightarrow> instant \<Rightarrow> string" where
  "remaining s now =
     (let d = dur_round (time_sub (ss_expires_at s) now) minute in
      if d \<le> 0 then ''expired''
      else
        (let h = trunc_int (dur_hours d); m = go_mod (trunc_int (dur_minutes d)) 60 in
         if h = 0 then dec_int m @ ''m''
         else if m = 0 then dec_int h @ ''h''
         else dec_int h @ ''h '' @ dec_int m @ ''m''))"

definition expiring :: "session \<Rightarrow> instant \<Rightarrow> bool" where
  "expiring s now = (time_sub (ss_expires_at s) now < 15 * minute)"

text \<open>The ellipsis is three bytes of UTF-8.\<close>

definition short_serial :: "session \<Rightarrow> string" where
  "short_serial s =
     (if length (ss_serial s) \<le> 12 then ss_serial s
      else take 12 (ss_serial s) @ map char_of [0xE2 :: nat, 0x80, 0xA6])"

section \<open>Revocations\<close>

record revocation =
  rv_serial :: string
  rv_kind :: kind
  rv_user :: string
  rv_at :: instant
  rv_until :: instant

section \<open>The store\<close>

record store =
  st_max :: int
  st_sessions :: "session list"
  st_revoked :: "revocation list"

definition store_max :: "store \<Rightarrow> int" where
  "store_max s = (if st_max s \<le> 0 then default_max_sessions else st_max s)"

text \<open>\<^verbatim>\<open>cmp.Compare\<close>, \<^verbatim>\<open>Time.Compare\<close> and \<^verbatim>\<open>cmp.Or\<close> on their results.\<close>

definition compare :: "'a::linorder \<Rightarrow> 'a \<Rightarrow> int" where
  "compare x y = (if x < y then -1 else if y < x then 1 else 0)"

definition or_else :: "int \<Rightarrow> int \<Rightarrow> int" where
  "or_else a b = (if a \<noteq> 0 then a else b)"

text \<open>The order in which surplus entries are given up, as a comparison of positions in the list.\<close>

definition prune_cmp :: "session list \<Rightarrow> nat \<Rightarrow> nat \<Rightarrow> int" where
  "prune_cmp ss a b =
     or_else (compare (ss_expires_at (ss ! a)) (ss_expires_at (ss ! b))) (compare b a)"

fun drop_indices :: "nat \<Rightarrow> nat list \<Rightarrow> 'a list \<Rightarrow> 'a list" where
  "drop_indices i doomed [] = []"
| "drop_indices i doomed (x # xs) =
     (if slice_contains doomed i then drop_indices (Suc i) doomed xs
      else x # drop_indices (Suc i) doomed xs)"

definition prune_sessions :: "int \<Rightarrow> instant \<Rightarrow> session list \<Rightarrow> session list" where
  "prune_sessions limit now sessions =
     (let live = filter (\<lambda>s. \<not> session_expired s now) sessions;
          surplus = int (length live) - limit in
      if surplus \<le> 0 then live
      else
        (let order = sort_stable_func (prune_cmp live) [0..<length live];
             doomed = take (nat surplus) order
         in drop_indices 0 doomed live))"

definition prune :: "instant \<Rightarrow> store \<Rightarrow> store" where
  "prune now s = s\<lparr>st_sessions := prune_sessions (store_max s) now (st_sessions s)\<rparr>"

definition store_add :: "instant \<Rightarrow> session \<Rightarrow> store \<Rightarrow> store" where
  "store_add now session s = prune now (s\<lparr>st_sessions := session # st_sessions s\<rparr>)"

definition store_for :: "instant \<Rightarrow> string \<Rightarrow> store \<Rightarrow> session list \<times> store" where
  "store_for now user s =
     (let s = prune now s in (filter (\<lambda>x. ss_user x = user) (st_sessions s), s))"

definition store_all :: "instant \<Rightarrow> store \<Rightarrow> session list \<times> store" where
  "store_all now s = (let s = prune now s in (st_sessions s, s))"

definition store_tracked :: "instant \<Rightarrow> store \<Rightarrow> (nat \<times> int) \<times> store" where
  "store_tracked now s = (let s = prune now s in ((length (st_sessions s), store_max s), s))"

definition prune_revoked :: "instant \<Rightarrow> store \<Rightarrow> store" where
  "prune_revoked now s = s\<lparr>st_revoked := filter (\<lambda>r. \<not> rv_until r < now) (st_revoked s)\<rparr>"

definition store_revoke :: "instant \<Rightarrow> revocation \<Rightarrow> store \<Rightarrow> store" where
  "store_revoke now r s =
     prune_revoked now
       (if slice_contains_func (st_revoked s) (\<lambda>e. rv_serial e = rv_serial r) then s
        else s\<lparr>st_revoked := st_revoked s @ [r]\<rparr>)"

definition store_revocations :: "instant \<Rightarrow> kind \<Rightarrow> store \<Rightarrow> revocation list \<times> store" where
  "store_revocations now k s =
     (let s = prune_revoked now s in (filter (\<lambda>r. rv_kind r = k) (st_revoked s), s))"

section \<open>Pruning\<close>

lemma compare_simps [simp]:
  "compare x y \<le> 0 \<longleftrightarrow> x \<le> y" "compare x y = 0 \<longleftrightarrow> x = y" "compare x x = 0"
  by (auto simp: compare_def)

lemma prune_cmp_le:
  "prune_cmp ss a b \<le> 0 \<longleftrightarrow>
   ss_expires_at (ss ! a) < ss_expires_at (ss ! b)
   \<or> ss_expires_at (ss ! a) = ss_expires_at (ss ! b) \<and> b \<le> a"
  by (auto simp: prune_cmp_def or_else_def compare_def)

interpretation prune_order: preorder_cmp "prune_cmp ss" for ss
  by unfold_locales (auto simp: prune_cmp_le)

lemma drop_indices_nths: "drop_indices i doomed xs = nths xs {j. i + j \<notin> set doomed}"
  by (induction xs arbitrary: i) (simp_all add: nths_Cons)

text \<open>
  With \<open>doomed\<close> the positions given up: distinct, in range and exactly as many as the surplus.
\<close>

definition doomed_positions :: "int \<Rightarrow> session list \<Rightarrow> nat list" where
  "doomed_positions limit live =
     take (nat (int (length live) - limit)) (sort_stable_func (prune_cmp live) [0..<length live])"

lemma doomed_facts:
  "distinct (doomed_positions limit live)"
  "set (doomed_positions limit live) \<subseteq> {0..<length live}"
  "0 \<le> limit \<Longrightarrow> length (doomed_positions limit live) = nat (int (length live) - limit)"
proof -
  show "distinct (doomed_positions limit live)" by (simp add: doomed_positions_def)
  show "set (doomed_positions limit live) \<subseteq> {0..<length live}"
    using set_take_subset [of _ "sort_stable_func (prune_cmp live) [0..<length live]"]
    by (simp add: doomed_positions_def)
  assume "0 \<le> limit"
  then have "nat (int (length live) - limit) \<le> length live" by linarith
  then show "length (doomed_positions limit live) = nat (int (length live) - limit)"
    unfolding doomed_positions_def length_take length_sort_stable_func length_upt
    by (simp only: diff_zero min_absorb2)
qed

lemma prune_sessions_nths:
  "prune_sessions limit now sessions =
     (let live = filter (\<lambda>s. \<not> session_expired s now) sessions
      in nths live {j. j \<notin> set (doomed_positions limit live)})"
proof -
  let ?live = "filter (\<lambda>s. \<not> session_expired s now) sessions"
  show ?thesis
  proof (cases "int (length ?live) - limit \<le> 0")
    case True
    then have "doomed_positions limit ?live = []" by (simp add: doomed_positions_def)
    with True show ?thesis by (simp add: prune_sessions_def Let_def nths_all)
  next
    case False
    then show ?thesis
      by (simp add: prune_sessions_def Let_def drop_indices_nths doomed_positions_def)
  qed
qed

lemma prune_sessions_subseq:
  "subseq (prune_sessions limit now sessions) (filter (\<lambda>s. \<not> session_expired s now) sessions)"
  by (auto simp: prune_sessions_nths Let_def subseq_conv_nths)

lemma prune_sessions_live [store_simps]:
  "x \<in> set (prune_sessions limit now sessions) \<Longrightarrow> x \<in> set sessions \<and> \<not> session_expired x now"
proof -
  assume "x \<in> set (prune_sessions limit now sessions)"
  with list_emb_set [OF prune_sessions_subseq] have "x \<in> set (filter (\<lambda>s. \<not> session_expired s now) sessions)"
    by blast
  then show ?thesis by simp
qed

lemma prune_sessions_length:
  assumes "0 \<le> limit"
  shows "length (prune_sessions limit now sessions)
    = min (nat limit) (length (filter (\<lambda>s. \<not> session_expired s now) sessions))"
proof -
  let ?live = "filter (\<lambda>s. \<not> session_expired s now) sessions"
  let ?d = "doomed_positions limit ?live"
  have "{i. i < length ?live \<and> i \<notin> set ?d} = {0..<length ?live} - set ?d" by auto
  then have "length (prune_sessions limit now sessions) = card ({0..<length ?live} - set ?d)"
    by (simp add: prune_sessions_nths length_nths Let_def)
  also have "\<dots> = length ?live - length ?d"
    using doomed_facts(1,2) by (simp add: card_Diff_subset distinct_card)
  finally show ?thesis using doomed_facts(3) [OF assms, of ?live] assms by simp
qed

text \<open>What is given up expires no later than anything kept.\<close>

lemma prune_sessions_keeps_longest:
  assumes "x \<in> set sessions" "\<not> session_expired x now"
    and "x \<notin> set (prune_sessions limit now sessions)"
    and "y \<in> set (prune_sessions limit now sessions)"
  shows "ss_expires_at x \<le> ss_expires_at y"
proof -
  define live where "live = filter (\<lambda>s. \<not> session_expired s now) sessions"
  let ?order = "sort_stable_func (prune_cmp live) [0..<length live]"
  let ?n = "nat (int (length live) - limit)"
  have kept: "set (prune_sessions limit now sessions)
      = {live ! i | i. i < length live \<and> i \<notin> set (take ?n ?order)}"
    by (auto simp: prune_sessions_nths Let_def live_def [symmetric] set_nths doomed_positions_def)
  from assms(1,2) have "x \<in> set live" by (simp add: live_def)
  then obtain i where i: "i < length live" "x = live ! i" by (metis in_set_conv_nth)
  with assms(3) have di: "i \<in> set (take ?n ?order)" by (auto simp: kept)
  from assms(4) obtain j where j: "j < length live" "j \<notin> set (take ?n ?order)" "y = live ! j"
    by (auto simp: kept)
  have "j \<in> set (take ?n ?order @ drop ?n ?order)" using j(1) by simp
  with j(2) have "j \<in> set (drop ?n ?order)" by (simp only: set_append Un_iff) blast
  with di have "prune_cmp live i j \<le> 0" by (rule prune_order.sorted_take_drop)
  then show ?thesis using i j by (auto simp: prune_cmp_le)
qed

lemma prune_sessions_under_cap:
  "int (length (filter (\<lambda>s. \<not> session_expired s now) sessions)) \<le> limit \<Longrightarrow>
   prune_sessions limit now sessions = filter (\<lambda>s. \<not> session_expired s now) sessions"
  by (simp add: prune_sessions_def)

lemma store_max_pos [simp]: "0 < store_max s"
  by (simp add: store_max_def default_max_sessions_def)

lemma prune_frame [simp]:
  "st_max (prune now s) = st_max s" "st_revoked (prune now s) = st_revoked s"
  "store_max (prune now s) = store_max s"
  by (simp_all add: prune_def store_max_def)

lemma prune_revoked_frame [simp]:
  "st_max (prune_revoked now s) = st_max s" "st_sessions (prune_revoked now s) = st_sessions s"
  "store_max (prune_revoked now s) = store_max s"
  by (simp_all add: prune_revoked_def store_max_def)

end
