(* ===== verification/Store_Laws.thy ===== *)
theory Store_Laws
  imports Session_Store
begin

text \<open>
  What the portal relies on in a \<^verbatim>\<open>Store\<close> and a \<^verbatim>\<open>Revoker\<close>, as two interfaces; the in-memory store
  provides both. Then whole histories of the in-memory store: any sequence of its operations, as
  concurrent requests would interleave them, and what holds at the end of one.
\<close>

section \<open>Interfaces\<close>

text \<open>
  The audit half: what is listed for a user is that user's, is listed for an administrator too,
  and has not expired.
\<close>

locale audit_store =
  fixes for_user :: "instant \<Rightarrow> string \<Rightarrow> 's \<Rightarrow> session list \<times> 's"
    and all_sessions :: "instant \<Rightarrow> 's \<Rightarrow> session list \<times> 's"
  assumes for_own: "x \<in> set (fst (for_user now u s)) \<Longrightarrow> ss_user x = u"
    and for_within_all: "x \<in> set (fst (for_user now u s)) \<Longrightarrow> x \<in> set (fst (all_sessions now s))"
    and all_live: "x \<in> set (fst (all_sessions now s)) \<Longrightarrow> \<not> session_expired x now"
begin

definition visible :: "instant \<Rightarrow> bool \<Rightarrow> string \<Rightarrow> 's \<Rightarrow> session list \<times> 's" where
  "visible now admin u s = (if admin then all_sessions now s else for_user now u s)"

lemma visible_own: "x \<in> set (fst (visible now admin u s)) \<Longrightarrow> admin \<or> ss_user x = u"
  by (auto simp: visible_def dest: for_own split: if_splits)

lemma visible_within_all: "x \<in> set (fst (visible now admin u s)) \<Longrightarrow> x \<in> set (fst (all_sessions now s))"
  by (auto simp: visible_def dest: for_within_all split: if_splits)

lemma visible_live: "x \<in> set (fst (visible now admin u s)) \<Longrightarrow> \<not> session_expired x now"
  by (auto simp: visible_def dest: all_live for_within_all split: if_splits)

end

text \<open>
  The revoking half: a revocation of a serial that is not revoked yet is listed, under its kind,
  until the certificate would have expired, whatever has been listed stays listed that long, and
  a listed entry was put there by a revocation.
\<close>

locale revoking_store = audit_store for_user all_sessions
  for for_user :: "instant \<Rightarrow> string \<Rightarrow> 's \<Rightarrow> session list \<times> 's"
    and all_sessions :: "instant \<Rightarrow> 's \<Rightarrow> session list \<times> 's" +
  fixes revoke :: "instant \<Rightarrow> revocation \<Rightarrow> 's \<Rightarrow> 's"
    and revocations :: "instant \<Rightarrow> kind \<Rightarrow> 's \<Rightarrow> revocation list \<times> 's"
    and known :: "'s \<Rightarrow> revocation set"
  assumes revoke_known:
      "\<forall>e\<in>known s. rv_serial e \<noteq> rv_serial r \<Longrightarrow> now \<le> rv_until r \<Longrightarrow> r \<in> known (revoke now r s)"
    and revoke_keeps: "e \<in> known s \<Longrightarrow> now \<le> rv_until e \<Longrightarrow> e \<in> known (revoke now r s)"
    and revoke_only: "e \<in> known (revoke now r s) \<Longrightarrow> e \<in> known s \<or> e = r"
    and listed_iff: "e \<in> set (fst (revocations now k s)) \<longleftrightarrow>
      e \<in> known s \<and> rv_kind e = k \<and> now \<le> rv_until e"
begin

lemma revoked_is_listed:
  assumes "\<forall>e\<in>known s. rv_serial e \<noteq> rv_serial r" "now \<le> rv_until r" "later \<le> rv_until r"
  shows "r \<in> set (fst (revocations later (rv_kind r) (revoke now r s)))"
  using revoke_known [OF assms(1,2)] assms(3) by (simp add: listed_iff)

lemma listed_survives_revoke:
  assumes "e \<in> set (fst (revocations now k s))" "now \<le> later" "later \<le> rv_until e"
  shows "e \<in> set (fst (revocations later k (revoke now r s)))"
  using assms revoke_keeps by (auto simp: listed_iff)

lemma never_listed_past_expiry: "rv_until e < now \<Longrightarrow> e \<notin> set (fst (revocations now k s))"
  by (simp add: listed_iff)

end

interpretation memory_store: revoking_store store_for store_all store_revoke store_revocations
  "\<lambda>s. set (st_revoked s)"
proof unfold_locales
  fix x now u s
  show "x \<in> set (fst (store_for now u s)) \<Longrightarrow> ss_user x = u"
    by (simp add: store_for_def Let_def)
  show "x \<in> set (fst (store_for now u s)) \<Longrightarrow> x \<in> set (fst (store_all now s))"
    by (simp add: store_for_def store_all_def Let_def)
  show "x \<in> set (fst (store_all now s)) \<Longrightarrow> \<not> session_expired x now"
    by (simp add: store_all_def Let_def prune_def store_simps)
qed (auto simp: store_revoke_def prune_revoked_def store_revocations_def Let_def split: if_splits)

section \<open>Histories\<close>

datatype store_op =
    OpAdd instant session
  | OpFor instant string
  | OpAll instant
  | OpTracked instant
  | OpRevoke instant revocation
  | OpRevocations instant kind

fun op_now :: "store_op \<Rightarrow> instant" where
  "op_now (OpAdd now x) = now"
| "op_now (OpFor now u) = now"
| "op_now (OpAll now) = now"
| "op_now (OpTracked now) = now"
| "op_now (OpRevoke now r) = now"
| "op_now (OpRevocations now k) = now"

fun store_step :: "store_op \<Rightarrow> store \<Rightarrow> store" where
  "store_step (OpAdd now x) s = store_add now x s"
| "store_step (OpFor now u) s = snd (store_for now u s)"
| "store_step (OpAll now) s = snd (store_all now s)"
| "store_step (OpTracked now) s = snd (store_tracked now s)"
| "store_step (OpRevoke now r) s = store_revoke now r s"
| "store_step (OpRevocations now k) s = snd (store_revocations now k s)"

definition store_run :: "store_op list \<Rightarrow> store \<Rightarrow> store" where
  "store_run ops s = fold store_step ops s"

lemma store_run_simps [simp]:
  "store_run [] s = s" "store_run (x # ops) s = store_run ops (store_step x s)"
  by (simp_all add: store_run_def)

definition new_store :: "int \<Rightarrow> store" where
  "new_store limit = \<lparr>st_max = limit, st_sessions = [], st_revoked = []\<rparr>"

fun added :: "store_op \<Rightarrow> session list" where
  "added (OpAdd now x) = [x]"
| "added _ = []"

fun revoked_by :: "store_op \<Rightarrow> revocation list" where
  "revoked_by (OpRevoke now r) = [r]"
| "revoked_by _ = []"

lemmas store_op_defs = store_add_def store_for_def store_all_def store_tracked_def
  store_revoke_def store_revocations_def Let_def

lemma step_sessions:
  "st_sessions (store_step x s) = st_sessions s
   \<or> st_sessions (store_step x s)
     = prune_sessions (store_max s) (op_now x) (added x @ st_sessions s)"
  by (cases x) (simp_all add: store_op_defs prune_def store_max_def prune_revoked_def)

lemma step_max [simp]: "store_max (store_step x s) = store_max s"
  by (cases x) (simp_all add: store_op_defs prune_def store_max_def prune_revoked_def)

lemma step_revoked:
  "st_revoked (store_step x s) = st_revoked s
   \<or> (\<exists>rs. (rs = st_revoked s
             \<or> (\<exists>r. x = OpRevoke (op_now x) r \<and> rs = st_revoked s @ [r]
                     \<and> (\<forall>e\<in>set (st_revoked s). rv_serial e \<noteq> rv_serial r)))
           \<and> st_revoked (store_step x s) = filter (\<lambda>r. \<not> rv_until r < op_now x) rs)"
  by (cases x) (auto simp: store_op_defs prune_def prune_revoked_def)

text \<open>The bound and the absence of duplicate serials, kept by every operation.\<close>

definition store_inv :: "store \<Rightarrow> bool" where
  "store_inv s \<longleftrightarrow>
     int (length (st_sessions s)) \<le> store_max s \<and> distinct (map rv_serial (st_revoked s))"

lemma distinct_map_filter_serial:
  "distinct (map f xs) \<Longrightarrow> distinct (map f (filter P xs))"
  by (induction xs) auto

lemma step_inv: "store_inv s \<Longrightarrow> store_inv (store_step x s)"
proof -
  assume inv: "store_inv s"
  have "int (length (st_sessions (store_step x s))) \<le> store_max s"
    using step_sessions [of x s] inv less_imp_le [OF store_max_pos [of s]]
    by (auto simp: prune_sessions_length store_inv_def)
  moreover have "distinct (map rv_serial (st_revoked (store_step x s)))"
  proof -
    have "distinct (map rv_serial rs)" if "rs = st_revoked s \<or> (\<exists>r. rs = st_revoked s @ [r]
        \<and> (\<forall>e\<in>set (st_revoked s). rv_serial e \<noteq> rv_serial r))" for rs
      using that inv by (elim disjE exE conjE) (simp_all add: store_inv_def image_iff, metis)
    with step_revoked [of x s] show ?thesis by (metis distinct_map_filter_serial)
  qed
  ultimately show ?thesis by (simp add: store_inv_def)
qed

lemma run_inv: "store_inv s \<Longrightarrow> store_inv (store_run ops s)"
  by (induction ops arbitrary: s) (simp_all add: step_inv)

lemma new_store_inv [simp]: "store_inv (new_store limit)"
  by (simp add: store_inv_def new_store_def store_max_def default_max_sessions_def)

lemma run_max [simp]: "store_max (store_run ops s) = store_max s"
  by (induction ops arbitrary: s) simp_all

lemma run_sessions_added:
  "x \<in> set (st_sessions (store_run ops s)) \<Longrightarrow>
   x \<in> set (st_sessions s) \<or> (\<exists>oper\<in>set ops. x \<in> set (added oper))"
proof (induction ops arbitrary: s)
  case (Cons oper ops)
  from Cons.prems Cons.IH [of "store_step oper s"]
  have "x \<in> set (st_sessions (store_step oper s)) \<or> (\<exists>oper\<in>set ops. x \<in> set (added oper))"
    by simp
  with step_sessions [of oper s] show ?case by (auto dest!: prune_sessions_live)
qed simp

text \<open>A revocation on the list stays on it until the certificate's own expiry.\<close>

lemma step_keeps_revocation:
  "r \<in> set (st_revoked s) \<Longrightarrow> op_now x \<le> rv_until r \<Longrightarrow> r \<in> set (st_revoked (store_step x s))"
  using step_revoked [of x s] by auto

lemma run_keeps_revocation:
  "r \<in> set (st_revoked s) \<Longrightarrow> \<forall>x\<in>set ops. op_now x \<le> rv_until r \<Longrightarrow>
   r \<in> set (st_revoked (store_run ops s))"
  by (induction ops arbitrary: s) (simp_all add: step_keeps_revocation)

text \<open>A session stays listed until it expires, as long as the bound is not reached.\<close>

definition adds :: "store_op list \<Rightarrow> nat" where
  "adds ops = length (concat (map added ops))"

lemma step_keeps_session:
  assumes "x \<in> set (st_sessions s)" "op_now oper \<le> ss_expires_at x"
    and "int (length (st_sessions s) + length (added oper)) \<le> store_max s"
  shows "x \<in> set (st_sessions (store_step oper s))"
    and "length (st_sessions (store_step oper s)) \<le> length (st_sessions s) + length (added oper)"
proof -
  let ?ss = "added oper @ st_sessions s"
  let ?live = "filter (\<lambda>s. \<not> session_expired s (op_now oper)) ?ss"
  have "length ?live \<le> length (st_sessions s) + length (added oper)"
    using length_filter_le [of _ ?ss] by (simp add: add.commute)
  moreover with assms(3) have "prune_sessions (store_max s) (op_now oper) ?ss = ?live"
    by (intro prune_sessions_under_cap) linarith
  moreover have "x \<in> set ?live" using assms by (simp add: session_expired_def)
  ultimately show "x \<in> set (st_sessions (store_step oper s))"
    "length (st_sessions (store_step oper s)) \<le> length (st_sessions s) + length (added oper)"
    using step_sessions [of oper s] assms(1) by auto
qed

lemma run_keeps_session:
  "x \<in> set (st_sessions s) \<Longrightarrow> \<forall>oper\<in>set ops. op_now oper \<le> ss_expires_at x \<Longrightarrow>
   int (length (st_sessions s) + adds ops) \<le> store_max s \<Longrightarrow>
   x \<in> set (st_sessions (store_run ops s))"
proof (induction ops arbitrary: s)
  case (Cons oper ops)
  have len: "adds (oper # ops) = length (added oper) + adds ops" by (simp add: adds_def)
  with Cons.prems have "int (length (st_sessions s) + length (added oper)) \<le> store_max s" by simp
  from step_keeps_session [OF Cons.prems(1) _ this] Cons.prems
  have "x \<in> set (st_sessions (store_step oper s))"
    "length (st_sessions (store_step oper s)) \<le> length (st_sessions s) + length (added oper)"
    by simp_all
  with Cons.prems len show ?case by (simp add: Cons.IH)
qed simp

section \<open>Properties\<close>

text \<open>
  C5. Whatever operations have been performed on a fresh store, it holds at most its bound of
  sessions, every one of them was recorded by an \<^verbatim>\<open>Add\<close>, and no serial is revoked twice.
\<close>

theorem store_history_invariant:
  "int (length (st_sessions (store_run ops (new_store limit)))) \<le> store_max (new_store limit)
   \<and> set (st_sessions (store_run ops (new_store limit))) \<subseteq> \<Union> (set ` added ` set ops)
   \<and> distinct (map rv_serial (st_revoked (store_run ops (new_store limit))))"
proof -
  have "store_inv (store_run ops (new_store limit))" by (simp add: run_inv)
  then show ?thesis
    using run_sessions_added [of _ ops "new_store limit"]
    by (auto simp: store_inv_def) (simp add: new_store_def)
qed

text \<open>
  C12. A revocation is published until the certificate it withdraws would have expired by itself:
  once recorded, and its serial not already among the revoked, every later list of its kind names
  it, whatever other requests are served in between.
\<close>

theorem revocation_stays_listed:
  assumes "\<forall>e\<in>set (st_revoked s). rv_serial e \<noteq> rv_serial r" "now \<le> rv_until r"
    and "\<forall>oper\<in>set ops. op_now oper \<le> rv_until r" "later \<le> rv_until r"
  shows "r \<in> set (fst (store_revocations later (rv_kind r) (store_run ops (store_revoke now r s))))"
proof -
  have "r \<in> set (st_revoked (store_revoke now r s))"
    using assms(1,2) by (rule memory_store.revoke_known)
  with assms(3,4) show ?thesis by (simp add: memory_store.listed_iff run_keeps_revocation)
qed

definition example_revocation :: revocation where
  "example_revocation = \<lparr>rv_serial = ''2a'', rv_kind = KindVPN, rv_user = ''ann'', rv_at = 5, rv_until = 100\<rparr>"

definition example_session :: "string \<Rightarrow> instant \<Rightarrow> session" where
  "example_session serial until =
     \<lparr>ss_user = ''ann'', ss_profile = ''prod'', ss_kind = KindVPN, ss_serial = serial,
      ss_client_ip = ''192.0.2.1'', ss_issued_at = 0, ss_expires_at = until\<rparr>"

theorem revocation_stays_listed_witness:
  "example_revocation \<in> set (fst (store_revocations 100 KindVPN
     (store_run [OpAll 50, OpRevoke 60 (example_revocation\<lparr>rv_serial := ''2b''\<rparr>), OpRevocations 70 KindSSH]
       (store_revoke 5 example_revocation (new_store 10)))))"
  using revocation_stays_listed [of "new_store 10" example_revocation 5
      "[OpAll 50, OpRevoke 60 (example_revocation\<lparr>rv_serial := ''2b''\<rparr>), OpRevocations 70 KindSSH]" 100]
  by (simp add: new_store_def example_revocation_def)

text \<open>
  The audit trail gives up only what it must: an unexpired entry is missing after an \<^verbatim>\<open>Add\<close> only
  if the store is then full to its bound exactly, and with entries that expire no sooner.
\<close>

theorem add_keeps_longest:
  assumes "x \<in> set (session # st_sessions s)" "\<not> session_expired x now"
    and "x \<notin> set (st_sessions (store_add now session s))"
  shows "int (length (st_sessions (store_add now session s))) = store_max s
    \<and> (\<forall>y\<in>set (st_sessions (store_add now session s)). ss_expires_at x \<le> ss_expires_at y)"
proof
  let ?live = "filter (\<lambda>s. \<not> session_expired s now) (session # st_sessions s)"
  have add: "st_sessions (store_add now session s) = prune_sessions (store_max s) now (session # st_sessions s)"
    by (simp add: store_add_def prune_def store_max_def)
  have pos: "0 \<le> store_max s" using store_max_pos [of s] by linarith
  have "x \<in> set ?live" using assms(1,2) by auto
  then have "\<not> int (length ?live) \<le> store_max s"
    using assms(3) prune_sessions_under_cap [of now "session # st_sessions s"] unfolding add by metis
  then show "int (length (st_sessions (store_add now session s))) = store_max s"
    using pos unfolding add prune_sessions_length [OF pos] by linarith
  show "\<forall>y\<in>set (st_sessions (store_add now session s)). ss_expires_at x \<le> ss_expires_at y"
    using prune_sessions_keeps_longest [OF assms(1,2)] assms(3) unfolding add by blast
qed

theorem add_keeps_longest_witness:
  "(let s = \<lparr>st_max = 2, st_sessions = [example_session ''1'' 90, example_session ''2'' 40], st_revoked = []\<rparr>;
        s' = store_add 10 (example_session ''3'' 60) s
    in st_sessions s' = [example_session ''3'' 60, example_session ''1'' 90]
       \<and> (\<forall>y\<in>set (st_sessions s'). ss_expires_at (example_session ''2'' 40) \<le> ss_expires_at y))"
proof -
  let ?s = "\<lparr>st_max = 2, st_sessions = [example_session ''1'' 90, example_session ''2'' 40], st_revoked = []\<rparr>"
  have add: "st_sessions (store_add 10 (example_session ''3'' 60) ?s)
      = [example_session ''3'' 60, example_session ''1'' 90]" by code_simp
  then have "example_session ''2'' 40 \<notin> set (st_sessions (store_add 10 (example_session ''3'' 60) ?s))"
    by (simp add: example_session_def)
  from add_keeps_longest [OF _ _ this] add show ?thesis
    by (simp add: session_expired_def example_session_def)
qed

end
