(* ===== verification/Rate_Limit.thy ===== *)
theory Rate_Limit
  imports Go_Time "HOL-Library.AList"
begin

text \<open>
  \<^verbatim>\<open>internal/portal/ratelimit.go\<close>: the token bucket that caps how often one user is issued a
  credential. Tokens are \<^verbatim>\<open>float64\<close>, computed with the rounding of \<open>Float64\<close> after every operation
  (no fused multiply-add). The map of buckets is an association list with distinct keys, and
  a disabled limiter, Go's nil pointer, is \<^term>\<open>None\<close>.
\<close>

section \<open>The limiter\<close>

record bucket =
  b_tokens :: rat
  b_last :: instant

record limiter =
  l_per_hour :: rat
  l_buckets :: "(string \<times> bucket) list"

definition new_limiter :: "int \<Rightarrow> limiter option" where
  "new_limiter per_hour =
     (if per_hour \<le> 0 then None
      else Some \<lparr>l_per_hour = f64 (of_int per_hour), l_buckets = []\<rparr>)"

definition per_second :: "limiter \<Rightarrow> rat" where
  "per_second l = f64 (l_per_hour l / 3600)"

definition refill :: "limiter \<Rightarrow> bucket \<Rightarrow> instant \<Rightarrow> rat" where
  "refill l b now =
     min (l_per_hour l)
       (f64 (b_tokens b + f64 (dur_seconds (time_sub now (b_last b)) * per_second l)))"

definition sweep :: "instant \<Rightarrow> limiter \<Rightarrow> limiter" where
  "sweep now l =
     (if length (l_buckets l) < 1024 then l
      else l\<lparr>l_buckets := filter (\<lambda>(_, b). \<not> hour < time_sub now (b_last b)) (l_buckets l)\<rparr>)"

definition find_bucket :: "limiter \<Rightarrow> string \<Rightarrow> instant \<Rightarrow> bucket" where
  "find_bucket l key now =
     (case map_of (l_buckets l) key of
        Some b \<Rightarrow> b
      | None \<Rightarrow> \<lparr>b_tokens = l_per_hour l, b_last = now\<rparr>)"

definition wait_for :: "limiter \<Rightarrow> rat \<Rightarrow> duration" where
  "wait_for l tokens =
     dur_round (trunc_int (f64 (f64 (f64 (1 - tokens) / per_second l) * of_int second))) second"

definition put_bucket :: "string \<Rightarrow> bucket \<Rightarrow> limiter \<Rightarrow> limiter" where
  "put_bucket key b l = l\<lparr>l_buckets := AList.update key b (l_buckets l)\<rparr>"

definition allow_bucket ::
  "limiter \<Rightarrow> string \<Rightarrow> instant \<Rightarrow> (bool \<times> duration) \<times> limiter" where
  "allow_bucket l key now =
     (let tokens = refill l (find_bucket l key now) now in
      if tokens < 1 then
        ((False, wait_for l tokens), sweep now (put_bucket key \<lparr>b_tokens = tokens, b_last = now\<rparr> l))
      else
        ((True, 0), sweep now (put_bucket key \<lparr>b_tokens = f64 (tokens - 1), b_last = now\<rparr> l)))"

definition allow ::
  "limiter option \<Rightarrow> string \<Rightarrow> instant \<Rightarrow> (bool \<times> duration) \<times> limiter option" where
  "allow ml key now =
     (case ml of
        None \<Rightarrow> ((True, 0), None)
      | Some l \<Rightarrow> (case allow_bucket l key now of (verdict, l') \<Rightarrow> (verdict, Some l')))"

section \<open>Invariant\<close>

text \<open>
  The limit is a positive integer of at most 53 bits, keys are distinct and every bucket holds
  between nothing and the whole capacity.
\<close>

definition limiter_inv :: "int \<Rightarrow> limiter \<Rightarrow> bool" where
  "limiter_inv n l \<longleftrightarrow>
     0 < n \<and> n \<le> 2 ^ 53 \<and> l_per_hour l = of_int n \<and> distinct (map fst (l_buckets l))
     \<and> (\<forall>(k, b)\<in>set (l_buckets l). 0 \<le> b_tokens b \<and> b_tokens b \<le> of_int n)"

lemma sweep_frame [simp]: "l_per_hour (sweep now l) = l_per_hour l"
  by (simp add: sweep_def)

lemma put_bucket_frame [simp]:
  "l_per_hour (put_bucket k b l) = l_per_hour l"
  "map_of (l_buckets (put_bucket k b l)) = (map_of (l_buckets l))(k \<mapsto> b)"
  by (simp_all add: put_bucket_def update_conv')

lemma new_limiter_inv:
  "0 < n \<Longrightarrow> n \<le> 2 ^ 53 \<Longrightarrow> new_limiter n = Some l \<Longrightarrow> limiter_inv n l"
  by (auto simp: new_limiter_def limiter_inv_def f64_of_int split: if_splits)

lemma dur_seconds_nonneg: "0 \<le> d \<Longrightarrow> 0 \<le> dur_seconds d"
  by (simp add: dur_seconds_def dur_float_def f64_nonneg)

lemma per_second_nonneg: "limiter_inv n l \<Longrightarrow> 0 \<le> per_second l"
  by (simp add: per_second_def limiter_inv_def f64_nonneg)

lemma find_bucket_bounds:
  assumes "limiter_inv n l"
  shows "0 \<le> b_tokens (find_bucket l k now) \<and> b_tokens (find_bucket l k now) \<le> of_int n"
proof (cases "map_of (l_buckets l) k")
  case None
  with assms show ?thesis by (simp add: find_bucket_def limiter_inv_def)
next
  case (Some b)
  then have "(k, b) \<in> set (l_buckets l)" by (rule map_of_SomeD)
  with assms Some show ?thesis by (fastforce simp: find_bucket_def limiter_inv_def)
qed

lemma refill_bounds:
  assumes "limiter_inv n l" "0 \<le> b_tokens b" "b_last b \<le> now"
  shows "0 \<le> refill l b now \<and> refill l b now \<le> of_int n"
proof -
  have "0 \<le> f64 (dur_seconds (time_sub now (b_last b)) * per_second l)"
    using assms by (intro f64_nonneg mult_nonneg_nonneg dur_seconds_nonneg time_sub_nonneg
        per_second_nonneg)
  then have "0 \<le> f64 (b_tokens b + f64 (dur_seconds (time_sub now (b_last b)) * per_second l))"
    using assms(2) by (intro f64_nonneg) simp
  then show ?thesis using assms(1) by (simp add: refill_def limiter_inv_def)
qed

lemma f64_pred_le:
  assumes "1 \<le> x" "x \<le> of_int n" "0 < n" "n \<le> 2 ^ 53"
  shows "0 \<le> f64 (x - 1) \<and> f64 (x - 1) \<le> of_int n"
proof -
  have "f64 (x - 1) \<le> f64 (of_int n)" using assms by (intro f64_mono) simp_all
  then show ?thesis using assms f64_nonneg [of "x - 1"] by (simp add: f64_of_int)
qed

lemma sweep_subset: "set (l_buckets (sweep now l)) \<subseteq> set (l_buckets l)"
  by (auto simp: sweep_def)

lemma sweep_inv: "limiter_inv n l \<Longrightarrow> limiter_inv n (sweep now l)"
  by (auto simp: limiter_inv_def sweep_def distinct_map_filter)

lemma set_update_subset: "set (AList.update k v al) \<subseteq> insert (k, v) (set al)"
  by (induction al) auto

lemma put_bucket_inv:
  "limiter_inv n l \<Longrightarrow> 0 \<le> b_tokens b \<Longrightarrow> b_tokens b \<le> of_int n \<Longrightarrow> limiter_inv n (put_bucket k b l)"
  using set_update_subset [of k b "l_buckets l"]
  by (fastforce simp: limiter_inv_def put_bucket_def distinct_update)

lemma allow_bucket_inv:
  assumes "limiter_inv n l" "b_last (find_bucket l key now) \<le> now"
  shows "limiter_inv n (snd (allow_bucket l key now))"
proof -
  let ?t = "refill l (find_bucket l key now) now"
  have t: "0 \<le> ?t \<and> ?t \<le> of_int n"
    using assms find_bucket_bounds by (intro refill_bounds) auto
  moreover have "0 < n \<and> n \<le> 2 ^ 53" using assms(1) by (simp add: limiter_inv_def)
  ultimately show ?thesis
    using assms(1) f64_pred_le [of ?t n]
    by (auto simp: allow_bucket_def Let_def intro!: sweep_inv put_bucket_inv)
qed

section \<open>A bucket idle for an hour is full\<close>

lemma first_nanosecond: "3600 + 9 / 10 ^ 10 \<le> f64 (3600 + f64 (1 / 1000000000))"
  by code_simp

lemma dur_seconds_over_hour:
  assumes "hour < d"
  shows "3600 + 9 / 10 ^ 10 \<le> dur_seconds d"
proof -
  let ?q = "d div second" and ?r = "d mod second"
  have secs: "dur_seconds d = f64 (f64 (of_int ?q) + f64 (f64 (of_int ?r) / 1000000000))"
    using assms by (simp add: dur_seconds_def dur_float_def)
  have r0: "0 \<le> f64 (f64 (of_int ?r) / 1000000000)"
    by (intro f64_nonneg divide_nonneg_nonneg) simp_all
  have "second * ?q + ?r = d" "0 \<le> ?r" "?r < second" by simp_all
  then consider "3601 \<le> ?q" | "?q = 3600" "1 \<le> ?r" using assms by linarith
  then show ?thesis
  proof cases
    case 1
    then have "(of_int 3601 :: rat) \<le> of_int ?q" by (simp only: of_int_le_iff)
    then have "f64 (of_int 3601) \<le> f64 (of_int ?q)" by (intro f64_mono) simp_all
    then have q: "3601 \<le> f64 (of_int ?q)" using f64_of_int [of 3601] by simp
    have "f64 (of_int 3601) \<le> dur_seconds d" unfolding secs using q r0 by (intro f64_mono) simp_all
    then show ?thesis using f64_of_int [of 3601] by simp
  next
    case 2
    have "(of_int 1 :: rat) \<le> of_int ?r" using 2 by (simp only: of_int_le_iff)
    then have "f64 (of_int 1) \<le> f64 (of_int ?r)" by (intro f64_mono) simp_all
    then have "1 / 1000000000 \<le> f64 (of_int ?r) / 1000000000"
      using f64_of_int [of 1] by simp
    then have "f64 (1 / 1000000000) \<le> f64 (f64 (of_int ?r) / 1000000000)"
      by (intro f64_mono) simp_all
    moreover have "f64 (of_int ?q) = 3600" using 2 f64_of_int [of 3600] by simp
    ultimately have "f64 (3600 + f64 (1 / 1000000000)) \<le> dur_seconds d"
      unfolding secs by (intro f64_mono) (simp_all add: f64_nonneg)
    then show ?thesis using first_nanosecond by linarith
  qed
qed

lemma full_after_hour:
  assumes inv: "limiter_inv n l" and "0 \<le> b_tokens b" and "hour < time_sub now (b_last b)"
  shows "refill l b now = of_int n"
proof -
  let ?s = "dur_seconds (time_sub now (b_last b))"
  have n: "0 < n" "n \<le> 2 ^ 53" "l_per_hour l = of_int n" using inv by (simp_all add: limiter_inv_def)
  then have n0: "0 < (of_int n :: rat)" by simp
  have s: "3600 + 9 / 10 ^ 10 \<le> ?s" by (rule dur_seconds_over_hour [OF assms(3)])
  have "\<bar>per_second l - of_int n / 3600\<bar> \<le> of_int n / 3600 * 2 powi (-53)"
    unfolding per_second_def n(3) using n0 by (intro f64_error) simp
  then have "of_int n / 3600 - of_int n / 3600 * 2 powi (-53) \<le> per_second l" by linarith
  then have ps: "of_int n * ((1 - 2 powi (-53)) / 3600) \<le> per_second l" by (simp add: algebra_simps)
  have "(of_int n :: rat) * 1 \<le> of_int n * ((3600 + 9 / 10 ^ 10) * ((1 - 2 powi (-53)) / 3600))"
    using n0 by (intro mult_left_mono) (simp_all add: power_int_minus)
  also have "\<dots> = (3600 + 9 / 10 ^ 10) * (of_int n * ((1 - 2 powi (-53)) / 3600))" by simp
  also have "\<dots> \<le> ?s * per_second l"
    using s ps n0 by (intro mult_mono) (simp_all add: power_int_minus)
  finally have "f64 (of_int n) \<le> f64 (?s * per_second l)" using n0 by (intro f64_mono) simp_all
  then have "of_int n \<le> f64 (?s * per_second l)" using n by (simp add: f64_of_int)
  then have "f64 (of_int n) \<le> f64 (b_tokens b + f64 (?s * per_second l))"
    using assms(2) n0 by (intro f64_mono) simp_all
  then show ?thesis using n by (simp add: refill_def f64_of_int)
qed

lemma dur_seconds_0 [simp]: "dur_seconds 0 = 0"
  by (simp add: dur_seconds_def dur_float_def)

lemma refill_now [simp]:
  "limiter_inv n l \<Longrightarrow> b_last b = now \<Longrightarrow> f64 (b_tokens b) = b_tokens b \<Longrightarrow> b_tokens b \<le> of_int n \<Longrightarrow>
   refill l b now = b_tokens b"
  by (simp add: refill_def limiter_inv_def)

lemma fresh_is_full:
  "limiter_inv n l \<Longrightarrow> map_of (l_buckets l) key = None \<Longrightarrow>
   refill l (find_bucket l key now) now = of_int n"
  by (simp add: find_bucket_def limiter_inv_def refill_def f64_of_int)

section \<open>Sweeping and other users are not observable\<close>

lemma map_of_filter_values:
  "distinct (map fst xs) \<Longrightarrow>
   map_of (filter (\<lambda>(_, b). P b) xs) k
   = (case map_of xs k of None \<Rightarrow> None | Some b \<Rightarrow> if P b then Some b else None)"
proof (induction xs)
  case (Cons x xs)
  obtain k' b where x: "x = (k', b)" by fastforce
  show ?case
  proof (cases "k = k'")
    case True
    with Cons.prems x have "map_of xs k = None" by (simp add: map_of_eq_None_iff)
    with Cons x True show ?thesis by simp
  next
    case False
    with Cons x show ?thesis by simp
  qed
qed simp

lemma map_of_sweep:
  "limiter_inv n l \<Longrightarrow> map_of (l_buckets (sweep now l)) k
   = (case map_of (l_buckets l) k of
        None \<Rightarrow> None
      | Some b \<Rightarrow> if 1024 \<le> length (l_buckets l) \<and> hour < time_sub now (b_last b) then None else Some b)"
  by (auto simp: sweep_def limiter_inv_def map_of_filter_values split: option.split)

lemma time_sub_mono: "t \<le> t' \<Longrightarrow> time_sub t u \<le> time_sub t' u"
  by (simp add: time_sub_def)

lemma refill_cong: "l_per_hour l = l_per_hour l' \<Longrightarrow> refill l b now = refill l' b now"
  by (simp add: refill_def per_second_def)

lemma refill_sweep:
  assumes "limiter_inv n l" "now \<le> later"
  shows "refill (sweep now l) (find_bucket (sweep now l) key later) later
       = refill l (find_bucket l key later) later"
proof (cases "map_of (l_buckets (sweep now l)) key = map_of (l_buckets l) key")
  case True
  then have "find_bucket (sweep now l) key later = find_bucket l key later"
    by (simp add: find_bucket_def split: option.split)
  then show ?thesis by (simp add: refill_cong [of "sweep now l" l])
next
  case False
  then obtain b where b: "map_of (l_buckets l) key = Some b" "hour < time_sub now (b_last b)"
      "map_of (l_buckets (sweep now l)) key = None"
    using map_of_sweep [OF assms(1)] by (auto split: option.splits if_splits)
  have "0 \<le> b_tokens b"
    using find_bucket_bounds [OF assms(1), of key now] b by (simp add: find_bucket_def)
  moreover have "hour < time_sub later (b_last b)"
    using b(2) time_sub_mono [OF assms(2), of "b_last b"] by linarith
  ultimately have "refill l b later = of_int n" by (rule full_after_hour [OF assms(1)])
  with b fresh_is_full [OF sweep_inv [OF assms(1)] b(3)] show ?thesis
    by (simp add: find_bucket_def)
qed

lemma allow_verdict:
  "fst (allow_bucket l key now) =
     (let t = refill l (find_bucket l key now) now
      in if t < 1 then (False, wait_for l t) else (True, 0))"
  by (simp add: allow_bucket_def Let_def)

lemma allow_frame: "l_per_hour (snd (allow_bucket l key now)) = l_per_hour l"
  by (simp add: allow_bucket_def Let_def)

lemma allow_state:
  obtains b where "snd (allow_bucket l key now) = sweep now (put_bucket key b l)" "b_last b = now"
    "b_tokens b = (let t = refill l (find_bucket l key now) now in if t < 1 then t else f64 (t - 1))"
proof -
  let ?t = "refill l (find_bucket l key now) now"
  show thesis
    by (rule that [of "\<lparr>b_tokens = (if ?t < 1 then ?t else f64 (?t - 1)), b_last = now\<rparr>"])
      (simp_all add: allow_bucket_def Let_def)
qed

lemma next_tokens_bounds:
  assumes "limiter_inv n l" "b_last (find_bucket l key now) \<le> now"
    and "x = (let t = refill l (find_bucket l key now) now in if t < 1 then t else f64 (t - 1))"
  shows "0 \<le> x \<and> x \<le> of_int n"
proof -
  have "0 \<le> refill l (find_bucket l key now) now \<and> refill l (find_bucket l key now) now \<le> of_int n"
    using assms find_bucket_bounds [OF assms(1)] by (intro refill_bounds) auto
  moreover have "0 < n \<and> n \<le> 2 ^ 53" using assms(1) by (simp add: limiter_inv_def)
  ultimately show ?thesis using assms(3) f64_pred_le by (auto simp: Let_def)
qed

text \<open>
  C17. One user's requests never change the answer another user gets: after serving \<open>k\<close>, and
  sweeping whatever buckets the limiter then drops, any later request of another user \<open>j\<close> gets
  the verdict and the wait it would have got without either.
\<close>

theorem other_users_unaffected:
  assumes inv: "limiter_inv n l" and "b_last (find_bucket l k now) \<le> now"
    and "j \<noteq> k" and "now \<le> later"
  shows "fst (allow_bucket (snd (allow_bucket l k now)) j later) = fst (allow_bucket l j later)"
proof -
  obtain b where b: "snd (allow_bucket l k now) = sweep now (put_bucket k b l)" "b_last b = now"
      "b_tokens b = (let t = refill l (find_bucket l k now) now in if t < 1 then t else f64 (t - 1))"
    by (rule allow_state)
  have inv': "limiter_inv n (put_bucket k b l)"
    using inv next_tokens_bounds [OF inv assms(2) b(3)] by (simp add: put_bucket_inv)
  have "find_bucket (put_bucket k b l) j later = find_bucket l j later"
    using assms(3) by (simp add: find_bucket_def split: option.split)
  then have r: "refill (put_bucket k b l) (find_bucket (put_bucket k b l) j later) later
      = refill l (find_bucket l j later) later"
    by (simp add: refill_cong [of "put_bucket k b l" l])
  have w: "wait_for (sweep now (put_bucket k b l)) = wait_for l"
    by (rule ext) (simp add: wait_for_def per_second_def)
  show ?thesis
    unfolding allow_verdict b(1) refill_sweep [OF inv' assms(4)] r w ..
qed

theorem other_users_unaffected_witness:
  "fst (allow_bucket (snd (allow_bucket \<lparr>l_per_hour = 1, l_buckets = []\<rparr> ''ann'' 0)) ''bob'' 7)
   = fst (allow_bucket \<lparr>l_per_hour = 1, l_buckets = []\<rparr> ''bob'' 7)"
  by (rule other_users_unaffected [of 1]) (simp_all add: limiter_inv_def find_bucket_def)

section \<open>The burst\<close>

text \<open>The verdicts of \<open>m\<close> requests of one user at one instant.\<close>

fun burst :: "nat \<Rightarrow> limiter \<Rightarrow> string \<Rightarrow> instant \<Rightarrow> bool list" where
  "burst 0 l key now = []"
| "burst (Suc m) l key now =
     (case allow_bucket l key now of ((ok, wait), l') \<Rightarrow> ok # burst m l' key now)"

lemma burst_from:
  assumes "limiter_inv n l" "refill l (find_bucket l key now) now = of_int j"
    and "b_last (find_bucket l key now) \<le> now" "0 \<le> j" "j \<le> n"
  shows "burst m l key now = replicate (min m (nat j)) True @ replicate (m - nat j) False"
  using assms
proof (induction m arbitrary: l j)
  case (Suc m)
  let ?l' = "snd (allow_bucket l key now)"
  let ?j' = "if j < 1 then j else j - 1"
  let ?b = "\<lparr>b_tokens = of_int ?j', b_last = now\<rparr>"
  have n: "0 < n" "n \<le> 2 ^ 53" using Suc.prems by (simp_all add: limiter_inv_def)
  have j53: "j \<le> 2 ^ 53" using n Suc.prems by linarith
  have lt: "(of_int j :: rat) < 1 \<longleftrightarrow> j < 1" by linarith
  have pred: "1 \<le> j \<Longrightarrow> f64 (of_int j - 1) = of_int (j - 1)"
    using f64_of_int [of "j - 1"] j53 by simp
  have state: "?l' = sweep now (put_bucket key ?b l)"
    using Suc.prems(2) pred by (simp add: allow_bucket_def Let_def lt)
  have inv': "limiter_inv n (put_bucket key ?b l)"
    using Suc.prems by (intro put_bucket_inv) auto
  have "map_of (l_buckets ?l') key = Some ?b"
    unfolding state map_of_sweep [OF inv'] by simp
  then have b': "find_bucket ?l' key now = ?b" by (simp add: find_bucket_def)
  have inv'': "limiter_inv n ?l'" unfolding state by (rule sweep_inv [OF inv'])
  have "f64 (of_int ?j') = of_int ?j'" using j53 Suc.prems(4) by (intro f64_of_int) auto
  then have "refill ?l' (find_bucket ?l' key now) now = of_int ?j'"
    using refill_now [OF inv'', of ?b now] Suc.prems(4,5) unfolding b' by simp
  from Suc.IH [OF inv'' this] have IH: "burst m ?l' key now
      = replicate (min m (nat ?j')) True @ replicate (m - nat ?j') False"
    using Suc.prems(4,5) by (simp add: b')
  have "burst (Suc m) l key now = (\<not> j < 1) # burst m ?l' key now"
    using Suc.prems(2) by (simp add: allow_bucket_def Let_def lt)
  with IH show ?case
    using Suc.prems(4) by (auto simp: min_def nat_diff_distrib' replicate_app_Cons_same
        simp flip: replicate_Suc split: if_splits) (auto simp: Suc_diff_le nat_le_iff not_le)
qed simp

text \<open>
  C18. A user's first requests of an instance, made at one instant, are granted exactly up to the
  configured number per hour, and all further ones are refused. A limit of zero or less disables
  the limiter, which then grants everything.
\<close>

theorem burst_exact:
  assumes "n \<le> 2 ^ 53"
  shows "case new_limiter n of
      None \<Rightarrow> n \<le> 0 \<and> allow None key now = ((True, 0), None)
    | Some l \<Rightarrow> burst m l key now = replicate (min m (nat n)) True @ replicate (m - nat n) False"
proof (cases "n \<le> 0")
  case False
  then have n: "0 < n" by simp
  define l where "l = \<lparr>l_per_hour = f64 (of_int n), l_buckets = []\<rparr>"
  have new: "new_limiter n = Some l" using n by (simp add: new_limiter_def l_def)
  from new_limiter_inv [OF n assms new] have inv: "limiter_inv n l" .
  have fn: "f64 (of_int n) = of_int n" using n assms by (intro f64_of_int) auto
  have fb: "find_bucket l key now = \<lparr>b_tokens = of_int n, b_last = now\<rparr>"
    by (simp add: find_bucket_def l_def fn)
  have "refill l (find_bucket l key now) now = of_int n"
    using refill_now [OF inv, of "find_bucket l key now" now] n by (simp add: fb fn)
  from burst_from [OF inv this, of m] n show ?thesis by (simp add: new fb)
qed (simp add: new_limiter_def allow_def)

theorem burst_exact_witness:
  "\<exists>l. new_limiter 2 = Some l \<and> burst 3 l ''ann'' 0 = [True, True, False]"
  using burst_exact [of 2 "''ann''" 0 3]
  by (auto simp: numeral_3_eq_3 numeral_2_eq_2 new_limiter_def split: option.splits)

text \<open>
  A refused user may be told to retry after no time at all: the wait is rounded to the nearest
  second, so less than half a second short of the next token the answer is a refusal with a wait
  of zero.
\<close>

theorem refused_with_no_wait:
  "\<exists>l l'. new_limiter 1 = Some l \<and> allow (Some l) ''ann'' 0 = ((True, 0), Some l')
     \<and> fst (allow (Some l') ''ann'' 3599600000000) = (False, 0)"
proof -
  have "f64 1 = 1" using f64_of_int [of 1] by simp
  then have "new_limiter 1 = Some \<lparr>l_per_hour = 1, l_buckets = []\<rparr>"
    by (simp add: new_limiter_def)
  moreover have "allow (Some \<lparr>l_per_hour = 1, l_buckets = []\<rparr>) ''ann'' 0
      = ((True, 0), Some \<lparr>l_per_hour = 1, l_buckets = [(''ann'', \<lparr>b_tokens = 0, b_last = 0\<rparr>)]\<rparr>)"
    by code_simp
  moreover have "fst (allow (Some \<lparr>l_per_hour = 1, l_buckets = [(''ann'', \<lparr>b_tokens = 0, b_last = 0\<rparr>)]\<rparr>)
      ''ann'' 3599600000000) = (False, 0)"
    by code_simp
  ultimately show ?thesis by blast
qed

end
