(* ===== verification/Metrics.thy ===== *)
theory Metrics
  imports Go_Strings Session_Store "HOL-Library.AList"
begin

text \<open>
  \<^verbatim>\<open>internal/portal/metrics.go\<close>: the counters, their labels and the text a scraper reads. The map
  from series to counts is an association list with distinct keys, standing for a Go map whatever
  order it iterates in. The gauges taken from the store are in
  \<open>Portal_Revoke\<close>.
\<close>

section \<open>Series\<close>

datatype series = Series (series_name: string) (series_labels: string)

text \<open>The order of the exposition: by name, then by labels, each compared bytewise.\<close>

instantiation series :: linorder
begin

definition less_eq_series :: "series \<Rightarrow> series \<Rightarrow> bool" where
  "less_eq_series a b \<longleftrightarrow>
     series_name a < series_name b \<or> series_name a = series_name b \<and> series_labels a \<le> series_labels b"

definition less_series :: "series \<Rightarrow> series \<Rightarrow> bool" where
  "less_series a b \<longleftrightarrow>
     series_name a < series_name b \<or> series_name a = series_name b \<and> series_labels a < series_labels b"

instance
  by standard (auto simp: less_eq_series_def less_series_def series.expand)

end

type_synonym metrics = "(series \<times> int) list"

definition metric_issued :: string where "metric_issued = ''gruff_certificates_issued_total''"
definition metric_denied :: string where "metric_denied = ''gruff_authorization_denied_total''"
definition metric_rate_limited :: string where "metric_rate_limited = ''gruff_rate_limited_total''"
definition metric_revoked :: string where "metric_revoked = ''gruff_revocations_total''"
definition metric_sign_in :: string where "metric_sign_in = ''gruff_sign_in_failures_total''"

definition counter_help :: "string \<Rightarrow> string" where
  "counter_help name =
     (if name = metric_issued then ''Certificates issued, by credential kind and profile.''
      else if name = metric_denied then ''Requests refused because the caller lacked the role.''
      else if name = metric_rate_limited then ''Issuance requests refused by the per-user rate limit.''
      else if name = metric_revoked then ''Credentials revoked, by kind.''
      else if name = metric_sign_in then ''Sign-ins that did not complete.''
      else [])"

section \<open>Labels\<close>

abbreviation backslash :: char where "backslash \<equiv> CHR 0x5C"
abbreviation quote :: char where "quote \<equiv> CHR 0x22"
abbreviation newline :: char where "newline \<equiv> CHR 0x0A"

definition escape_label :: "string \<Rightarrow> string" where
  "escape_label v =
     concat (map (\<lambda>c. if c = backslash then [backslash, backslash]
                      else if c = quote then [backslash, quote]
                      else if c = newline then [backslash, CHR ''n'']
                      else [c]) v)"

text \<open>The loop takes the arguments two at a time and drops an odd one out.\<close>

fun label_pairs :: "string list \<Rightarrow> string list" where
  "label_pairs (k # v # kv) = (k @ ''='' @ [quote] @ escape_label v @ [quote]) # label_pairs kv"
| "label_pairs _ = []"

definition format_labels :: "string list \<Rightarrow> string" where
  "format_labels kv = (if kv = [] then [] else ''{'' @ join '','' (label_pairs kv) @ ''}'')"

section \<open>Counting\<close>

definition new_metrics :: metrics where "new_metrics = []"

definition count_of :: "metrics \<Rightarrow> series \<Rightarrow> int" where
  "count_of m s = (case map_of m s of None \<Rightarrow> 0 | Some n \<Rightarrow> n)"

definition metrics_inc :: "string \<Rightarrow> string list \<Rightarrow> metrics \<Rightarrow> metrics" where
  "metrics_inc name labels m =
     (let s = Series name (format_labels labels) in AList.update s (count_of m s + 1) m)"

section \<open>The exposition\<close>

record gauge =
  g_name :: string
  g_help :: string
  g_labels :: string
  g_value :: int

definition series_cmp :: "series \<Rightarrow> series \<Rightarrow> int" where
  "series_cmp a b =
     or_else (compare (series_name a) (series_name b)) (compare (series_labels a) (series_labels b))"

definition header_lines :: "string \<Rightarrow> string \<Rightarrow> string \<Rightarrow> string" where
  "header_lines name help kind =
     ''# HELP '' @ name @ '' '' @ help @ [newline] @ ''# TYPE '' @ name @ '' '' @ kind @ [newline]"

definition sample_line :: "string \<Rightarrow> string \<Rightarrow> int \<Rightarrow> string" where
  "sample_line name labels n = name @ labels @ '' '' @ dec_int n @ [newline]"

fun counter_text :: "metrics \<Rightarrow> string \<Rightarrow> series list \<Rightarrow> string" where
  "counter_text m last_name [] = []"
| "counter_text m last_name (s # ss) =
     (if series_name s \<noteq> last_name
      then header_lines (series_name s) (counter_help (series_name s)) ''counter'' else [])
     @ sample_line (series_name s) (series_labels s) (count_of m s)
     @ counter_text m (series_name s) ss"

fun gauge_text :: "string \<Rightarrow> gauge list \<Rightarrow> string" where
  "gauge_text last_name [] = []"
| "gauge_text last_name (g # gs) =
     (if g_name g \<noteq> last_name then header_lines (g_name g) (g_help g) ''gauge'' else [])
     @ sample_line (g_name g) (g_labels g) (g_value g)
     @ gauge_text (g_name g) gs"

definition write_to :: "metrics \<Rightarrow> gauge list \<Rightarrow> string" where
  "write_to m gauges =
     counter_text m [] (sort_stable_func series_cmp (map fst m)) @ gauge_text [] gauges"

section \<open>Escaping\<close>

text \<open>How a scraper reads a label value back.\<close>

fun unescape_label :: "string \<Rightarrow> string option" where
  "unescape_label [] = Some []"
| "unescape_label [c] = (if c = backslash \<or> c = quote \<or> c = newline then None else Some [c])"
| "unescape_label (c # d # s) =
     (if c = quote \<or> c = newline then None
      else if c \<noteq> backslash then map_option ((#) c) (unescape_label (d # s))
      else if d = CHR ''n'' then map_option ((#) newline) (unescape_label s)
      else if d = backslash \<or> d = quote then map_option ((#) d) (unescape_label s)
      else None)"

lemma escape_label_Cons:
  "escape_label (c # v) =
     (if c = backslash then [backslash, backslash] else if c = quote then [backslash, quote]
      else if c = newline then [backslash, CHR ''n''] else [c]) @ escape_label v"
  by (simp add: escape_label_def)

lemma escape_label_Nil [simp]: "escape_label [] = []"
  by (simp add: escape_label_def)

lemma unescape_plain:
  "c \<noteq> backslash \<Longrightarrow> c \<noteq> quote \<Longrightarrow> c \<noteq> newline \<Longrightarrow>
   unescape_label (c # s) = map_option ((#) c) (unescape_label s)"
  by (cases s) auto

lemma unescape_escape: "unescape_label (escape_label v) = Some v"
  by (induction v) (auto simp: escape_label_Cons unescape_plain)

lemma escape_no_newline: "newline \<notin> set (escape_label v)"
  by (induction v) (auto simp: escape_label_Cons)

section \<open>Counts\<close>

definition series_of :: "string \<times> string list \<Rightarrow> series" where
  "series_of e = Series (fst e) (format_labels (snd e))"

definition run_incs :: "(string \<times> string list) list \<Rightarrow> metrics" where
  "run_incs incs = fold (\<lambda>e. metrics_inc (fst e) (snd e)) incs new_metrics"

lemma metrics_inc_count:
  "count_of (metrics_inc n ls m) s = count_of m s + (if s = series_of (n, ls) then 1 else 0)"
  by (simp add: metrics_inc_def count_of_def series_of_def update_conv' Let_def)

lemma metrics_inc_keys:
  "set (map fst (metrics_inc n ls m)) = insert (series_of (n, ls)) (set (map fst m))"
  "distinct (map fst m) \<Longrightarrow> distinct (map fst (metrics_inc n ls m))"
  by (auto simp: metrics_inc_def series_of_def Let_def dom_update distinct_update)

lemma fold_incs:
  "distinct (map fst m) \<Longrightarrow>
   (let m' = fold (\<lambda>e. metrics_inc (fst e) (snd e)) incs m in
    distinct (map fst m') \<and> set (map fst m') = set (map fst m) \<union> series_of ` set incs
    \<and> (\<forall>s. count_of m' s = count_of m s + int (length (filter (\<lambda>e. series_of e = s) incs))))"
proof (induction incs arbitrary: m)
  case (Cons e incs)
  from Cons.IH [OF metrics_inc_keys(2) [OF Cons.prems, of "fst e" "snd e"]] show ?case
    unfolding Let_def fold_simps metrics_inc_keys(1) by (auto simp: metrics_inc_count)
qed (simp add: Let_def)

lemma run_incs_facts:
  "distinct (map fst (run_incs incs))" "set (map fst (run_incs incs)) = series_of ` set incs"
  "count_of (run_incs incs) s = int (length (filter (\<lambda>e. series_of e = s) incs))"
  using fold_incs [of "[]" incs] by (simp_all add: run_incs_def new_metrics_def Let_def count_of_def)

section \<open>Order\<close>

lemma series_cmp_le: "series_cmp a b \<le> 0 \<longleftrightarrow> a \<le> b"
  by (auto simp: series_cmp_def or_else_def compare_def less_eq_series_def)

interpretation series_order: preorder_cmp series_cmp
  by unfold_locales (auto simp: series_cmp_le)

lemma sorted_series: "sorted (sort_stable_func series_cmp ss)"
proof -
  have "sorted_wrt (\<lambda>a b. series_cmp a b \<le> 0) (sort_stable_func series_cmp ss)"
    by (rule series_order.sorted_sort_stable)
  then show ?thesis by (simp add: series_cmp_le)
qed

lemma sort_series_eq:
  "distinct ss \<Longrightarrow> sort_stable_func series_cmp ss = sorted_list_of_set (set ss)"
  by (intro sorted_distinct_set_unique) (simp_all add: sorted_series)

section \<open>Reading the exposition back\<close>

definition is_comment :: "string \<Rightarrow> bool" where "is_comment l = has_prefix l ''#''"

definition type_line :: "string \<Rightarrow> string" where "type_line name = ''# TYPE '' @ name @ '' counter''"

fun counter_lines :: "metrics \<Rightarrow> string \<Rightarrow> series list \<Rightarrow> string list" where
  "counter_lines m last_name [] = []"
| "counter_lines m last_name (s # ss) =
     (if series_name s \<noteq> last_name
      then [''# HELP '' @ series_name s @ '' '' @ counter_help (series_name s), type_line (series_name s)] else [])
     @ (series_name s @ series_labels s @ '' '' @ dec_int (count_of m s)) # counter_lines m (series_name s) ss"

definition ended :: "string list \<Rightarrow> string" where
  "ended ls = concat (map (\<lambda>l. l @ [newline]) ls)"

lemma counter_text_lines: "counter_text m n ss = ended (counter_lines m n ss)"
  by (induction ss arbitrary: n) (simp_all add: ended_def header_lines_def type_line_def sample_line_def)

lemma split_ended: "\<forall>l\<in>set ls. newline \<notin> set l \<Longrightarrow> split_on newline (ended ls) = ls @ [[]]"
  by (induction ls) (simp_all add: ended_def split_on_append_sep)

text \<open>Series whose name is a metric name and whose labels cannot break a line.\<close>

definition metric_names :: "string list" where
  "metric_names = [metric_issued, metric_denied, metric_rate_limited, metric_revoked, metric_sign_in]"

definition series_ok :: "series \<Rightarrow> bool" where
  "series_ok s \<longleftrightarrow> series_name s \<in> set metric_names \<and> newline \<notin> set (series_labels s)"

lemma metric_names_plain:
  assumes "n \<in> set metric_names"
  shows "newline \<notin> set n \<and> \<not> is_comment (n @ s) \<and> newline \<notin> set (counter_help n) \<and> n \<noteq> []"
proof -
  have "list_all (\<lambda>n. newline \<notin> set n \<and> hd n \<noteq> CHR ''#'' \<and> newline \<notin> set (counter_help n) \<and> n \<noteq> []) metric_names"
    by code_simp
  then have *: "newline \<notin> set n \<and> hd n \<noteq> CHR ''#'' \<and> newline \<notin> set (counter_help n) \<and> n \<noteq> []"
    using assms unfolding list_all_iff by blast
  then show ?thesis by (cases n) (auto simp: is_comment_def)
qed

lemma dec_int_no_newline: "newline \<notin> set (dec_int i)"
  by (auto simp: dec_int_def is_digit_def dest!: dec_nat_chars)

lemma counter_lines_plain:
  "\<forall>s\<in>set ss. series_ok s \<Longrightarrow> \<forall>l\<in>set (counter_lines m n ss). newline \<notin> set l"
  by (induction ss arbitrary: n)
    (auto simp: series_ok_def type_line_def dec_int_no_newline dest: metric_names_plain)

lemma counter_lines_samples:
  "\<forall>s\<in>set ss. series_ok s \<Longrightarrow>
   filter (\<lambda>l. \<not> is_comment l) (counter_lines m n ss)
     = map (\<lambda>s. series_name s @ series_labels s @ '' '' @ dec_int (count_of m s)) ss"
  using metric_names_plain
  by (induction ss arbitrary: n) (simp_all add: series_ok_def, simp_all add: is_comment_def type_line_def)

lemma type_line_iff: "has_prefix l ''# TYPE '' \<Longrightarrow> is_comment l"
  by (cases l) (auto simp: is_comment_def)

lemma counter_lines_types:
  "\<forall>s\<in>set ss. series_ok s \<Longrightarrow>
   filter (\<lambda>l. has_prefix l ''# TYPE '') (counter_lines m n ss)
     = map type_line (tl (remdups_adj (n # map series_name ss)))"
proof (induction ss arbitrary: n)
  case (Cons s ss)
  have "\<not> has_prefix (series_name s @ r) ''# TYPE ''" for r
    using Cons.prems metric_names_plain [of "series_name s"] type_line_iff by (auto simp: series_ok_def)
  moreover have "has_prefix (type_line (series_name s)) ''# TYPE ''" by (simp add: type_line_def)
  moreover have "\<not> has_prefix (''# HELP '' @ r) ''# TYPE ''" for r by simp
  moreover have "type_line (series_name s) # map type_line (tl (remdups_adj (series_name s # map series_name ss)))
      = map type_line (remdups_adj (series_name s # map series_name ss))"
    using remdups_adj_Cons_alt [of "series_name s" "map series_name ss"] by (metis list.simps(9))
  ultimately show ?case
    using Cons.IH [of "series_name s"] Cons.prems by (cases "n = series_name s") (simp_all del: has_prefix.simps)
qed simp

lemma sorted_remdups_adj:
  "sorted (xs :: 'a::linorder list) \<Longrightarrow> distinct (remdups_adj xs)"
  by (induction xs rule: remdups_adj.induct) (auto simp: order.antisym)

lemma sorted_series_names:
  "sorted (ss :: series list) \<Longrightarrow> sorted (map series_name ss)"
  by (induction ss) (auto simp: less_eq_series_def)

lemma distinct_type_lines: "distinct (map type_line ns) = distinct ns"
  by (simp add: distinct_map inj_on_def type_line_def)

text \<open>Label keys are constants of the code; only the values vary.\<close>

fun plain_keys :: "string list \<Rightarrow> bool" where
  "plain_keys (k # v # kv) \<longleftrightarrow> newline \<notin> set k \<and> plain_keys kv"
| "plain_keys _ \<longleftrightarrow> True"

lemma format_labels_plain: "plain_keys kv \<Longrightarrow> newline \<notin> set (format_labels kv)"
proof -
  assume "plain_keys kv"
  then have "\<forall>w\<in>set (label_pairs kv). newline \<notin> set w"
    by (induction kv rule: label_pairs.induct) (auto simp: escape_no_newline)
  then show ?thesis using set_join_subset [of "'',''" "label_pairs kv"] by (auto simp: format_labels_def)
qed

text \<open>
  C27. A scraper reads exactly what was counted. After any increments, of the metrics the portal
  has and with any label values whatever, the exposition has one sample line for each series that
  was incremented, in order, with the number of its increments; no metric is declared twice; and a
  label value is read back unchanged.
\<close>

theorem metrics_exact:
  assumes "\<forall>e\<in>set incs. fst e \<in> set metric_names \<and> plain_keys (snd e)"
  shows "filter (\<lambda>l. l \<noteq> [] \<and> \<not> is_comment l) (split_on newline (write_to (run_incs incs) []))
       = map (\<lambda>s. series_name s @ series_labels s @ '' ''
                   @ dec_int (int (length (filter (\<lambda>e. series_of e = s) incs))))
             (sorted_list_of_set (series_of ` set incs))
     \<and> distinct (filter (\<lambda>l. has_prefix l ''# TYPE '') (split_on newline (write_to (run_incs incs) [])))
     \<and> unescape_label (escape_label v) = Some v"
proof -
  let ?m = "run_incs incs" and ?ss = "sorted_list_of_set (series_of ` set incs)"
  have t: "write_to ?m [] = ended (counter_lines ?m [] ?ss)"
    using run_incs_facts(1,2) [of incs] by (simp add: write_to_def sort_series_eq counter_text_lines)
  have ok: "\<forall>s\<in>set ?ss. series_ok s"
    using assms by (auto simp: series_ok_def series_of_def format_labels_plain)
  note lines = split_ended [OF counter_lines_plain [OF ok, of ?m "[]"]]
  have "filter (\<lambda>l. l \<noteq> [] \<and> \<not> is_comment l) (counter_lines ?m [] ?ss @ [[]])
      = filter (\<lambda>l. l \<noteq> []) (filter (\<lambda>l. \<not> is_comment l) (counter_lines ?m [] ?ss))"
    by (simp add: conj_commute)
  also have "\<dots> = map (\<lambda>s. series_name s @ series_labels s @ '' '' @ dec_int (count_of ?m s)) ?ss"
    unfolding counter_lines_samples [OF ok] by (simp add: filter_id_conv)
  finally have 1: "filter (\<lambda>l. l \<noteq> [] \<and> \<not> is_comment l) (counter_lines ?m [] ?ss @ [[]])
      = map (\<lambda>s. series_name s @ series_labels s @ '' '' @ dec_int (count_of ?m s)) ?ss" .
  have "distinct (tl (remdups_adj ([] # map series_name ?ss)))"
    by (intro distinct_tl sorted_remdups_adj) (simp add: sorted_series_names)
  then have 2: "distinct (filter (\<lambda>l. has_prefix l ''# TYPE '') (counter_lines ?m [] ?ss @ [[]]))"
    using counter_lines_types [OF ok, of ?m "[]"] by (simp add: distinct_type_lines)
  show ?thesis unfolding t lines using 1 2 by (simp add: run_incs_facts(3) unescape_escape)
qed

definition example_incs :: "(string \<times> string list) list" where
  "example_incs =
     [(metric_issued, [''kind'', ''vpn'']), (metric_denied, []), (metric_issued, [''kind'', ''vpn''])]"

theorem metrics_exact_witness:
  "split_on newline (write_to (run_incs example_incs) [])
     = [''# HELP gruff_authorization_denied_total Requests refused because the caller lacked the role.'',
        ''# TYPE gruff_authorization_denied_total counter'', ''gruff_authorization_denied_total 1'',
        ''# HELP gruff_certificates_issued_total Certificates issued, by credential kind and profile.'',
        ''# TYPE gruff_certificates_issued_total counter'',
        ''gruff_certificates_issued_total{kind='' @ [quote] @ ''vpn'' @ [quote] @ ''} 2'', []]
   \<and> distinct (filter (\<lambda>l. has_prefix l ''# TYPE '') (split_on newline (write_to (run_incs example_incs) [])))
   \<and> unescape_label (escape_label [quote, newline]) = Some [quote, newline]"
proof -
  have "split_on newline (write_to (run_incs example_incs) [])
     = [''# HELP gruff_authorization_denied_total Requests refused because the caller lacked the role.'',
        ''# TYPE gruff_authorization_denied_total counter'', ''gruff_authorization_denied_total 1'',
        ''# HELP gruff_certificates_issued_total Certificates issued, by credential kind and profile.'',
        ''# TYPE gruff_certificates_issued_total counter'',
        ''gruff_certificates_issued_total{kind='' @ [quote] @ ''vpn'' @ [quote] @ ''} 2'', []]"
    by code_simp
  moreover have "\<forall>e\<in>set example_incs. fst e \<in> set metric_names \<and> plain_keys (snd e)"
    by (simp add: example_incs_def metric_names_def)
  ultimately show ?thesis using metrics_exact [of example_incs "[quote, newline]"] by blast
qed

end
