(* ===== verification/Atomic_File.thy ===== *)
theory Atomic_File
  imports File_System
begin

text \<open>
  \<^verbatim>\<open>internal/atomicfile/atomicfile.go\<close>: replacing a file in one rename. The rendering callback is
  the list of the writes it makes, which stop at the first that fails, as in every caller.
\<close>

section \<open>The operation\<close>

datatype write_error =
    CannotCreateTemp string
  | CannotChmod string
  | CannotRender string
  | CannotSync string
  | CannotClose string
  | CannotReplace string
  | CannotOpenDir string
  | CannotSyncDir string

fun write_chunks :: "string \<Rightarrow> string list \<Rightarrow> world \<Rightarrow> bool \<times> world" where
  "write_chunks p [] w = (True, w)"
| "write_chunks p (c # cs) w =
     (case sys_write p c w of
        (False, w) \<Rightarrow> (False, w)
      | (True, w) \<Rightarrow> write_chunks p cs w)"

definition sync_dir :: "string \<Rightarrow> world \<Rightarrow> (write_error + unit) \<times> world" where
  "sync_dir dir w =
     (case sys_open_dir dir w of
        (False, w) \<Rightarrow> (Inl (CannotOpenDir dir), w)
      | (True, w) \<Rightarrow>
          (case sys_sync_dir dir w of
             (False, w) \<Rightarrow> (Inl (CannotSyncDir dir), snd (sys_close dir w))
           | (True, w) \<Rightarrow> (Inr (), snd (sys_close dir w))))"

definition fill_temp ::
  "string \<Rightarrow> nat \<Rightarrow> string list \<Rightarrow> string \<Rightarrow> world \<Rightarrow> (write_error + unit) \<times> world" where
  "fill_temp path mode body tmp w =
     (case sys_chmod tmp mode w of
        (False, w) \<Rightarrow> (Inl (CannotChmod tmp), snd (sys_close tmp w))
      | (True, w) \<Rightarrow>
     (case write_chunks tmp body w of
        (False, w) \<Rightarrow> (Inl (CannotRender path), snd (sys_close tmp w))
      | (True, w) \<Rightarrow>
     (case sys_fsync tmp w of
        (False, w) \<Rightarrow> (Inl (CannotSync path), snd (sys_close tmp w))
      | (True, w) \<Rightarrow>
     (case sys_close tmp w of
        (False, w) \<Rightarrow> (Inl (CannotClose path), w)
      | (True, w) \<Rightarrow> (Inr (), w)))))"

definition write_body ::
  "string \<Rightarrow> nat \<Rightarrow> string list \<Rightarrow> string \<Rightarrow> world \<Rightarrow> (write_error + unit) \<times> world" where
  "write_body path mode body tmp w =
     (case fill_temp path mode body tmp w of
        (Inl e, w) \<Rightarrow> (Inl e, w)
      | (Inr _, w) \<Rightarrow>
          (case sys_rename tmp path w of
             (False, w) \<Rightarrow> (Inl (CannotReplace path), w)
           | (True, w) \<Rightarrow> sync_dir (path_dir path) w))"

text \<open>\<^verbatim>\<open>Write\<close>: the deferred \<^verbatim>\<open>os.Remove\<close> runs whatever the body returned.\<close>

definition atomic_write ::
  "string \<Rightarrow> nat \<Rightarrow> string list \<Rightarrow> world \<Rightarrow> (write_error + unit) \<times> world" where
  "atomic_write path mode body w =
     (case sys_create_temp (path_dir path) (''.'' @ path_base path @ ''.'') w of
        (None, w) \<Rightarrow> (Inl (CannotCreateTemp path), w)
      | (Some tmp, w) \<Rightarrow>
          (case write_body path mode body tmp w of
             (r, w) \<Rightarrow> (r, snd (sys_remove tmp w))))"

section \<open>While the temporary file is being built\<close>

text \<open>\<open>draft m0 tmp x w\<close>: the files are \<open>m0\<close> with \<open>x\<close> under the temporary name.\<close>

definition draft :: "files \<Rightarrow> string \<Rightarrow> entry \<Rightarrow> world \<Rightarrow> bool" where
  "draft m0 tmp x w \<longleftrightarrow> w_files w = m0(tmp \<mapsto> x)"

abbreviation drafting :: "files \<Rightarrow> string \<Rightarrow> files \<Rightarrow> bool" where
  "drafting m0 tmp m \<equiv> \<exists>x. m = m0(tmp \<mapsto> x)"

text \<open>A call that only touches the draft.\<close>

definition drafts :: "files \<Rightarrow> string \<Rightarrow> world \<Rightarrow> world \<Rightarrow> bool" where
  "drafts m0 tmp w w' \<longleftrightarrow>
     within (drafting m0 tmp) w w' \<and> w_dirs w' = w_dirs w \<and> (\<exists>x. draft m0 tmp x w')"

lemma drafts_trans [trans]: "drafts m0 tmp w w' \<Longrightarrow> drafts m0 tmp w' w'' \<Longrightarrow> drafts m0 tmp w w''"
  by (auto simp: drafts_def intro: within_trans)

lemma drafts_refl: "draft m0 tmp x w \<Longrightarrow> drafts m0 tmp w w"
  by (auto simp: drafts_def)

lemma within_seen: "w_seen w' = w_seen w \<Longrightarrow> within P w w'"
  by (simp add: within_def)

lemma within_start: "within P w w' \<Longrightarrow> w_seen w = w_seen v \<Longrightarrow> within P v w'"
  by (simp add: within_def)

lemma change_file_drafts:
  assumes "draft m0 tmp x w"
  shows "draft m0 tmp (f x) (change_file tmp f w)" "drafts m0 tmp w (change_file tmp f w)"
proof -
  show d: "draft m0 tmp (f x) (change_file tmp f w)"
    using assms by (simp add: draft_def change_file_def put_files_def)
  have "within (drafting m0 tmp) w (change_file tmp f w)"
    using assms by (auto simp: draft_def change_file_def)
  moreover have "w_dirs (change_file tmp f w) = w_dirs w"
    by (simp add: change_file_def put_files_def split: option.split)
  ultimately show "drafts m0 tmp w (change_file tmp f w)" using d by (auto simp: drafts_def)
qed

lemma fault_drafts:
  assumes "next_fault w = (flt, v)" "draft m0 tmp x w"
  shows "draft m0 tmp x v" "drafts m0 tmp w v"
  using next_fault_frame [OF assms(1)] assms(2)
  by (auto simp: draft_def drafts_def intro: within_seen)

lemmas draft_steps = change_file_drafts fault_drafts

lemma fault_change_drafts:
  assumes "next_fault w = (flt, v)" "draft m0 tmp x w"
  shows "draft m0 tmp (f x) (change_file tmp f v)" "drafts m0 tmp w (change_file tmp f v)"
  using assms by (blast intro: draft_steps drafts_trans)+

lemma sys_chmod_drafts:
  assumes "draft m0 tmp x w" "sys_chmod tmp mode w = (ok, w')"
  shows "drafts m0 tmp w w' \<and> (ok \<longrightarrow> draft m0 tmp (x\<lparr>f_mode := mode\<rparr>) w')"
  using assms fault_drafts [OF _ assms(1)] fault_change_drafts [OF _ assms(1)]
  by (fastforce simp: sys_chmod_def split: prod.splits fault.splits)

lemma sys_write_drafts:
  assumes "draft m0 tmp x w" "sys_write tmp s w = (ok, w')"
  shows "drafts m0 tmp w w' \<and> (ok \<longrightarrow> draft m0 tmp (append_data s x) w')"
  using assms fault_change_drafts [OF _ assms(1)]
  by (fastforce simp: sys_write_def split: prod.splits fault.splits)

lemma sys_fsync_drafts:
  assumes "draft m0 tmp x w" "sys_fsync tmp w = (ok, w')"
  shows "drafts m0 tmp w w' \<and> (ok \<longrightarrow> draft m0 tmp (x\<lparr>f_synced := True\<rparr>) w')"
  using assms fault_drafts [OF _ assms(1)] fault_change_drafts [OF _ assms(1)]
  by (fastforce simp: sys_fsync_def split: prod.splits fault.splits)

lemma sys_close_drafts:
  assumes "draft m0 tmp x w" "sys_close tmp w = (ok, w')"
  shows "drafts m0 tmp w w'" "draft m0 tmp x w'"
  using assms fault_drafts [OF _ assms(1)]
  by (auto simp: sys_close_def split: prod.splits fault.splits)

lemma write_chunks_drafts:
  assumes "draft m0 tmp x w" "write_chunks tmp cs w = (ok, w')"
  shows "drafts m0 tmp w w'
    \<and> (ok \<longrightarrow> (\<exists>b. draft m0 tmp (x\<lparr>f_data := f_data x @ concat cs, f_synced := b\<rparr>) w'))"
  using assms
proof (induction cs arbitrary: x w)
  case Nil
  have "draft m0 tmp (x\<lparr>f_synced := f_synced x\<rparr>) w" using Nil by simp
  then have "\<exists>b. draft m0 tmp (x\<lparr>f_synced := b\<rparr>) w" by blast
  with Nil show ?case by (auto intro: drafts_refl)
next
  case (Cons c cs)
  obtain ok1 w1 where w1: "sys_write tmp c w = (ok1, w1)" by fastforce
  note first = sys_write_drafts [OF Cons.prems(1) w1]
  show ?case
  proof (cases ok1)
    case True
    with Cons.prems(2) w1 have "write_chunks tmp cs w1 = (ok, w')" by simp
    with Cons.IH [OF _ this] first True show ?thesis
      by (fastforce simp: append_data_def intro: drafts_trans)
  next
    case False
    with Cons.prems(2) w1 first show ?thesis by auto
  qed
qed

section \<open>The outcome\<close>

text \<open>
  What a reader can see while \<open>path\<close> is replaced: the files as they were, possibly with a draft
  under a fresh name, or the files with the complete new entry.
\<close>

definition visible :: "files \<Rightarrow> string \<Rightarrow> string \<Rightarrow> entry \<Rightarrow> files \<Rightarrow> bool" where
  "visible m0 tmp path new m \<longleftrightarrow> (\<exists>x. m = m0(tmp \<mapsto> x)) \<or> m = m0(path \<mapsto> new) \<or> m = m0"

definition after_sync :: "files \<Rightarrow> string \<Rightarrow> entry \<Rightarrow> (write_error + unit) \<Rightarrow> world \<Rightarrow> bool" where
  "after_sync m0 path new r w \<longleftrightarrow>
     w_files w = m0(path \<mapsto> new)
     \<and> (r = Inr () \<longrightarrow> path_dir path \<in> set (w_durable w))
     \<and> (\<forall>e. r = Inl e \<longrightarrow> e = CannotOpenDir (path_dir path) \<or> e = CannotSyncDir (path_dir path))"

lemma sync_dir_frame:
  assumes "sync_dir d w = (r, w')"
  shows "w_files w' = w_files w \<and> w_seen w' = w_seen w
    \<and> (r = Inr () \<longrightarrow> d \<in> set (w_durable w')) \<and> (\<forall>e. r = Inl e \<longrightarrow> e = CannotOpenDir d \<or> e = CannotSyncDir d)"
  using assms
  by (auto simp: sync_dir_def sys_open_dir_def sys_sync_dir_def sys_close_def
      dest!: next_fault_frame split: prod.splits fault.splits bool.splits)

lemma sys_rename_frame:
  assumes "draft m0 tmp x w" "m0 tmp = None" "tmp \<noteq> path" "sys_rename tmp path w = (ok, w')"
  shows "if ok then w_files w' = m0(path \<mapsto> x) \<and> w_seen w' = m0(path \<mapsto> x) # w_seen w
         else draft m0 tmp x w' \<and> w_seen w' = w_seen w"
proof -
  have "(m0(tmp \<mapsto> x))(tmp := None, path \<mapsto> x) = m0(path \<mapsto> x)" using assms(2) by auto
  with assms show ?thesis
    by (auto simp: sys_rename_def draft_def entry_changed_def put_files_def
        dest!: next_fault_frame split: prod.splits fault.splits if_splits)
qed

lemma drafts_visible: "drafts m0 tmp w w' \<Longrightarrow> within (visible m0 tmp path new) w w'"
  by (auto simp: drafts_def visible_def elim!: within_mono)

lemma drafts_close:
  assumes "drafts m0 tmp w v"
  shows "drafts m0 tmp w (snd (sys_close tmp v))"
proof -
  obtain x where "draft m0 tmp x v" using assms by (auto simp: drafts_def)
  then have "drafts m0 tmp v (snd (sys_close tmp v))"
    using sys_close_drafts [of m0 tmp x v "fst (sys_close tmp v)"] by simp
  with assms show ?thesis by (rule drafts_trans)
qed

lemma fill_temp_outcome:
  assumes "draft m0 tmp x w" "f_data x = []" "fill_temp path mode body tmp w = (r, w')"
  shows "drafts m0 tmp w w'
    \<and> (r = Inr () \<longrightarrow> draft m0 tmp \<lparr>f_data = concat body, f_mode = mode, f_synced = True\<rparr> w')
    \<and> (\<forall>e d. r = Inl e \<longrightarrow> e \<noteq> CannotOpenDir d \<and> e \<noteq> CannotSyncDir d)"
proof -
  obtain ok1 w1 where 1: "sys_chmod tmp mode w = (ok1, w1)" by fastforce
  obtain ok2 w2 where 2: "write_chunks tmp body w1 = (ok2, w2)" by fastforce
  obtain ok3 w3 where 3: "sys_fsync tmp w2 = (ok3, w3)" by fastforce
  obtain ok4 w4 where 4: "sys_close tmp w3 = (ok4, w4)" by fastforce
  note steps = 1 2 3 4 fill_temp_def
  note d1 = sys_chmod_drafts [OF assms(1) 1]
  show ?thesis
  proof (cases ok1)
    case False
    with assms(3) d1 show ?thesis by (auto simp: steps drafts_close)
  next
    case ok1: True
    note d2 = write_chunks_drafts [OF d1 [THEN conjunct2, rule_format, OF ok1] 2]
    have to2: "drafts m0 tmp w w2" using d1 d2 by (blast intro: drafts_trans)
    show ?thesis
    proof (cases ok2)
      case False
      with assms(3) ok1 to2 show ?thesis by (auto simp: steps drafts_close)
    next
      case ok2: True
      then obtain b where b: "draft m0 tmp (x\<lparr>f_mode := mode, f_data := concat body, f_synced := b\<rparr>) w2"
        using d2 assms(2) by auto
      note d3 = sys_fsync_drafts [OF b 3]
      have to3: "drafts m0 tmp w w3" using to2 d3 by (blast intro: drafts_trans)
      show ?thesis
      proof (cases ok3)
        case False
        with assms(3) ok1 ok2 drafts_close [OF to3] show ?thesis by (auto simp: steps)
      next
        case ok3: True
        then have "draft m0 tmp \<lparr>f_data = concat body, f_mode = mode, f_synced = True\<rparr> w3"
          using d3 by (cases x) simp
        note d4 = sys_close_drafts [OF this 4]
        have "drafts m0 tmp w w4" using to3 d4(1) by (rule drafts_trans)
        with assms(3) ok1 ok2 ok3 d4(2) show ?thesis by (auto simp: steps split: bool.splits)
      qed
    qed
  qed
qed

text \<open>Either the body failed with the draft in place, or the rename has happened.\<close>

lemma write_body_outcome:
  assumes "draft m0 tmp x w" "m0 tmp = None" "tmp \<noteq> path" "f_data x = []"
    and "write_body path mode body tmp w = (r, w')"
    and new: "new = \<lparr>f_data = concat body, f_mode = mode, f_synced = True\<rparr>"
  shows "within (visible m0 tmp path new) w w'
    \<and> (after_sync m0 path new r w'
       \<or> (\<exists>x e. draft m0 tmp x w' \<and> r = Inl e
              \<and> (\<forall>d. e \<noteq> CannotOpenDir d \<and> e \<noteq> CannotSyncDir d)))"
proof -
  obtain r1 w1 where 1: "fill_temp path mode body tmp w = (r1, w1)" by fastforce
  note d1 = fill_temp_outcome [OF assms(1,4) 1]
  obtain ok w2 where 2: "sys_rename tmp path w1 = (ok, w2)" by fastforce
  show ?thesis
  proof (cases r1)
    case (Inl e)
    with assms(5) 1 d1 show ?thesis
      by (auto simp: write_body_def drafts_visible) (auto simp: drafts_def)
  next
    case (Inr u)
    then have "draft m0 tmp new w1" using d1 by (simp add: new)
    note r2 = sys_rename_frame [OF this assms(2,3) 2]
    show ?thesis
    proof (cases ok)
      case False
      then have "within (visible m0 tmp path new) w1 w2" using r2 by (simp add: within_seen)
      then have "within (visible m0 tmp path new) w w2"
        using d1 drafts_visible by (blast intro: within_trans)
      with assms(5) 1 2 Inr r2 False show ?thesis by (auto simp: write_body_def)
    next
      case True
      then have s: "sync_dir (path_dir path) w2 = (r, w')"
        using assms(5) 1 2 Inr by (simp add: write_body_def)
      have "within (visible m0 tmp path new) w1 w'"
        using r2 True sync_dir_frame [OF s] by (auto simp: within_def visible_def)
      then have "within (visible m0 tmp path new) w w'"
        using d1 drafts_visible by (blast intro: within_trans)
      then show ?thesis
        using r2 True sync_dir_frame [OF s] by (simp add: after_sync_def)
    qed
  qed
qed

text \<open>The deferred removal of the draft.\<close>

lemma sys_remove_frame:
  assumes "sys_remove p w = (ok, w')"
  shows "if ok then w_files w' = (w_files w)(p := None)
              \<and> w_seen w' = (w_files w)(p := None) # w_seen w \<and> w_files w p \<noteq> None
         else w_files w' = w_files w \<and> w_seen w' = w_seen w \<and> w_durable w' = w_durable w"
  using assms
  by (auto simp: sys_remove_def entry_changed_def put_files_def
      dest!: next_fault_frame split: prod.splits fault.splits if_splits)

lemma sys_remove_works:
  "w_faults w = [] \<Longrightarrow> w_files w p \<noteq> None \<Longrightarrow> fst (sys_remove p w)"
  by (auto simp: sys_remove_def next_fault_def)

lemma draw_name_fresh: "draw_name taken rs = Some (r, rs') \<Longrightarrow> \<not> taken r"
  by (induction rs) (auto split: if_splits)

lemma create_temp_frame:
  assumes "sys_create_temp dir base w = (res, w')"
  shows "case res of
      None \<Rightarrow> w_files w' = w_files w \<and> w_seen w' = w_seen w
    | Some tmp \<Rightarrow> slash \<notin> set base \<and> (\<exists>r. tmp = temp_path dir base r) \<and> w_files w tmp = None
        \<and> w_seen w' = w_files w' # w_seen w
        \<and> draft (w_files w) tmp \<lparr>f_data = [], f_mode = 0x180, f_synced = False\<rparr> w'"
  using assms
  by (auto simp: sys_create_temp_def draft_def entry_changed_def put_files_def
      dest!: next_fault_frame draw_name_fresh split: prod.splits fault.splits if_splits option.splits)

lemma temp_path_fresh:
  assumes "slash \<notin> set (path_base path)"
  shows "temp_path dir (''.'' @ path_base path @ ''.'') r \<noteq> path"
proof
  assume "temp_path dir (''.'' @ path_base path @ ''.'') r = path"
  then have "path_base path = (''.'' @ path_base path @ ''.'') @ dec_nat r"
    using path_base_temp [of "''.'' @ path_base path @ ''.''" dir r] assms by simp
  then have "length (path_base path) = length ((''.'' @ path_base path @ ''.'') @ dec_nat r)" by simp
  then show False by simp
qed

definition finished :: "string list \<Rightarrow> nat \<Rightarrow> entry" where
  "finished body mode = \<lparr>f_data = concat body, f_mode = mode, f_synced = True\<rparr>"

lemma atomic_write_outcome:
  assumes "atomic_write path mode body w = (r, w')"
  shows "(r = Inl (CannotCreateTemp path) \<and> w_files w' = w_files w \<and> w_seen w' = w_seen w)
    \<or> (\<exists>tmp. tmp \<noteq> path \<and> w_files w tmp = None
         \<and> within (visible (w_files w) tmp path (finished body mode)) w w'
         \<and> (after_sync (w_files w) path (finished body mode) r w'
            \<or> (\<exists>e. r = Inl e \<and> (\<forall>d. e \<noteq> CannotOpenDir d \<and> e \<noteq> CannotSyncDir d)
                  \<and> (w_files w' = w_files w \<or> (\<exists>x. w_files w' = (w_files w)(tmp \<mapsto> x))))))"
proof -
  obtain t w1 where 1: "sys_create_temp (path_dir path) (''.'' @ path_base path @ ''.'') w = (t, w1)"
    by fastforce
  note c = create_temp_frame [OF 1]
  show ?thesis
  proof (cases t)
    case None
    with assms 1 c show ?thesis by (simp add: atomic_write_def)
  next
    case (Some tmp)
    let ?new = "finished body mode" and ?m = "w_files w"
    obtain r2 w2 where 2: "write_body path mode body tmp w1 = (r2, w2)" by fastforce
    obtain ok w3 where 3: "sys_remove tmp w2 = (ok, w3)" by fastforce
    have r: "r = r2" "w' = w3" using assms 1 2 3 Some by (simp_all add: atomic_write_def)
    have tmp: "?m tmp = None" "tmp \<noteq> path" using c Some temp_path_fresh by auto
    have "draft ?m tmp \<lparr>f_data = [], f_mode = 0x180, f_synced = False\<rparr> w1" using c Some by simp
    note b = write_body_outcome [OF this tmp _ 2 finished_def]
    note rm = sys_remove_frame [OF 3]
    have "within (visible ?m tmp path ?new) w w1"
      using c Some by (auto simp: within_def visible_def draft_def)
    moreover have "within (visible ?m tmp path ?new) w1 w2" using b by simp
    moreover have "within (visible ?m tmp path ?new) w2 w3"
      using rm b tmp by (cases ok) (auto simp: within_def visible_def after_sync_def draft_def fun_upd_idem)
    ultimately have "within (visible ?m tmp path ?new) w w'" unfolding r by (blast intro: within_trans)
    moreover have "after_sync ?m path ?new r w'
      \<or> (\<exists>e. r = Inl e \<and> (\<forall>d. e \<noteq> CannotOpenDir d \<and> e \<noteq> CannotSyncDir d)
            \<and> (w_files w' = ?m \<or> (\<exists>x. w_files w' = ?m(tmp \<mapsto> x))))"
      using rm b tmp unfolding r
      by (cases ok) (auto simp: after_sync_def draft_def fun_upd_idem)
    ultimately show ?thesis using tmp by blast
  qed
qed

section \<open>A file system that works\<close>

lemma next_fault_works [simp]: "w_faults w = [] \<Longrightarrow> next_fault w = (Works, w)"
  by (simp add: next_fault_def)

lemma change_file_frame [simp]:
  "w_faults (change_file p f w) = w_faults w" "w_dirs (change_file p f w) = w_dirs w"
  "w_files (change_file p f w) q = None \<longleftrightarrow> w_files w q = None"
  by (auto simp: change_file_def put_files_def split: option.splits)

lemma write_chunks_works:
  "w_faults w = [] \<Longrightarrow>
   \<exists>w'. write_chunks p cs w = (True, w') \<and> w_faults w' = [] \<and> w_dirs w' = w_dirs w
      \<and> (w_files w' p = None \<longleftrightarrow> w_files w p = None)"
proof (induction cs arbitrary: w)
  case (Cons c cs)
  from Cons.IH [of "change_file p (append_data c) w"] Cons.prems show ?case
    by (auto simp: sys_write_def)
qed simp

lemma fill_temp_works:
  assumes "w_faults w = []"
  shows "\<exists>w'. fill_temp path mode body tmp w = (Inr (), w') \<and> w_faults w' = [] \<and> w_dirs w' = w_dirs w
      \<and> (w_files w' tmp = None \<longleftrightarrow> w_files w tmp = None)"
proof -
  let ?w = "change_file tmp (f_mode_update (\<lambda>_. mode)) w"
  obtain w' where "write_chunks tmp body ?w = (True, w')" "w_faults w' = []" "w_dirs w' = w_dirs w"
      "w_files w' tmp = None \<longleftrightarrow> w_files w tmp = None"
    using write_chunks_works [of ?w tmp body] assms by auto
  then show ?thesis
    using assms by (simp add: fill_temp_def sys_chmod_def sys_fsync_def sys_close_def)
qed

lemma draw_name_works: "\<exists>r\<in>set rs. \<not> taken r \<Longrightarrow> \<exists>r rs'. draw_name taken rs = Some (r, rs')"
  by (induction rs) auto

lemma atomic_write_works:
  assumes "w_faults w = []" "path_dir path \<in> set (w_dirs w)" "path \<notin> set (w_dirs w)"
    and base: "slash \<notin> set (path_base path)"
    and free: "\<exists>r\<in>set (w_names w). temp_path (path_dir path) (''.'' @ path_base path @ ''.'') r
      \<notin> dom (w_files w) \<union> set (w_dirs w)"
  shows "fst (atomic_write path mode body w) = Inr ()"
proof -
  let ?b = "''.'' @ path_base path @ ''.''"
  obtain tmp w1 where 1: "sys_create_temp (path_dir path) ?b w = (Some tmp, w1)" "w_faults w1 = []"
      "w_dirs w1 = w_dirs w" "w_files w1 tmp \<noteq> None"
    using assms draw_name_works [of "w_names w" "\<lambda>r. w_files w (temp_path (path_dir path) ?b r) \<noteq> None
        \<or> slice_contains (w_dirs w) (temp_path (path_dir path) ?b r)"]
    by (auto simp: sys_create_temp_def put_files_def entry_changed_def dom_def)
  obtain w2 where 2: "fill_temp path mode body tmp w1 = (Inr (), w2)" "w_faults w2 = []"
      "w_dirs w2 = w_dirs w" "w_files w2 tmp \<noteq> None"
    using fill_temp_works [OF 1(2), of path mode body tmp] 1(3,4) by auto
  have "fst (write_body path mode body tmp w1) = Inr ()"
    using 2 assms(2,3)
    by (auto simp: write_body_def sys_rename_def put_files_def entry_changed_def sync_dir_def
        sys_open_dir_def sys_sync_dir_def)
  then show ?thesis using 1
    by (cases "write_body path mode body tmp w1") (simp add: atomic_write_def)
qed

section \<open>Facts for callers\<close>

lemma atomic_write_ok:
  "atomic_write path mode body w = (Inr u, w') \<Longrightarrow> w_files w' = (w_files w)(path \<mapsto> finished body mode)"
  by (drule atomic_write_outcome) (auto simp: after_sync_def)

lemma next_fault_dirs: "next_fault w = (f, w') \<Longrightarrow> w_dirs w' = w_dirs w"
  by (simp add: next_fault_frame)

lemmas sys_defs = sys_chmod_def sys_write_def sys_fsync_def sys_close_def sys_rename_def
  sys_remove_def sys_open_dir_def sys_sync_dir_def sys_create_temp_def put_files_def entry_changed_def

lemma sys_dirs:
  "sys_chmod p m w = (ok, w') \<Longrightarrow> w_dirs w' = w_dirs w"
  "sys_write p s w = (ok, w') \<Longrightarrow> w_dirs w' = w_dirs w"
  "sys_fsync p w = (ok, w') \<Longrightarrow> w_dirs w' = w_dirs w"
  "sys_close p w = (ok, w') \<Longrightarrow> w_dirs w' = w_dirs w"
  "sys_rename p q w = (ok, w') \<Longrightarrow> w_dirs w' = w_dirs w"
  "sys_remove p w = (ok, w') \<Longrightarrow> w_dirs w' = w_dirs w"
  "sys_open_dir p w = (ok, w') \<Longrightarrow> w_dirs w' = w_dirs w"
  "sys_sync_dir p w = (ok, w') \<Longrightarrow> w_dirs w' = w_dirs w"
  "sys_create_temp p b w = (t, w') \<Longrightarrow> w_dirs w' = w_dirs w"
  by (auto simp: sys_defs dest!: next_fault_dirs
      split: prod.splits fault.splits if_splits option.splits)

lemma sys_dirs_snd [simp]:
  "w_dirs (snd (sys_close p w)) = w_dirs w" "w_dirs (snd (sys_remove p w)) = w_dirs w"
  by (rule sys_dirs [OF surjective_pairing])+

lemma write_chunks_dirs: "write_chunks p cs w = (ok, w') \<Longrightarrow> w_dirs w' = w_dirs w"
proof (induction cs arbitrary: w)
  case (Cons c cs)
  obtain ok1 w1 where "sys_write p c w = (ok1, w1)" by fastforce
  with Cons sys_dirs(2) [OF this] show ?case by (cases ok1) auto
qed simp

lemma fill_temp_dirs: "fill_temp path mode body tmp w = (r, w') \<Longrightarrow> w_dirs w' = w_dirs w"
  by (auto simp: fill_temp_def dest!: write_chunks_dirs sys_dirs split: prod.splits bool.splits)

lemma sync_dir_dirs: "sync_dir d w = (r, w') \<Longrightarrow> w_dirs w' = w_dirs w"
  by (auto simp: sync_dir_def dest!: sys_dirs split: prod.splits bool.splits)

lemma write_body_dirs: "write_body path mode body tmp w = (r, w') \<Longrightarrow> w_dirs w' = w_dirs w"
  by (auto simp: write_body_def dest!: fill_temp_dirs sync_dir_dirs sys_dirs
      split: prod.splits bool.splits sum.splits)

lemma atomic_write_dirs: "atomic_write path mode body w = (r, w') \<Longrightarrow> w_dirs w' = w_dirs w"
  by (auto simp: atomic_write_def dest!: write_body_dirs sys_dirs split: prod.splits option.splits)

text \<open>A directory is never replaced.\<close>

lemma sys_rename_onto_dir: "p \<in> set (w_dirs w) \<Longrightarrow> \<not> fst (sys_rename tmp p w)"
  by (auto simp: sys_rename_def dest!: next_fault_dirs split: prod.splits fault.splits option.splits)

lemma atomic_write_onto_dir:
  assumes "path \<in> set (w_dirs w)"
  shows "fst (atomic_write path mode body w) \<noteq> Inr u"
proof -
  have "r \<noteq> Inr u" if body: "write_body path mode body tmp w1 = (r, w2)" "w_dirs w1 = w_dirs w"
    for r tmp w1 w2
  proof (cases "fill_temp path mode body tmp w1")
    case (Pair r3 w3)
    then have "path \<in> set (w_dirs w3)" using assms that fill_temp_dirs by metis
    then have "\<not> fst (sys_rename tmp path w3)" by (rule sys_rename_onto_dir)
    with Pair body show ?thesis by (auto simp: write_body_def split: prod.splits bool.splits sum.splits)
  qed
  then show ?thesis
    by (fastforce simp: atomic_write_def dest: sys_dirs(9) split: prod.splits option.splits)
qed

section \<open>Properties\<close>

definition example_world :: world where
  "example_world =
     \<lparr>w_files = [''/vpn/crl.pem'' \<mapsto> \<lparr>f_data = ''old'', f_mode = 0x1a4, f_synced = True\<rparr>],
      w_dirs = [''/vpn''], w_durable = [''/vpn''],
      w_faults = [Works, Works, Works, Works, Works, Fails 0], w_names = [7], w_seen = []\<rparr>"

text \<open>
  C3. A reader of the file being replaced never sees a partial one: whichever call fails, every
  state that was visible while \<^verbatim>\<open>Write\<close> ran has either the previous file at the path or the
  complete new one, with its mode set and its contents on disk, and every other file that
  existed before is as it was.
\<close>

theorem atomic_write_readers:
  "within (\<lambda>m. (m path = w_files w path \<or> m path = Some (finished body mode))
           \<and> (\<forall>q. q \<noteq> path \<longrightarrow> w_files w q \<noteq> None \<longrightarrow> m q = w_files w q))
     w (snd (atomic_write path mode body w))"
  using atomic_write_outcome [of path mode body w "fst (atomic_write path mode body w)"
      "snd (atomic_write path mode body w)"]
  by (auto simp: within_seen visible_def elim!: within_mono)

theorem atomic_write_readers_witness:
  "within (\<lambda>m. (m ''/vpn/crl.pem'' = w_files example_world ''/vpn/crl.pem''
              \<or> m ''/vpn/crl.pem'' = Some (finished [''new''] 0x1a4))
           \<and> (\<forall>q. q \<noteq> ''/vpn/crl.pem'' \<longrightarrow> w_files example_world q \<noteq> None
                \<longrightarrow> m q = w_files example_world q))
     example_world (snd (atomic_write ''/vpn/crl.pem'' 0x1a4 [''new''] example_world))
   \<and> length (w_seen (snd (atomic_write ''/vpn/crl.pem'' 0x1a4 [''new''] example_world))) = 5"
proof
  show "length (w_seen (snd (atomic_write ''/vpn/crl.pem'' 0x1a4 [''new''] example_world))) = 5"
    by code_simp
qed (rule atomic_write_readers)

text \<open>
  What \<^verbatim>\<open>Write\<close> returns is what happened. Without an error the file is the complete new one, its
  name is durable, the temporary file is gone and nothing else changed; with an error raised
  before the directory is synced the file at the path is the previous one.
\<close>

theorem atomic_write_result:
  assumes "atomic_write path mode body w = (r, w')"
  shows "(r = Inr () \<longrightarrow> w_files w' = (w_files w)(path \<mapsto> finished body mode)
            \<and> path_dir path \<in> set (w_durable w'))
    \<and> (\<forall>e. r = Inl e \<and> (\<forall>d. e \<noteq> CannotOpenDir d \<and> e \<noteq> CannotSyncDir d) \<longrightarrow>
         w_files w' path = w_files w path)"
  using atomic_write_outcome [OF assms] by (auto simp: after_sync_def)

theorem atomic_write_result_witness:
  "\<exists>w'. atomic_write ''/vpn/crl.pem'' 0x1a4 [''new''] (example_world\<lparr>w_faults := []\<rparr>) = (Inr (), w')
      \<and> w_files w' = (w_files example_world)(''/vpn/crl.pem'' \<mapsto> finished [''new''] 0x1a4)"
proof -
  let ?w = "example_world\<lparr>w_faults := []\<rparr>"
  have "fst (atomic_write ''/vpn/crl.pem'' 0x1a4 [''new''] ?w) = Inr ()" by code_simp
  then obtain w' where w': "atomic_write ''/vpn/crl.pem'' 0x1a4 [''new''] ?w = (Inr (), w')"
    by (cases "atomic_write ''/vpn/crl.pem'' 0x1a4 [''new''] ?w") simp
  with atomic_write_result [OF w'] show ?thesis by simp
qed

end
