(* ===== verification/Ssh_Ca.thy ===== *)
theory Ssh_Ca
  imports Wire Config_Auth Atomic_File
begin

text \<open>
  \<^verbatim>\<open>internal/sshca/\<close>: issuing OpenSSH user and host certificates and writing key revocation lists.
  Keys, signatures and OpenSSH encodings belong to \<^verbatim>\<open>golang.org/x/crypto/ssh\<close> and
  \<^verbatim>\<open>crypto/ed25519\<close>, the parameter record \<open>ssh_env\<close>; a private key and a public key in wire form
  are byte strings. \<^verbatim>\<open>crypto/rand\<close> is a finite stream of bytes passed along, and a read past its end
  is the error the code handles.
\<close>

section \<open>Keys and certificates\<close>

datatype cert_type = UserCert | HostCert

record ssh_cert =
  sc_key :: string
  sc_serial :: "64 word"
  sc_type :: cert_type
  sc_key_id :: string
  sc_principals :: "string list"
  sc_valid_after :: "64 word"
  sc_valid_before :: "64 word"
  sc_extensions :: "string \<Rightarrow> string option"

record ssh_env =
  se_parse_private :: "string \<Rightarrow> string option"
  se_signer :: "string \<Rightarrow> string option"
  se_keypair :: "string \<Rightarrow> string \<times> string"
  se_new_public :: "string \<Rightarrow> string option"
  se_sign_cert :: "string \<Rightarrow> ssh_cert \<Rightarrow> string \<Rightarrow> (string \<times> string) option"
  se_marshal_private :: "string \<Rightarrow> string \<Rightarrow> string option"
  se_authorized :: "string \<Rightarrow> string"
  se_fingerprint :: "string \<Rightarrow> string"
  se_parse_authorized :: "string \<Rightarrow> (string \<times> bool) option"

text \<open>
  \<open>se_signer\<close> is \<^verbatim>\<open>NewSignerFromKey\<close> and yields the public key in wire form, \<open>se_keypair\<close> the ed25519
  pair of a seed, \<open>se_sign_cert\<close> a signed certificate in wire form and the entropy left, and
  \<open>se_parse_authorized\<close> a public key and whether it is a certificate.
\<close>

record ssh_ca =
  ca_signer :: string
  ca_key :: string

record credentials =
  cr_private_key :: string
  cr_certificate :: string
  cr_serial :: "64 word"
  cr_key_id :: string
  cr_principals :: "string list"
  cr_not_after :: instant

record host_credentials =
  hc_certificate :: string
  hc_serial :: "64 word"
  hc_principals :: "string list"
  hc_not_after :: instant

datatype ssh_error =
    CannotReadKey string
  | CannotParseKey string
  | CannotBuildSigner
  | CannotGenerateKey
  | ProfileWithoutPrincipals string
  | CannotWrapKey
  | CannotMakeSerial
  | CannotSign
  | CannotMarshalKey
  | CannotMakeKeyDir string
  | CannotWriteKey
  | CannotWritePublicKey
  | SerialZero
  | NoHostnames
  | BadHostKey
  | HostKeyIsCertificate

section \<open>The authority\<close>

definition ssh_load :: "go_env \<Rightarrow> ssh_env \<Rightarrow> string \<Rightarrow> ssh_error + ssh_ca" where
  "ssh_load genv env path =
     (case read_file genv path of
        None \<Rightarrow> Inl (CannotReadKey path)
      | Some b \<Rightarrow>
          (case se_parse_private env b of
             None \<Rightarrow> Inl (CannotParseKey path)
           | Some key \<Rightarrow>
               (case se_signer env key of
                  None \<Rightarrow> Inl CannotBuildSigner
                | Some signer \<Rightarrow> Inr \<lparr>ca_signer = signer, ca_key = key\<rparr>)))"

definition ssh_generate :: "ssh_env \<Rightarrow> string \<Rightarrow> ssh_error + ssh_ca \<times> string" where
  "ssh_generate env rng =
     (case take_bytes 32 rng of
        None \<Rightarrow> Inl CannotGenerateKey
      | Some (seed, rng) \<Rightarrow>
          (let (pub, priv) = se_keypair env seed in
           case se_signer env priv of
             None \<Rightarrow> Inl CannotBuildSigner
           | Some signer \<Rightarrow> Inr (\<lparr>ca_signer = signer, ca_key = priv\<rparr>, rng)))"

definition ssh_public_key :: "ssh_env \<Rightarrow> ssh_ca \<Rightarrow> string" where
  "ssh_public_key env ca = trim_space (se_authorized env (ca_signer ca))"

definition ssh_fingerprint :: "ssh_env \<Rightarrow> ssh_ca \<Rightarrow> string" where
  "ssh_fingerprint env ca = se_fingerprint env (ca_signer ca)"

text \<open>Eight random bytes, the top bit cleared.\<close>

definition new_serial :: "string \<Rightarrow> ssh_error + (64 word \<times> string)" where
  "new_serial rng =
     (case take_bytes 8 rng of
        None \<Rightarrow> Inl CannotMakeSerial
      | Some (b, rng) \<Rightarrow> Inr (drop_bit 1 (of_nat (read_be b)), rng))"

definition extension_map :: "string list \<Rightarrow> string \<Rightarrow> string option" where
  "extension_map names =
     (if names = [] then Map.empty else fold (\<lambda>n m. m(n \<mapsto> [])) names Map.empty)"

definition marshal_private_key :: "ssh_env \<Rightarrow> string \<Rightarrow> string \<Rightarrow> ssh_error + string" where
  "marshal_private_key env key comment =
     (case se_marshal_private env key comment of None \<Rightarrow> Inl CannotMarshalKey | Some pem \<Rightarrow> Inr pem)"

definition user_cert ::
  "string \<Rightarrow> 64 word \<Rightarrow> string \<Rightarrow> string list \<Rightarrow> instant \<Rightarrow> duration \<Rightarrow> string list \<Rightarrow> ssh_cert" where
  "user_cert pub serial key_id principals now d extensions =
     \<lparr>sc_key = pub, sc_serial = serial, sc_type = UserCert, sc_key_id = key_id,
      sc_principals = principals,
      sc_valid_after = word_of_int (unix (now - minute)),
      sc_valid_before = word_of_int (unix (now + d)),
      sc_extensions = extension_map extensions\<rparr>"

definition ssh_issue ::
  "ssh_env \<Rightarrow> ssh_ca \<Rightarrow> string \<Rightarrow> string \<Rightarrow> string list \<Rightarrow> duration \<Rightarrow> string list \<Rightarrow> instant \<Rightarrow> string
   \<Rightarrow> ssh_error + (credentials \<times> string)" where
  "ssh_issue env ca user profile principals d extensions time_now rng =
     (if principals = [] then Inl (ProfileWithoutPrincipals profile)
      else
        case take_bytes 32 rng of
          None \<Rightarrow> Inl CannotGenerateKey
        | Some (seed, rng) \<Rightarrow>
        (let (pub, priv) = se_keypair env seed in
         case se_new_public env pub of
           None \<Rightarrow> Inl CannotWrapKey
         | Some ssh_pub \<Rightarrow>
         and_then (new_serial rng) (\<lambda>(serial, rng).
         let now = truncate_second time_now; key_id = user @ ''@'' @ profile in
         case se_sign_cert env (ca_key ca) (user_cert ssh_pub serial key_id principals now d extensions) rng of
           None \<Rightarrow> Inl CannotSign
         | Some (blob, rng) \<Rightarrow>
         and_then (marshal_private_key env priv key_id) (\<lambda>pem.
         Inr (\<lparr>cr_private_key = pem, cr_certificate = trim_space (se_authorized env blob),
               cr_serial = serial, cr_key_id = key_id, cr_principals = principals,
               cr_not_after = now + d\<rparr>, rng)))))"

definition ssh_write_to :: "ssh_env \<Rightarrow> ssh_ca \<Rightarrow> string \<Rightarrow> world \<Rightarrow> (ssh_error + unit) \<times> world" where
  "ssh_write_to env ca dir w =
     (let ssh_dir = path_join dir ''ssh'' in
      case sys_mkdir_all ssh_dir w of
        (False, w) \<Rightarrow> (Inl (CannotMakeKeyDir ssh_dir), w)
      | (True, w) \<Rightarrow>
      (case marshal_private_key env (ca_key ca) ''gruff-ssh-ca'' of
         Inl e \<Rightarrow> (Inl e, w)
       | Inr pem \<Rightarrow>
      (case sys_write_file (path_join ssh_dir ''ca'') pem 0x180 w of
         (False, w) \<Rightarrow> (Inl CannotWriteKey, w)
       | (True, w) \<Rightarrow>
      (case sys_write_file (path_join ssh_dir ''ca.pub'') (ssh_public_key env ca @ [CHR 0x0A]) 0x1A4 w of
         (False, w) \<Rightarrow> (Inl CannotWritePublicKey, w)
       | (True, w) \<Rightarrow> (Inr (), w)))))"

section \<open>Host certificates\<close>

definition host_cert_validity :: duration where "host_cert_validity = 90 * 24 * hour"

definition host_cert :: "string \<Rightarrow> 64 word \<Rightarrow> string list \<Rightarrow> instant \<Rightarrow> ssh_cert" where
  "host_cert pub serial principals now =
     \<lparr>sc_key = pub, sc_serial = serial, sc_type = HostCert, sc_key_id = join '','' principals,
      sc_principals = principals,
      sc_valid_after = word_of_int (unix (now - minute)),
      sc_valid_before = word_of_int (unix (now + host_cert_validity)),
      sc_extensions = Map.empty\<rparr>"

definition sign_host ::
  "ssh_env \<Rightarrow> ssh_ca \<Rightarrow> string \<Rightarrow> string list \<Rightarrow> instant \<Rightarrow> string \<Rightarrow> ssh_error + (host_credentials \<times> string)"
where
  "sign_host env ca authorized_key principals time_now rng =
     (if principals = [] then Inl NoHostnames
      else
        case se_parse_authorized env authorized_key of
          None \<Rightarrow> Inl BadHostKey
        | Some (pub, is_cert) \<Rightarrow>
        if is_cert then Inl HostKeyIsCertificate
        else
          and_then (new_serial rng) (\<lambda>(serial, rng).
          let now = truncate_second time_now in
          case se_sign_cert env (ca_key ca) (host_cert pub serial principals now) rng of
            None \<Rightarrow> Inl CannotSign
          | Some (blob, rng) \<Rightarrow>
          Inr (\<lparr>hc_certificate = trim_space (se_authorized env blob), hc_serial = serial,
                hc_principals = principals, hc_not_after = now + host_cert_validity\<rparr>, rng)))"

definition known_hosts_line :: "ssh_env \<Rightarrow> ssh_ca \<Rightarrow> string list \<Rightarrow> string" where
  "known_hosts_line env ca patterns =
     (let patterns = (if patterns = [] then [''*''] else patterns)
      in ''@cert-authority '' @ join '','' patterns @ '' '' @ ssh_public_key env ca)"

section \<open>Revocation lists\<close>

definition krl_magic :: string where "krl_magic = ''SSHKRL'' @ [CHR 0x0A, CHR 0x00]"

fun serial_list :: "64 word list \<Rightarrow> ssh_error + string" where
  "serial_list [] = Inr []"
| "serial_list (s # ss) =
     (if s = 0 then Inl SerialZero
      else and_then (serial_list ss) (\<lambda>rest. Inr (put_u64 s @ rest)))"

definition cert_section :: "ssh_ca \<Rightarrow> 64 word list \<Rightarrow> ssh_error + string" where
  "cert_section ca serials =
     (let scope = write_string (ca_signer ca) @ write_string [] in
      if serials = [] then Inr scope
      else and_then (serial_list serials)
             (\<lambda>list. Inr (scope @ [CHR 0x20] @ write_string list)))"

definition krl :: "ssh_ca \<Rightarrow> 64 word list \<Rightarrow> instant \<Rightarrow> ssh_error + string" where
  "krl ca serials generated =
     and_then (cert_section ca serials) (\<lambda>certs.
       Inr (krl_magic @ put_u32 1
            @ put_u64 (word_of_int (unix generated)) @ put_u64 (word_of_int (unix generated))
            @ put_u64 0 @ write_string [] @ write_string ''gruff''
            @ [CHR 0x01] @ write_string certs))"

section \<open>A reader of revocation lists\<close>

text \<open>
  The format as a consumer reads it: \<open>PROTOCOL.krl\<close> with one certificate section holding at most one
  serial list. \<open>expect\<close> checks a fixed part.
\<close>

record krl_contents =
  kc_ca_key :: string
  kc_version :: "64 word"
  kc_serials :: "64 word list"

definition expect :: "string \<Rightarrow> string \<Rightarrow> string option" where
  "expect lit s = (if take (length lit) s = lit then Some (drop (length lit) s) else None)"

definition read_cert_section :: "string \<Rightarrow> (string \<times> 64 word list) option" where
  "read_cert_section s =
     Option.bind (read_string s) (\<lambda>(key, s).
     Option.bind (read_string s) (\<lambda>(_, s).
     if s = [] then Some (key, [])
     else
       Option.bind (expect [CHR 0x20] s) (\<lambda>s.
       Option.bind (read_string s) (\<lambda>(list, s).
       if s \<noteq> [] then None
       else map_option (\<lambda>ss. (key, ss)) (read_all get_u64 (length list) list)))))"

definition read_krl :: "string \<Rightarrow> krl_contents option" where
  "read_krl s =
     Option.bind (expect (krl_magic @ put_u32 1) s) (\<lambda>s.
     Option.bind (get_u64 s) (\<lambda>(version, s).
     Option.bind (get_u64 s) (\<lambda>(_, s).
     Option.bind (get_u64 s) (\<lambda>(_, s).
     Option.bind (read_string s) (\<lambda>(_, s).
     Option.bind (read_string s) (\<lambda>(_, s).
     Option.bind (expect [CHR 0x01] s) (\<lambda>s.
     Option.bind (read_string s) (\<lambda>(certs, s).
     if s \<noteq> [] then None
     else map_option (\<lambda>(key, ss). \<lparr>kc_ca_key = key, kc_version = version, kc_serials = ss\<rparr>)
            (read_cert_section certs)))))))))"

lemma expect_append [simp]: "expect lit (lit @ s) = Some s"
  by (simp add: expect_def)

lemma serial_list_Inr:
  "serial_list ss = Inr list \<longleftrightarrow> 0 \<notin> set ss \<and> list = concat (map put_u64 ss)"
  by (induction ss arbitrary: list) (auto simp: and_then_Inr_iff)

lemma length_serials [simp]: "length (concat (map put_u64 ss)) = 8 * length ss"
  by (induction ss) simp_all

lemma cert_section_Inr:
  "cert_section ca ss = Inr c \<longleftrightarrow>
   0 \<notin> set ss \<and> c = write_string (ca_signer ca) @ write_string []
     @ (if ss = [] then [] else CHR 0x20 # write_string (concat (map put_u64 ss)))"
  by (auto simp: cert_section_def Let_def and_then_Inr_iff serial_list_Inr)

lemma krl_error: "krl ca ss t = Inl e \<longleftrightarrow> 0 \<in> set ss \<and> e = SerialZero"
proof -
  have "serial_list ss = Inl e \<longleftrightarrow> 0 \<in> set ss \<and> e = SerialZero" for ss e
    by (induction ss) (auto simp: and_then_Inl_iff)
  then have "cert_section ca ss = Inl e \<longleftrightarrow> 0 \<in> set ss \<and> e = SerialZero" for e
    by (auto simp: cert_section_def Let_def and_then_Inl_iff)
  then show ?thesis by (auto simp: krl_def and_then_Inl_iff)
qed

lemma read_string_wstring:
  "length s < 2 ^ 32 \<Longrightarrow> read_string (write_string s @ r) = Some (s, r)"
  "length s < 2 ^ 32 \<Longrightarrow> read_string (write_string s) = Some (s, [])"
  using wstring.dec_enc [of s r] wstring.dec_enc [of s "[]"] by simp_all

lemma get_u64_put: "get_u64 (put_u64 x @ r) = Some (x, r)"
  by (rule u64.dec_enc) simp

lemma read_cert_section_ok:
  assumes "cert_section ca ss = Inr c" "length c < 2 ^ 32"
  shows "read_cert_section c = Some (ca_signer ca, ss)"
proof -
  have c: "c = write_string (ca_signer ca) @ write_string []
      @ (if ss = [] then [] else CHR 0x20 # write_string (concat (map put_u64 ss)))"
    using assms(1) by (simp add: cert_section_Inr)
  then have len: "length (ca_signer ca) < 2 ^ 32" "length (concat (map put_u64 ss)) < 2 ^ 32"
    using assms(2) by (auto split: if_splits)
  have list: "read_all get_u64 (length (concat (map put_u64 ss))) (concat (map put_u64 ss)) = Some ss"
    by (rule u64.read_all_bytes) simp
  have e: "expect [CHR 0x20] (CHR 0x20 # s) = Some s" for s by (simp add: expect_def)
  show ?thesis
  proof (cases "ss = []")
    case True
    then show ?thesis using c len by (simp add: read_cert_section_def read_string_wstring)
  next
    case False
    then show ?thesis
      using c len list by (simp add: read_cert_section_def read_string_wstring e)
  qed
qed

lemma krl_reads_back:
  assumes "length (ca_signer ca) + 8 * length serials + 13 < 2 ^ 32"
  shows "if 0 \<in> set serials then krl ca serials t = Inl SerialZero
    else \<exists>bs. krl ca serials t = Inr bs
      \<and> read_krl bs = Some \<lparr>kc_ca_key = ca_signer ca, kc_version = word_of_int (unix t), kc_serials = serials\<rparr>"
proof (cases "0 \<in> set serials")
  case True
  then show ?thesis by (simp add: krl_error)
next
  case False
  obtain c where c: "cert_section ca serials = Inr c"
    using False by (simp add: cert_section_Inr)
  have "length c < 2 ^ 32" using assms c by (auto simp: cert_section_Inr)
  then have "read_krl (krl_magic @ put_u32 1 @ put_u64 (word_of_int (unix t)) @ put_u64 (word_of_int (unix t))
            @ put_u64 0 @ write_string [] @ write_string ''gruff'' @ [CHR 0x01] @ write_string c)
      = Some \<lparr>kc_ca_key = ca_signer ca, kc_version = word_of_int (unix t), kc_serials = serials\<rparr>"
    using expect_append [of "krl_magic @ put_u32 1"] expect_append [of "[CHR 0x01]"]
    by (simp add: read_krl_def get_u64_put read_string_wstring read_cert_section_ok [OF c])
  with c False show ?thesis by (simp add: krl_def)
qed

text \<open>
  C4. A revocation list says exactly what was asked: read back as \<open>PROTOCOL.krl\<close>, it is scoped to
  this CA's key and lists the given serials in order; building it fails exactly when serial 0, the
  one that would match every certificate without a serial, is among them.
\<close>

theorem krl_lists_exactly:
  assumes "length (ca_signer ca) + 8 * length serials + 13 < 2 ^ 32"
  shows "if 0 \<in> set serials then krl ca serials t = Inl SerialZero
    else \<exists>bs. krl ca serials t = Inr bs
      \<and> read_krl bs = Some \<lparr>kc_ca_key = ca_signer ca, kc_version = word_of_int (unix t), kc_serials = serials\<rparr>"
  using krl_reads_back [OF assms] .

theorem krl_lists_exactly_witness:
  "\<exists>bs. krl \<lparr>ca_signer = ''key'', ca_key = []\<rparr> [7, 1] (5 * second) = Inr bs
     \<and> read_krl bs = Some \<lparr>kc_ca_key = ''key'', kc_version = 5, kc_serials = [7, 1]\<rparr>"
  using krl_lists_exactly [of "\<lparr>ca_signer = ''key'', ca_key = []\<rparr>" "[7, 1]" "5 * second"]
  by (simp add: unix_def)

section \<open>What is issued\<close>

lemma extension_map_eq: "extension_map names n = (if n \<in> set names then Some [] else None)"
proof -
  have "fold (\<lambda>n m. m(n \<mapsto> [])) names m n = (if n \<in> set names then Some [] else m n)" for m
    by (induction names arbitrary: m) auto
  then show ?thesis by (auto simp: extension_map_def)
qed

lemma new_serial_bound: "new_serial rng = Inr (s, rng') \<Longrightarrow> unat s < 2 ^ 63"
proof -
  assume "new_serial rng = Inr (s, rng')"
  then obtain w :: "64 word" where "s = drop_bit 1 w"
    by (auto simp: new_serial_def split: option.splits)
  moreover have "unat w < 2 ^ 64" using unsigned_less [of w] by simp
  moreover have "unat (drop_bit 1 w) = unat w div 2"
    using calculation(2) unfolding unsigned_drop_bit_eq
    by (simp add: drop_bit_eq_div take_bit_nat_eq_self)
  ultimately show ?thesis by simp
qed

text \<open>
  The serial can be zero, which stands for none in a certificate and which \<^verbatim>\<open>KRL\<close> refuses to
  revoke: two of the \<open>2 ^ 64\<close> values of the eight random bytes give it.
\<close>

lemma new_serial_can_be_zero: "new_serial (replicate 8 (CHR 0x00)) = Inr (0, [])"
  by code_simp

definition window_ok :: "instant \<Rightarrow> duration \<Rightarrow> bool" where
  "window_ok now d \<longleftrightarrow> 2 * minute \<le> now \<and> 0 < d \<and> now + d < 2 ^ 63 * second"

lemma uint_unix:
  assumes "0 \<le> t" "t < 2 ^ 63 * second"
  shows "uint (word_of_int (unix t) :: 64 word) = t div second"
proof -
  have "0 \<le> t div second" using assms(1) by (simp add: pos_imp_zdiv_nonneg_iff)
  moreover have "t div second < 2 ^ 63" using assms(2) by (simp add: div_less_iff_less_mult)
  ultimately show ?thesis
    by (simp add: unix_def uint_word_of_int_eq take_bit_int_eq_self)
qed

text \<open>
  The window of a certificate of either kind, whose bounds are \<^verbatim>\<open>uint64(t.Unix())\<close> of a truncated
  instant: it is already valid, it starts a minute back, and it ends no later than \<open>d\<close> from now.
\<close>

lemma cert_window:
  assumes "window_ok now d"
  defines "t \<equiv> truncate_second now"
  shows "uint (word_of_int (unix (t - minute)) :: 64 word) = now div second - 60"
    and "uint (word_of_int (unix (t + d)) :: 64 word) * second \<le> now + d"
    and "now + d - 2 * second < uint (word_of_int (unix (t + d)) :: 64 word) * second"
proof -
  have t: "t \<le> now" "now - second < t" "t = now div second * second"
    using truncate_second_le truncate_second_gt
    by (auto simp: t_def truncate_second_def minus_mod_eq_div_mult)
  have "uint (word_of_int (unix (t - minute)) :: 64 word) = (t - minute) div second"
    using assms t by (intro uint_unix) (auto simp: window_ok_def)
  also have "\<dots> = now div second - 60"
    unfolding t(3) using div_mult_self1 [of second "- 60" "now div second * second"] by simp
  finally show "uint (word_of_int (unix (t - minute)) :: 64 word) = now div second - 60" .
  have u: "uint (word_of_int (unix (t + d)) :: 64 word) = (t + d) div second"
    using assms t by (intro uint_unix) (auto simp: window_ok_def)
  have "(t + d) div second * second \<le> t + d" "t + d < (t + d) div second * second + second"
    using div_mult_mod_eq [of "t + d" second] pos_mod_bound [of second "t + d"]
      pos_mod_sign [of second "t + d"] by linarith+
  then show "uint (word_of_int (unix (t + d)) :: 64 word) * second \<le> now + d"
    "now + d - 2 * second < uint (word_of_int (unix (t + d)) :: 64 word) * second"
    using u t by linarith+
qed

text \<open>
  \<open>signed_for\<close>: the credential carries the private key of the certified public key, and the
  certificate as this CA signed it.
\<close>

definition signed_for :: "ssh_env \<Rightarrow> ssh_ca \<Rightarrow> ssh_cert \<Rightarrow> credentials \<Rightarrow> bool" where
  "signed_for env ca cert cr \<longleftrightarrow>
     (\<exists>seed pub priv. se_keypair env seed = (pub, priv)
        \<and> se_new_public env pub = Some (sc_key cert)
        \<and> se_marshal_private env priv (sc_key_id cert) = Some (cr_private_key cr))
   \<and> (\<exists>rng blob rng'. se_sign_cert env (ca_key ca) cert rng = Some (blob, rng')
        \<and> cr_certificate cr = trim_space (se_authorized env blob))"

lemma ssh_issue_Inr:
  assumes "ssh_issue env ca user profile principals d extensions now rng = Inr (cr, rng')"
  shows "principals \<noteq> [] \<and> unat (cr_serial cr) < 2 ^ 63
    \<and> cr_principals cr = principals \<and> cr_key_id cr = user @ ''@'' @ profile
    \<and> cr_not_after cr = truncate_second now + d
    \<and> (\<exists>pub. signed_for env ca (user_cert pub (cr_serial cr) (cr_key_id cr) principals
                (truncate_second now) d extensions) cr)"
proof -
  let ?id = "user @ ''@'' @ profile" and ?t = "truncate_second now"
  obtain seed rng0 pub priv ssh_pub serial rng1 blob pem where x: "principals \<noteq> []"
      "take_bytes 32 rng = Some (seed, rng0)" "se_keypair env seed = (pub, priv)"
      "se_new_public env pub = Some ssh_pub" "new_serial rng0 = Inr (serial, rng1)"
      "se_sign_cert env (ca_key ca) (user_cert ssh_pub serial ?id principals ?t d extensions) rng1
        = Some (blob, rng')"
      "se_marshal_private env priv ?id = Some pem"
      "cr = \<lparr>cr_private_key = pem, cr_certificate = trim_space (se_authorized env blob),
               cr_serial = serial, cr_key_id = ?id, cr_principals = principals,
               cr_not_after = ?t + d\<rparr>"
    using assms
    by (auto simp: ssh_issue_def and_then_Inr_iff marshal_private_key_def Let_def
        split: if_splits option.splits prod.splits)
  have "sc_key (user_cert ssh_pub serial ?id principals ?t d extensions) = ssh_pub"
    "sc_key_id (user_cert ssh_pub serial ?id principals ?t d extensions) = ?id"
    by (simp_all add: user_cert_def)
  moreover have "cr_private_key cr = pem" "cr_certificate cr = trim_space (se_authorized env blob)"
    using x(8) by simp_all
  ultimately have "signed_for env ca (user_cert ssh_pub serial ?id principals ?t d extensions) cr"
    unfolding signed_for_def using x(3,4,6,7) by metis
  then show ?thesis using x(1,8) new_serial_bound [OF x(5)] by auto
qed

lemma ssh_issued:
  assumes "ssh_issue env ca user profile principals d extensions now rng = Inr (cr, rng')"
    and "window_ok now d"
  shows "\<exists>cert. signed_for env ca cert cr \<and> sc_type cert = UserCert
    \<and> sc_key_id cert = user @ ''@'' @ profile \<and> sc_serial cert = cr_serial cr
    \<and> sc_principals cert = principals \<and> principals \<noteq> []
    \<and> (\<forall>x. sc_extensions cert x = (if x \<in> set extensions then Some [] else None))
    \<and> uint (sc_valid_after cert) = now div second - 60
    \<and> now + d - 2 * second < uint (sc_valid_before cert) * second
    \<and> uint (sc_valid_before cert) * second \<le> now + d"
proof -
  note i = ssh_issue_Inr [OF assms(1)]
  then obtain pub where s: "signed_for env ca (user_cert pub (cr_serial cr) (cr_key_id cr) principals
      (truncate_second now) d extensions) cr" by blast
  show ?thesis
    using s i cert_window [OF assms(2)]
    by (intro exI [of _ "user_cert pub (cr_serial cr) (cr_key_id cr) principals (truncate_second now) d extensions"])
      (simp add: user_cert_def extension_map_eq)
qed

text \<open>
  C8. Whatever the user's request was, the SSH credential that comes back is the certificate of a
  fresh key pair whose private half is returned with it, signed by the CA, naming exactly the
  profile's principals and extensions and \<^verbatim>\<open>user@profile\<close>, already valid, and dead no later than
  the profile's lifetime from now.
\<close>

theorem ssh_issue_certificate:
  assumes "ssh_issue env ca user profile principals d extensions now rng = Inr (cr, rng')"
    and "window_ok now d"
  shows "\<exists>cert. signed_for env ca cert cr \<and> sc_type cert = UserCert
    \<and> sc_key_id cert = user @ ''@'' @ profile \<and> sc_serial cert = cr_serial cr
    \<and> sc_principals cert = principals \<and> principals \<noteq> []
    \<and> (\<forall>x. sc_extensions cert x = (if x \<in> set extensions then Some [] else None))
    \<and> uint (sc_valid_after cert) = now div second - 60
    \<and> now + d - 2 * second < uint (sc_valid_before cert) * second
    \<and> uint (sc_valid_before cert) * second \<le> now + d"
  using ssh_issued [OF assms] .

definition toy_ssh_env :: ssh_env where
  "toy_ssh_env =
     \<lparr>se_parse_private = Some, se_signer = (\<lambda>key. Some (''pub:'' @ key)),
      se_keypair = (\<lambda>seed. (''pub:'' @ seed, seed)), se_new_public = Some,
      se_sign_cert = (\<lambda>key cert rng. map_option (\<lambda>(nonce, rng). (key @ sc_key cert, rng)) (take_bytes 32 rng)),
      se_marshal_private = (\<lambda>key comment. Some (key @ comment)),
      se_authorized = (\<lambda>blob. ''cert '' @ blob @ [CHR 0x0A]), se_fingerprint = (\<lambda>k. k),
      se_parse_authorized = (\<lambda>s. if s = [] then None else Some (s, has_prefix s ''cert''))\<rparr>"

abbreviation toy_ca :: ssh_ca where "toy_ca \<equiv> \<lparr>ca_signer = ''pub:ca'', ca_key = ''ca''\<rparr>"
abbreviation toy_now :: instant where "toy_now \<equiv> 1700000000000000000"

theorem ssh_issue_certificate_witness:
  "\<exists>cr rng' cert.
     ssh_issue toy_ssh_env toy_ca ''ann'' ''shell'' [''root''] hour [''permit-pty''] toy_now (replicate 80 (CHR ''r''))
       = Inr (cr, rng')
     \<and> signed_for toy_ssh_env toy_ca cert cr \<and> sc_key_id cert = ''ann@shell''
     \<and> uint (sc_valid_before cert) * second \<le> toy_now + hour"
proof -
  let ?r = "ssh_issue toy_ssh_env toy_ca ''ann'' ''shell'' [''root''] hour [''permit-pty''] toy_now
    (replicate 80 (CHR ''r''))"
  have "\<not> isl ?r"
    by (simp add: ssh_issue_def toy_ssh_env_def take_bytes_def new_serial_def marshal_private_key_def Let_def)
  then obtain cr rng' where r: "?r = Inr (cr, rng')" by (cases ?r) auto
  have "window_ok toy_now hour" by code_simp
  from ssh_issue_certificate [OF r this]
  obtain cert where c: "signed_for toy_ssh_env toy_ca cert cr" "sc_key_id cert = ''ann'' @ ''@'' @ ''shell''"
    "uint (sc_valid_before cert) * second \<le> toy_now + hour" by blast
  have "sc_key_id cert = ''ann@shell''" using c(2) by simp
  with r c(1,3) show ?thesis by blast
qed

text \<open>
  A host certificate is only ever made for a bare public key, with at least one hostname. It
  certifies that key under exactly those names, grants no user extension, is valid now, and for
  ninety days at most.
\<close>

theorem sign_host_certificate:
  assumes "sign_host env ca authorized_key principals now rng = Inr (hc, rng')"
    and "window_ok now host_cert_validity"
  shows "\<exists>pub (cert :: ssh_cert) rng1 blob. se_parse_authorized env authorized_key = Some (pub, False)
    \<and> se_sign_cert env (ca_key ca) cert rng1 = Some (blob, rng')
    \<and> hc_certificate hc = trim_space (se_authorized env blob)
    \<and> sc_key cert = pub \<and> sc_type cert = HostCert \<and> sc_extensions cert = Map.empty
    \<and> sc_principals cert = principals \<and> principals \<noteq> [] \<and> sc_serial cert = hc_serial hc
    \<and> uint (sc_valid_after cert) = now div second - 60
    \<and> uint (sc_valid_before cert) * second \<le> now + host_cert_validity"
proof -
  let ?t = "truncate_second now"
  obtain pub serial rng1 blob where x: "principals \<noteq> []"
      "se_parse_authorized env authorized_key = Some (pub, False)" "new_serial rng = Inr (serial, rng1)"
      "se_sign_cert env (ca_key ca) (host_cert pub serial principals ?t) rng1 = Some (blob, rng')"
      "hc = \<lparr>hc_certificate = trim_space (se_authorized env blob), hc_serial = serial,
             hc_principals = principals, hc_not_after = ?t + host_cert_validity\<rparr>"
    using assms(1)
    by (auto simp: sign_host_def and_then_Inr_iff Let_def split: if_splits option.splits prod.splits)
  show ?thesis
    using x cert_window(1,2) [OF assms(2)]
    by (intro exI [of _ pub] exI [of _ "host_cert pub serial principals ?t"] exI [of _ rng1] exI [of _ blob])
      (simp add: host_cert_def)
qed

theorem sign_host_certificate_witness:
  "\<exists>hc rng' (cert :: ssh_cert). sign_host toy_ssh_env toy_ca ''key'' [''db'', ''db.lan''] toy_now (replicate 40 (CHR ''r'')) = Inr (hc, rng')
     \<and> sc_principals cert = [''db'', ''db.lan''] \<and> sc_type cert = HostCert
     \<and> uint (sc_valid_before cert) * second \<le> toy_now + host_cert_validity
   \<and> sign_host toy_ssh_env toy_ca ''cert'' [''db''] toy_now (replicate 40 (CHR ''r'')) = Inl HostKeyIsCertificate"
proof -
  let ?r = "sign_host toy_ssh_env toy_ca ''key'' [''db'', ''db.lan''] toy_now (replicate 40 (CHR ''r''))"
  have "\<not> isl ?r"
    by (simp add: sign_host_def toy_ssh_env_def take_bytes_def new_serial_def Let_def)
  then obtain hc rng' where r: "?r = Inr (hc, rng')" by (cases ?r) auto
  have w: "window_ok toy_now host_cert_validity" by code_simp
  have "sign_host toy_ssh_env toy_ca ''cert'' [''db''] toy_now (replicate 40 (CHR ''r'')) = Inl HostKeyIsCertificate"
    by (simp add: sign_host_def toy_ssh_env_def)
  moreover from sign_host_certificate [OF r w]
  obtain cert :: ssh_cert where "sc_principals cert = [''db'', ''db.lan'']" "sc_type cert = HostCert"
    "uint (sc_valid_before cert) * second \<le> toy_now + host_cert_validity"
    by blast
  ultimately show ?thesis using r by blast
qed

end
