(* ===== verification/Pki.thy ===== *)
theory Pki
  imports Wire Config_Auth Atomic_File Go_Time
begin

text \<open>
  \<^verbatim>\<open>internal/pki/\<close>: loading and generating the X.509 authority, issuing client and server
  certificates and building the revocation list. The cryptography and the DER and PEM encodings of
  the standard library are the parameter record \<open>pki_env\<close>; the templates handed to it, the checks
  and the arithmetic on validity are the program's own.
\<close>

section \<open>Certificates and keys\<close>

datatype ext_usage = ClientAuth | ServerAuth

text \<open>The bits of \<^verbatim>\<open>x509.KeyUsage\<close>.\<close>

type_synonym key_usage = "64 word"

definition usage_digital_signature :: key_usage where "usage_digital_signature = push_bit 0 1"
definition usage_key_encipherment :: key_usage where "usage_key_encipherment = push_bit 2 1"
definition usage_key_agreement :: key_usage where "usage_key_agreement = push_bit 4 1"
definition usage_cert_sign :: key_usage where "usage_cert_sign = push_bit 5 1"
definition usage_crl_sign :: key_usage where "usage_crl_sign = push_bit 6 1"

record x509 =
  x_serial :: int
  x_organization :: "string list"
  x_unit :: "string list"
  x_common_name :: string
  x_not_before :: instant
  x_not_after :: instant
  x_is_ca :: bool
  x_key_usage :: key_usage
  x_ext_usage :: "ext_usage list"
  x_basic_constraints :: bool
  x_max_path_len_zero :: bool
  x_ips :: "addr list"
  x_dns :: "string list"
  x_public_key :: string
  x_raw :: string

text \<open>
  A private key of the standard library: whether it can sign, its public half, and whether that
  half has the \<^verbatim>\<open>Equal\<close> method.
\<close>

record private_key =
  pk_bytes :: string
  pk_signs :: bool
  pk_public :: string
  pk_comparable :: bool

record crl_entry =
  ce_serial :: int
  ce_time :: instant

record crl_template =
  ct_entries :: "crl_entry list"
  ct_number :: int
  ct_this_update :: instant
  ct_next_update :: instant

record pki_env =
  pe_decode_pem :: "string \<Rightarrow> (string \<times> string) option"
  pe_encode_pem :: "string \<Rightarrow> string \<Rightarrow> string"
  pe_parse_cert :: "string \<Rightarrow> x509 option"
  pe_parse_ec :: "string \<Rightarrow> private_key option"
  pe_parse_pkcs1 :: "string \<Rightarrow> private_key option"
  pe_parse_pkcs8 :: "string \<Rightarrow> private_key option"
  pe_marshal_pkcs8 :: "private_key \<Rightarrow> string option"
  pe_generate_key :: "string \<Rightarrow> (private_key \<times> string) option"
  pe_create_cert :: "x509 \<Rightarrow> x509 \<Rightarrow> string \<Rightarrow> private_key \<Rightarrow> string \<Rightarrow> (string \<times> string) option"
  pe_create_crl :: "crl_template \<Rightarrow> x509 \<Rightarrow> private_key \<Rightarrow> string \<Rightarrow> (string \<times> string) option"

record pki_ca =
  pc_key :: private_key
  pc_cert :: x509

record pki_credentials =
  pr_private_key :: string
  pr_certificate :: string
  pr_issuing_ca :: string
  pr_serial :: string
  pr_not_after :: instant

datatype pki_error =
    CannotRead string
  | NoPemBlock string
  | UnexpectedBlock string string
  | CannotParse string
  | CannotSignWith string
  | NotACa string
  | LacksCertSign string
  | LacksCrlSign string
  | CaExpired string
  | CaNotYetValid string
  | Incomparable string
  | KeyMismatch
  | NoSerial
  | NoKey
  | NoCertificate
  | NoParse
  | NothingToIssue string
  | NoMarshal
  | NoCommonName
  | BadSerial string
  | NoCrlNumber
  | NoCrl
  | NoCaDir string
  | NoKeyFile
  | NoCertFile

section \<open>Loading\<close>

definition read_pem :: "go_env \<Rightarrow> pki_env \<Rightarrow> string \<Rightarrow> string list \<Rightarrow> pki_error + (string \<times> string)" where
  "read_pem genv env path allowed =
     (case read_file genv path of
        None \<Rightarrow> Inl (CannotRead path)
      | Some b \<Rightarrow>
          (case pe_decode_pem env b of
             None \<Rightarrow> Inl (NoPemBlock path)
           | Some (typ, bytes) \<Rightarrow>
               if slice_contains allowed typ then Inr (typ, bytes)
               else Inl (UnexpectedBlock path typ)))"

definition load_certificate :: "go_env \<Rightarrow> pki_env \<Rightarrow> string \<Rightarrow> pki_error + x509" where
  "load_certificate genv env path =
     and_then (read_pem genv env path [''CERTIFICATE'']) (\<lambda>(typ, bytes).
       case pe_parse_cert env bytes of None \<Rightarrow> Inl (CannotParse path) | Some c \<Rightarrow> Inr c)"

definition load_private_key :: "go_env \<Rightarrow> pki_env \<Rightarrow> string \<Rightarrow> pki_error + private_key" where
  "load_private_key genv env path =
     and_then (read_pem genv env path [''PRIVATE KEY'', ''EC PRIVATE KEY'', ''RSA PRIVATE KEY''])
       (\<lambda>(typ, bytes).
          case (if typ = ''EC PRIVATE KEY'' then pe_parse_ec env bytes
                else if typ = ''RSA PRIVATE KEY'' then pe_parse_pkcs1 env bytes
                else pe_parse_pkcs8 env bytes) of
            None \<Rightarrow> Inl (CannotParse path)
          | Some key \<Rightarrow> if pk_signs key then Inr key else Inl (CannotSignWith path))"

definition pki_load :: "go_env \<Rightarrow> pki_env \<Rightarrow> string \<Rightarrow> string \<Rightarrow> instant \<Rightarrow> pki_error + pki_ca" where
  "pki_load genv env key_path cert_path now =
     and_then (load_certificate genv env cert_path) (\<lambda>cert.
     and_then (load_private_key genv env key_path) (\<lambda>key.
     if \<not> x_is_ca cert then Inl (NotACa cert_path)
     else if x_key_usage cert AND usage_cert_sign = 0 then Inl (LacksCertSign cert_path)
     else if x_key_usage cert AND usage_crl_sign = 0 then Inl (LacksCrlSign cert_path)
     else if x_not_after cert < now then Inl (CaExpired (rfc3339 (x_not_after cert)))
     else if now < x_not_before cert then Inl (CaNotYetValid (rfc3339 (x_not_before cert)))
     else if \<not> pk_comparable key then Inl (Incomparable key_path)
     else if pk_public key \<noteq> x_public_key cert then Inl KeyMismatch
     else Inr \<lparr>pc_key = key, pc_cert = cert\<rparr>))"

section \<open>Issuing\<close>

text \<open>
  \<^verbatim>\<open>rand.Int\<close> below a power of two: enough bytes, the surplus bits of the first one masked off, so
  the first draw is always below the bound.
\<close>

definition rand_int :: "nat \<Rightarrow> string \<Rightarrow> (int \<times> string) option" where
  "rand_int bits rng =
     map_option (\<lambda>(b, rng). (int (read_be b mod 2 ^ bits), rng)) (take_bytes ((bits + 7) div 8) rng)"

definition pki_new_serial :: "string \<Rightarrow> pki_error + (int \<times> string)" where
  "pki_new_serial rng = (case rand_int 128 rng of None \<Rightarrow> Inl NoSerial | Some r \<Rightarrow> Inr r)"

definition encode_cert :: "pki_env \<Rightarrow> string \<Rightarrow> string" where
  "encode_cert env der = pe_encode_pem env ''CERTIFICATE'' der"

definition encode_key :: "pki_env \<Rightarrow> private_key \<Rightarrow> pki_error + string" where
  "encode_key env key =
     (case pe_marshal_pkcs8 env key of
        None \<Rightarrow> Inl NoMarshal
      | Some der \<Rightarrow> Inr (pe_encode_pem env ''PRIVATE KEY'' der))"

definition ca_validity :: duration where "ca_validity = 10 * 365 * 24 * hour"

definition ca_template :: "string \<Rightarrow> int \<Rightarrow> instant \<Rightarrow> x509" where
  "ca_template organization serial now =
     \<lparr>x_serial = serial, x_organization = [organization], x_unit = [],
      x_common_name = organization @ '' VPN CA'', x_not_before = now, x_not_after = now + ca_validity,
      x_is_ca = True, x_key_usage = usage_cert_sign OR usage_crl_sign, x_ext_usage = [],
      x_basic_constraints = True, x_max_path_len_zero = True, x_ips = [], x_dns = [],
      x_public_key = [], x_raw = []\<rparr>"

definition pki_generate :: "pki_env \<Rightarrow> string \<Rightarrow> instant \<Rightarrow> string \<Rightarrow> pki_error + (pki_ca \<times> string)" where
  "pki_generate env organization now rng =
     and_then (pki_new_serial rng) (\<lambda>(serial, rng).
     case pe_generate_key env rng of
       None \<Rightarrow> Inl NoKey
     | Some (key, rng) \<Rightarrow>
     (let tmpl = ca_template organization serial now in
      case pe_create_cert env tmpl tmpl (pk_public key) key rng of
        None \<Rightarrow> Inl NoCertificate
      | Some (der, rng) \<Rightarrow>
      (case pe_parse_cert env der of
         None \<Rightarrow> Inl NoParse
       | Some cert \<Rightarrow> Inr (\<lparr>pc_key = key, pc_cert = cert\<rparr>, rng))))"

definition bounded_expiry :: "pki_ca \<Rightarrow> instant \<Rightarrow> duration \<Rightarrow> pki_error + instant" where
  "bounded_expiry ca now d =
     (if \<not> now < x_not_after (pc_cert ca) then Inl (NothingToIssue (rfc3339 (x_not_after (pc_cert ca))))
      else
        let not_after = now + d; issuer = truncate_second (x_not_after (pc_cert ca)) in
        if issuer < not_after then Inr issuer else Inr not_after)"

definition client_template :: "string \<Rightarrow> string \<Rightarrow> int \<Rightarrow> instant \<Rightarrow> instant \<Rightarrow> x509" where
  "client_template user profile serial now not_after =
     \<lparr>x_serial = serial, x_organization = [], x_unit = [profile], x_common_name = user,
      x_not_before = now, x_not_after = not_after, x_is_ca = False,
      x_key_usage = usage_digital_signature OR usage_key_agreement, x_ext_usage = [ClientAuth],
      x_basic_constraints = True, x_max_path_len_zero = False, x_ips = [], x_dns = [],
      x_public_key = [], x_raw = []\<rparr>"

text \<open>Signing a template with a fresh key and encoding the result, the tail both issuers share.\<close>

definition sign_template ::
  "pki_env \<Rightarrow> pki_ca \<Rightarrow> x509 \<Rightarrow> private_key \<Rightarrow> string \<Rightarrow> pki_error + (pki_credentials \<times> string)" where
  "sign_template env ca tmpl key rng =
     (case pe_create_cert env tmpl (pc_cert ca) (pk_public key) (pc_key ca) rng of
        None \<Rightarrow> Inl NoCertificate
      | Some (der, rng) \<Rightarrow>
          and_then (encode_key env key) (\<lambda>pem.
          Inr (\<lparr>pr_private_key = pem, pr_certificate = encode_cert env der,
                pr_issuing_ca = encode_cert env (x_raw (pc_cert ca)),
                pr_serial = dec_int (x_serial tmpl), pr_not_after = x_not_after tmpl\<rparr>, rng)))"

definition pki_issue ::
  "pki_env \<Rightarrow> pki_ca \<Rightarrow> string \<Rightarrow> string \<Rightarrow> duration \<Rightarrow> instant \<Rightarrow> string
   \<Rightarrow> pki_error + (pki_credentials \<times> string)" where
  "pki_issue env ca user profile d time_now rng =
     and_then (pki_new_serial rng) (\<lambda>(serial, rng).
     case pe_generate_key env rng of
       None \<Rightarrow> Inl NoKey
     | Some (key, rng) \<Rightarrow>
     (let now = truncate_second time_now in
      and_then (bounded_expiry ca now d) (\<lambda>not_after.
      sign_template env ca (client_template user profile serial now not_after) key rng)))"

section \<open>Server certificates\<close>

definition server_validity :: duration where "server_validity = 90 * 24 * hour"

text \<open>\<^verbatim>\<open>net.ParseIP\<close> refuses an address with a zone.\<close>

definition parse_ip :: "string \<Rightarrow> addr option" where
  "parse_ip s =
     (case parse_addr s of
        Some (V6 w zone) \<Rightarrow> if zone = [] then Some (V6 w zone) else None
      | r \<Rightarrow> r)"

definition add_host :: "string \<Rightarrow> x509 \<Rightarrow> x509" where
  "add_host h tmpl =
     (case parse_ip h of
        Some ip \<Rightarrow> tmpl\<lparr>x_ips := x_ips tmpl @ [ip]\<rparr>
      | None \<Rightarrow> tmpl\<lparr>x_dns := x_dns tmpl @ [h]\<rparr>)"

definition server_template :: "string \<Rightarrow> string list \<Rightarrow> int \<Rightarrow> instant \<Rightarrow> instant \<Rightarrow> x509" where
  "server_template common_name hosts serial now not_after =
     fold add_host hosts
       \<lparr>x_serial = serial, x_organization = [], x_unit = [], x_common_name = common_name,
        x_not_before = now, x_not_after = not_after, x_is_ca = False,
        x_key_usage = usage_digital_signature OR usage_key_encipherment, x_ext_usage = [ServerAuth],
        x_basic_constraints = True, x_max_path_len_zero = False, x_ips = [], x_dns = [],
        x_public_key = [], x_raw = []\<rparr>"

definition issue_server ::
  "pki_env \<Rightarrow> pki_ca \<Rightarrow> string \<Rightarrow> string list \<Rightarrow> instant \<Rightarrow> string
   \<Rightarrow> pki_error + (pki_credentials \<times> string)" where
  "issue_server env ca common_name hosts time_now rng =
     (if common_name = [] then Inl NoCommonName
      else
        and_then (pki_new_serial rng) (\<lambda>(serial, rng).
        case pe_generate_key env rng of
          None \<Rightarrow> Inl NoKey
        | Some (key, rng) \<Rightarrow>
        (let now = truncate_second time_now in
         and_then (bounded_expiry ca now server_validity) (\<lambda>not_after.
         sign_template env ca (server_template common_name hosts serial now not_after) key rng))))"

section \<open>Revocation lists\<close>

definition crl_validity :: duration where "crl_validity = 24 * hour"

fun crl_entries :: "(string \<times> instant) list \<Rightarrow> pki_error + crl_entry list" where
  "crl_entries [] = Inr []"
| "crl_entries ((serial, revoked_at) # rs) =
     (case parse_big serial of
        None \<Rightarrow> Inl (BadSerial serial)
      | Some n \<Rightarrow>
          and_then (crl_entries rs)
            (\<lambda>es. Inr (\<lparr>ce_serial = n, ce_time = truncate_second revoked_at\<rparr> # es)))"

definition crl_of :: "crl_entry list \<Rightarrow> int \<Rightarrow> instant \<Rightarrow> crl_template" where
  "crl_of entries number now =
     \<lparr>ct_entries = entries, ct_number = number, ct_this_update = truncate_second now,
      ct_next_update = truncate_second now + crl_validity\<rparr>"

definition pki_crl ::
  "pki_env \<Rightarrow> pki_ca \<Rightarrow> (string \<times> instant) list \<Rightarrow> instant \<Rightarrow> string \<Rightarrow> pki_error + (string \<times> string)" where
  "pki_crl env ca revoked now rng =
     and_then (crl_entries revoked) (\<lambda>entries.
     case rand_int 63 rng of
       None \<Rightarrow> Inl NoCrlNumber
     | Some (number, rng) \<Rightarrow>
     (case pe_create_crl env (crl_of entries number now) (pc_cert ca) (pc_key ca) rng of
        None \<Rightarrow> Inl NoCrl
      | Some (der, rng) \<Rightarrow> Inr (pe_encode_pem env ''X509 CRL'' der, rng)))"

section \<open>Writing the authority out\<close>

definition certificate_pem :: "pki_env \<Rightarrow> pki_ca \<Rightarrow> string" where
  "certificate_pem env ca = encode_cert env (x_raw (pc_cert ca))"

definition pki_write_to :: "pki_env \<Rightarrow> pki_ca \<Rightarrow> string \<Rightarrow> world \<Rightarrow> (pki_error + unit) \<times> world" where
  "pki_write_to env ca dir w =
     (let ca_dir = path_join dir ''ca'' in
      case sys_mkdir_all ca_dir w of
        (False, w) \<Rightarrow> (Inl (NoCaDir ca_dir), w)
      | (True, w) \<Rightarrow>
      (case encode_key env (pc_key ca) of
         Inl e \<Rightarrow> (Inl e, w)
       | Inr pem \<Rightarrow>
      (case sys_write_file (path_join ca_dir ''key.pem'') pem 0x180 w of
         (False, w) \<Rightarrow> (Inl NoKeyFile, w)
       | (True, w) \<Rightarrow>
      (case sys_write_file (path_join ca_dir ''cert.pem'') (certificate_pem env ca) 0x1A4 w of
         (False, w) \<Rightarrow> (Inl NoCertFile, w)
       | (True, w) \<Rightarrow> (Inr (), w)))))"

section \<open>What loading accepts\<close>

definition usage_has :: "key_usage \<Rightarrow> key_usage \<Rightarrow> bool" where
  "usage_has u f \<longleftrightarrow> u AND f \<noteq> 0"

text \<open>What \<^verbatim>\<open>Load\<close> establishes of the authority, at the instant it is loaded.\<close>

definition ca_ok :: "instant \<Rightarrow> pki_ca \<Rightarrow> bool" where
  "ca_ok now ca \<longleftrightarrow>
     x_is_ca (pc_cert ca)
     \<and> usage_has (x_key_usage (pc_cert ca)) usage_cert_sign
     \<and> usage_has (x_key_usage (pc_cert ca)) usage_crl_sign
     \<and> x_not_before (pc_cert ca) \<le> now \<and> now \<le> x_not_after (pc_cert ca)
     \<and> pk_signs (pc_key ca) \<and> pk_public (pc_key ca) = x_public_key (pc_cert ca)"

lemma load_private_key_signs: "load_private_key genv env path = Inr key \<Longrightarrow> pk_signs key"
  by (auto simp: load_private_key_def and_then_Inr_iff split: option.splits if_splits)

text \<open>
  C16. An authority that \<^verbatim>\<open>Load\<close> accepts can do both things Gruff asks of it, signing certificates
  and revocation lists, is within its own validity and has the private key of its certificate.
\<close>

theorem pki_load_ok:
  "pki_load genv env key_path cert_path now = Inr ca \<Longrightarrow> ca_ok now ca"
  by (auto simp: pki_load_def and_then_Inr_iff ca_ok_def usage_has_def dest: load_private_key_signs
      split: if_splits)

section \<open>Validity of what is issued\<close>

lemma bounded_expiry_Inr:
  assumes "bounded_expiry ca now d = Inr t"
  shows "t = min (now + d) (truncate_second (x_not_after (pc_cert ca))) \<and> now < x_not_after (pc_cert ca)"
  using assms by (auto simp: bounded_expiry_def Let_def split: if_splits)

lemma rand_int_bounds: "rand_int n rng = Some (i, rng') \<Longrightarrow> 0 \<le> i \<and> i < 2 ^ n"
proof -
  assume "rand_int n rng = Some (i, rng')"
  then obtain b :: nat where "i = int (b mod 2 ^ n)" by (auto simp: rand_int_def)
  moreover have "int (b mod 2 ^ n) < int (2 ^ n)" by (simp only: of_nat_less_iff) simp
  ultimately show ?thesis by simp
qed

lemma sign_template_Inr:
  "sign_template env ca tmpl key rng = Inr (cr, rng') \<Longrightarrow>
   pr_serial cr = dec_int (x_serial tmpl) \<and> pr_not_after cr = x_not_after tmpl
   \<and> pr_issuing_ca cr = certificate_pem env ca
   \<and> (\<exists>der rng1 pk. pe_create_cert env tmpl (pc_cert ca) (pk_public key) (pc_key ca) rng1 = Some (der, rng')
        \<and> pr_certificate cr = encode_cert env der
        \<and> pe_marshal_pkcs8 env key = Some pk \<and> pr_private_key cr = pe_encode_pem env ''PRIVATE KEY'' pk)"
  by (auto simp: sign_template_def and_then_Inr_iff encode_key_def certificate_pem_def
      split: option.splits)

text \<open>
  \<open>x509_for\<close>: the credential carries the private key of the certified public key and the
  certificate of this template, signed by this CA.
\<close>

definition x509_for :: "pki_env \<Rightarrow> pki_ca \<Rightarrow> x509 \<Rightarrow> pki_credentials \<Rightarrow> bool" where
  "x509_for env ca tmpl cr \<longleftrightarrow>
     pr_serial cr = dec_int (x_serial tmpl) \<and> pr_not_after cr = x_not_after tmpl
   \<and> pr_issuing_ca cr = certificate_pem env ca
   \<and> (\<exists>key rng0 rng1. pe_generate_key env rng0 = Some (key, rng1)
     \<and> (\<exists>der rng2 rng3 pk.
          pe_create_cert env tmpl (pc_cert ca) (pk_public key) (pc_key ca) rng2 = Some (der, rng3)
        \<and> pr_certificate cr = encode_cert env der
        \<and> pe_marshal_pkcs8 env key = Some pk \<and> pr_private_key cr = pe_encode_pem env ''PRIVATE KEY'' pk))"

lemma x509_forI:
  "pe_generate_key env rng0 = Some (key, rng1) \<Longrightarrow>
   sign_template env ca tmpl key rng2 = Inr (cr, rng') \<Longrightarrow> x509_for env ca tmpl cr"
  by (drule sign_template_Inr) (unfold x509_for_def, blast)

lemma pki_issue_Inr:
  assumes "pki_issue env ca user profile d now rng = Inr (cr, rng')"
  shows "\<exists>serial t. 0 \<le> serial \<and> serial < 2 ^ 128
    \<and> bounded_expiry ca (truncate_second now) d = Inr t
    \<and> x509_for env ca (client_template user profile serial (truncate_second now) t) cr"
proof -
  obtain serial rng0 key rng1 t where x: "pki_new_serial rng = Inr (serial, rng0)"
      "pe_generate_key env rng0 = Some (key, rng1)" "bounded_expiry ca (truncate_second now) d = Inr t"
      "sign_template env ca (client_template user profile serial (truncate_second now) t) key rng1 = Inr (cr, rng')"
    using assms by (auto simp: pki_issue_def and_then_Inr_iff Let_def split: option.splits)
  have "0 \<le> serial \<and> serial < 2 ^ 128"
    using x(1) by (auto simp: pki_new_serial_def dest: rand_int_bounds split: option.splits)
  then show ?thesis using x x509_forI by blast
qed

lemma pki_issued:
  assumes "pki_issue env ca user profile d now rng = Inr (cr, rng')"
  shows "\<exists>tmpl. x509_for env ca tmpl cr
    \<and> x_common_name tmpl = user \<and> x_unit tmpl = [profile] \<and> x_organization tmpl = []
    \<and> x_ext_usage tmpl = [ClientAuth] \<and> \<not> x_is_ca tmpl \<and> x_basic_constraints tmpl
    \<and> \<not> usage_has (x_key_usage tmpl) usage_cert_sign \<and> \<not> usage_has (x_key_usage tmpl) usage_crl_sign
    \<and> x_not_before tmpl = truncate_second now
    \<and> x_not_after tmpl = min (truncate_second now + d) (truncate_second (x_not_after (pc_cert ca)))
    \<and> pr_not_after cr = x_not_after tmpl \<and> pr_not_after cr \<le> now + d
    \<and> pr_not_after cr \<le> x_not_after (pc_cert ca)
    \<and> parse_big (pr_serial cr) = Some (x_serial tmpl) \<and> 0 \<le> x_serial tmpl \<and> x_serial tmpl < 2 ^ 128"
proof -
  obtain serial t where x: "0 \<le> serial" "serial < 2 ^ 128"
      "bounded_expiry ca (truncate_second now) d = Inr t"
      "x509_for env ca (client_template user profile serial (truncate_second now) t) cr"
    using pki_issue_Inr [OF assms] by blast
  let ?t = "client_template user profile serial (truncate_second now) t"
  have usage: "\<not> usage_has (x_key_usage ?t) usage_cert_sign" "\<not> usage_has (x_key_usage ?t) usage_crl_sign"
    unfolding client_template_def usage_has_def by code_simp+
  have "t \<le> now + d" "t \<le> x_not_after (pc_cert ca)"
    using bounded_expiry_Inr [OF x(3)] truncate_second_le [of now]
      truncate_second_le [of "x_not_after (pc_cert ca)"] by linarith+
  moreover have "pr_not_after cr = t" "pr_serial cr = dec_int serial"
    using x(4) by (simp_all add: x509_for_def client_template_def)
  ultimately show ?thesis
    using x bounded_expiry_Inr [OF x(3)] usage
    by (intro exI [of _ ?t]) (simp add: client_template_def dec_int_def)
qed

text \<open>
  C7. A VPN credential names the user as common name and the profile as its only unit, can only be
  used as a client, is not an authority, is valid from now and runs out after the profile's
  lifetime or with the CA, whichever is first; the expiry and the serial reported with it are the
  certificate's own.
\<close>

theorem pki_issue_certificate:
  assumes "pki_issue env ca user profile d now rng = Inr (cr, rng')"
  shows "\<exists>tmpl. x509_for env ca tmpl cr
    \<and> x_common_name tmpl = user \<and> x_unit tmpl = [profile] \<and> x_organization tmpl = []
    \<and> x_ext_usage tmpl = [ClientAuth] \<and> \<not> x_is_ca tmpl \<and> x_basic_constraints tmpl
    \<and> \<not> usage_has (x_key_usage tmpl) usage_cert_sign \<and> \<not> usage_has (x_key_usage tmpl) usage_crl_sign
    \<and> x_not_before tmpl = truncate_second now
    \<and> x_not_after tmpl = min (truncate_second now + d) (truncate_second (x_not_after (pc_cert ca)))
    \<and> pr_not_after cr = x_not_after tmpl \<and> pr_not_after cr \<le> now + d
    \<and> pr_not_after cr \<le> x_not_after (pc_cert ca)
    \<and> parse_big (pr_serial cr) = Some (x_serial tmpl) \<and> 0 \<le> x_serial tmpl \<and> x_serial tmpl < 2 ^ 128"
  using pki_issued [OF assms] .

section \<open>Server certificates\<close>

definition is_ip :: "string \<Rightarrow> bool" where
  "is_ip h \<longleftrightarrow> parse_ip h \<noteq> None"

lemma fold_add_host:
  "x_ips (fold add_host hosts t) = x_ips t @ map (\<lambda>h. the (parse_ip h)) (filter is_ip hosts)
   \<and> x_dns (fold add_host hosts t) = x_dns t @ filter (\<lambda>h. \<not> is_ip h) hosts
   \<and> (fold add_host hosts t)\<lparr>x_ips := [], x_dns := []\<rparr> = t\<lparr>x_ips := [], x_dns := []\<rparr>"
proof (induction hosts arbitrary: t)
  case (Cons h hs)
  show ?case
  proof (cases "parse_ip h")
    case None
    then have "add_host h t = t\<lparr>x_dns := x_dns t @ [h]\<rparr>" "\<not> is_ip h"
      by (simp_all add: add_host_def is_ip_def)
    with Cons.IH [of "add_host h t"] show ?thesis by simp
  next
    case (Some ip)
    then have "add_host h t = t\<lparr>x_ips := x_ips t @ [ip]\<rparr>" "is_ip h"
      by (simp_all add: add_host_def is_ip_def)
    with Cons.IH [of "add_host h t"] Some show ?thesis by simp
  qed
qed simp

lemma same_but_hosts:
  assumes "(x :: x509)\<lparr>x_ips := [], x_dns := []\<rparr> = y\<lparr>x_ips := [], x_dns := []\<rparr>"
  shows "x_serial x = x_serial y" "x_common_name x = x_common_name y" "x_unit x = x_unit y"
    "x_not_before x = x_not_before y" "x_not_after x = x_not_after y" "x_is_ca x = x_is_ca y"
    "x_ext_usage x = x_ext_usage y" "x_key_usage x = x_key_usage y"
  using assms by (cases x; cases y; simp)+

lemma server_template_fields:
  "x_ips (server_template cn hosts s b a) = map (\<lambda>h. the (parse_ip h)) (filter is_ip hosts)"
  "x_dns (server_template cn hosts s b a) = filter (\<lambda>h. \<not> is_ip h) hosts"
  "x_serial (server_template cn hosts s b a) = s" "x_common_name (server_template cn hosts s b a) = cn"
  "x_unit (server_template cn hosts s b a) = []"
  "x_not_before (server_template cn hosts s b a) = b" "x_not_after (server_template cn hosts s b a) = a"
  "x_is_ca (server_template cn hosts s b a) = False"
  "x_ext_usage (server_template cn hosts s b a) = [ServerAuth]"
  unfolding server_template_def
  using fold_add_host [THEN conjunct1] fold_add_host [THEN conjunct2, THEN conjunct1]
    same_but_hosts [OF fold_add_host [THEN conjunct2, THEN conjunct2]]
  by simp_all

text \<open>
  C15. A server certificate is never a client one: it carries server authentication only, so no
  credential the portal hands to a user can pose as the server and the other way round. Every host
  asked for is in it, as an address if it is one and as a name otherwise, and it does not outlive
  the CA.
\<close>

theorem issue_server_certificate:
  assumes "issue_server env ca common_name hosts now rng = Inr (cr, rng')"
  shows "\<exists>tmpl. x509_for env ca tmpl cr \<and> common_name \<noteq> []
    \<and> x_common_name tmpl = common_name \<and> x_unit tmpl = [] \<and> x_ext_usage tmpl = [ServerAuth]
    \<and> \<not> x_is_ca tmpl
    \<and> map Some (x_ips tmpl) = map parse_ip (filter is_ip hosts)
    \<and> x_dns tmpl = filter (\<lambda>h. \<not> is_ip h) hosts
    \<and> x_not_before tmpl = truncate_second now
    \<and> x_not_after tmpl = min (truncate_second now + server_validity) (truncate_second (x_not_after (pc_cert ca)))"
proof -
  obtain serial rng0 key rng1 t where x: "common_name \<noteq> []" "pe_generate_key env rng0 = Some (key, rng1)"
      "bounded_expiry ca (truncate_second now) server_validity = Inr t"
      "sign_template env ca (server_template common_name hosts serial (truncate_second now) t) key rng1
        = Inr (cr, rng')"
    using assms by (auto simp: issue_server_def and_then_Inr_iff Let_def split: if_splits option.splits)
  let ?t = "server_template common_name hosts serial (truncate_second now) t"
  have ips: "map (Some \<circ> (\<lambda>h. the (parse_ip h))) (filter is_ip hosts) = map parse_ip (filter is_ip hosts)"
    by (intro map_cong) (auto simp: is_ip_def)
  show ?thesis
    using x(1) x509_forI [OF x(2,4)] bounded_expiry_Inr [OF x(3)] ips
    by (intro exI [of _ ?t]) (simp add: server_template_fields)
qed

section \<open>Revocation lists\<close>

definition entry_of :: "string \<times> instant \<Rightarrow> crl_entry \<Rightarrow> bool" where
  "entry_of r e \<longleftrightarrow> parse_big (fst r) = Some (ce_serial e) \<and> ce_time e = truncate_second (snd r)"

lemma crl_entries_Inr: "crl_entries rs = Inr es \<Longrightarrow> list_all2 entry_of rs es"
  by (induction rs arbitrary: es rule: crl_entries.induct)
    (auto simp: and_then_Inr_iff entry_of_def split: option.splits)

lemma crl_entries_Inl:
  "crl_entries rs = Inl e \<Longrightarrow> \<exists>s. e = BadSerial s \<and> s \<in> fst ` set rs \<and> parse_big s = None"
  by (induction rs rule: crl_entries.induct) (auto simp: and_then_Inl_iff split: option.splits)

text \<open>\<open>crl_states\<close>: what a revocation list says about the given entries at the given instant.\<close>

definition crl_states :: "(string \<times> instant) list \<Rightarrow> instant \<Rightarrow> crl_template \<Rightarrow> bool" where
  "crl_states revoked now tmpl \<longleftrightarrow>
     list_all2 entry_of revoked (ct_entries tmpl)
   \<and> 0 \<le> ct_number tmpl \<and> ct_number tmpl < 2 ^ 63
   \<and> ct_this_update tmpl \<le> now \<and> now + crl_validity - second < ct_next_update tmpl"

lemma pki_crl_Inr:
  assumes "pki_crl env ca revoked now rng = Inr (pem, rng')"
  shows "\<exists>tmpl rng1 der. crl_states revoked now tmpl
    \<and> pe_create_crl env tmpl (pc_cert ca) (pc_key ca) rng1 = Some (der, rng')
    \<and> pem = pe_encode_pem env ''X509 CRL'' der"
proof -
  obtain es where es: "crl_entries revoked = Inr es"
    using assms by (auto simp: pki_crl_def and_then_Inr_iff)
  obtain number rng1 where n: "rand_int 63 rng = Some (number, rng1)"
    using assms es by (cases "rand_int 63 rng") (auto simp: pki_crl_def)
  obtain der where "pe_create_crl env (crl_of es number now) (pc_cert ca) (pc_key ca) rng1 = Some (der, rng')"
      "pem = pe_encode_pem env ''X509 CRL'' der"
    using assms es n by (auto simp: pki_crl_def split: option.splits)
  note x = es n this
  have "crl_states revoked now (crl_of es number now)"
    using crl_entries_Inr [OF x(1)] rand_int_bounds [OF x(2)] truncate_second_le [of now]
      truncate_second_gt [of now]
    by (simp add: crl_states_def crl_of_def)
  with x(3,4) show ?thesis by blast
qed


section \<open>Concrete runs\<close>

definition toy_key :: private_key where
  "toy_key = \<lparr>pk_bytes = ''k'', pk_signs = True, pk_public = ''pub'', pk_comparable = True\<rparr>"

definition toy_cert :: x509 where
  "toy_cert = (ca_template ''Acme'' 1 0)\<lparr>x_public_key := ''pub'', x_raw := ''der''\<rparr>"

text \<open>A PEM file is its block type, a colon and the bytes.\<close>

definition toy_pki_env :: pki_env where
  "toy_pki_env =
     \<lparr>pe_decode_pem = (\<lambda>s. case split_on (CHR '':'') s of [t, b] \<Rightarrow> Some (t, b) | _ \<Rightarrow> None),
      pe_encode_pem = (\<lambda>t b. t @ '':'' @ b),
      pe_parse_cert = (\<lambda>der. if der = ''der'' then Some toy_cert else None),
      pe_parse_ec = (\<lambda>_. None), pe_parse_pkcs1 = (\<lambda>_. None),
      pe_parse_pkcs8 = (\<lambda>b. if b = ''k'' then Some toy_key else None),
      pe_marshal_pkcs8 = (\<lambda>k. Some (pk_bytes k)),
      pe_generate_key = (\<lambda>rng. map_option (\<lambda>(b, rng). (toy_key, rng)) (take_bytes 32 rng)),
      pe_create_cert = (\<lambda>t p pub key rng. Some (x_common_name t, rng)),
      pe_create_crl = (\<lambda>t p key rng. Some (''crl'', rng))\<rparr>"

definition toy_pki_files :: go_env where
  "toy_pki_files =
     plain_env (\<lambda>path. if path = ''ca/key.pem'' then Some ''PRIVATE KEY:k''
                  else if path = ''ca/cert.pem'' then Some ''CERTIFICATE:der'' else None)"

abbreviation toy_pki_ca :: pki_ca where "toy_pki_ca \<equiv> \<lparr>pc_key = toy_key, pc_cert = toy_cert\<rparr>"

theorem pki_load_ok_witness:
  "pki_load toy_pki_files toy_pki_env ''ca/key.pem'' ''ca/cert.pem'' (5 * hour) = Inr toy_pki_ca
   \<and> ca_ok (5 * hour) toy_pki_ca"
proof -
  have "x_not_before toy_cert = 0" "x_not_after toy_cert = ca_validity" "x_is_ca toy_cert"
    "x_public_key toy_cert = ''pub''" by (simp_all add: toy_cert_def ca_template_def)
  moreover have "x_key_usage toy_cert AND usage_cert_sign \<noteq> 0" "x_key_usage toy_cert AND usage_crl_sign \<noteq> 0"
    by code_simp+
  ultimately have l: "pki_load toy_pki_files toy_pki_env ''ca/key.pem'' ''ca/cert.pem'' (5 * hour) = Inr toy_pki_ca"
    by (simp add: pki_load_def load_certificate_def load_private_key_def read_pem_def toy_pki_files_def
        plain_env_def toy_pki_env_def toy_key_def ca_validity_def)
  with pki_load_ok [OF l] show ?thesis by simp
qed

lemma toy_issue:
  "\<not> isl (pki_issue toy_pki_env toy_pki_ca ''ann'' ''staff'' hour (5 * hour) (replicate 60 (CHR ''r'')))"
  "\<not> isl (issue_server toy_pki_env toy_pki_ca ''vpn'' [''10.0.0.1'', ''vpn.lan''] (5 * hour) (replicate 60 (CHR ''r'')))"
  by (simp_all add: pki_issue_def issue_server_def pki_new_serial_def rand_int_def take_bytes_def toy_pki_env_def
      bounded_expiry_def toy_cert_def ca_template_def ca_validity_def sign_template_def encode_key_def Let_def
      truncate_second_def server_validity_def)

theorem pki_issue_certificate_witness:
  "\<exists>cr rng' tmpl.
     pki_issue toy_pki_env toy_pki_ca ''ann'' ''staff'' hour (5 * hour) (replicate 60 (CHR ''r'')) = Inr (cr, rng')
     \<and> x509_for toy_pki_env toy_pki_ca tmpl cr \<and> x_common_name tmpl = ''ann''
     \<and> x_ext_usage tmpl = [ClientAuth] \<and> pr_not_after cr \<le> 5 * hour + hour"
proof -
  let ?r = "pki_issue toy_pki_env toy_pki_ca ''ann'' ''staff'' hour (5 * hour) (replicate 60 (CHR ''r''))"
  obtain cr rng' where r: "?r = Inr (cr, rng')" using toy_issue(1) by (cases ?r) auto
  from pki_issue_certificate [OF r] obtain tmpl where "x509_for toy_pki_env toy_pki_ca tmpl cr"
    "x_common_name tmpl = ''ann''" "x_ext_usage tmpl = [ClientAuth]" "pr_not_after cr \<le> 5 * hour + hour"
    by blast
  with r show ?thesis by blast
qed

theorem issue_server_certificate_witness:
  "\<exists>cr rng' tmpl.
     issue_server toy_pki_env toy_pki_ca ''vpn'' [''10.0.0.1'', ''vpn.lan''] (5 * hour) (replicate 60 (CHR ''r''))
       = Inr (cr, rng')
     \<and> x509_for toy_pki_env toy_pki_ca tmpl cr \<and> x_ext_usage tmpl = [ServerAuth]
     \<and> x_dns tmpl = filter (\<lambda>h. \<not> is_ip h) [''10.0.0.1'', ''vpn.lan'']
     \<and> filter (\<lambda>h. \<not> is_ip h) [''10.0.0.1'', ''vpn.lan''] = [''vpn.lan'']"
proof -
  let ?r = "issue_server toy_pki_env toy_pki_ca ''vpn'' [''10.0.0.1'', ''vpn.lan''] (5 * hour) (replicate 60 (CHR ''r''))"
  obtain cr rng' where r: "?r = Inr (cr, rng')" using toy_issue(2) by (cases ?r) auto
  from issue_server_certificate [OF r] obtain tmpl where "x509_for toy_pki_env toy_pki_ca tmpl cr"
    "x_ext_usage tmpl = [ServerAuth]" "x_dns tmpl = filter (\<lambda>h. \<not> is_ip h) [''10.0.0.1'', ''vpn.lan'']"
    by blast
  moreover have "filter (\<lambda>h. parse_ip h = None) [''10.0.0.1'', ''vpn.lan''] = [''vpn.lan'']" by code_simp
  ultimately show ?thesis using r unfolding is_ip_def by auto
qed

end
