(* ===== verification/Portal.thy ===== *)
theory Portal
  imports Oidc Store_Laws Rate_Limit Metrics Ssh_Ca Pki
begin

text \<open>
  \<^verbatim>\<open>internal/portal/portal.go\<close> and \<^verbatim>\<open>internal/portal/auth.go\<close>: the portal's state, who a request comes
  from, the page shared by every view, and signing in and out. The portal is generic in its \<open>Store\<close>,
  a record of operations any of which may fail; \<open>memory_api\<close> is the in-memory one. The HTML templates
  and the profile template are parameters.
\<close>

section \<open>The store behind the portal\<close>

record 's revoker =
  rk_revoke :: "instant \<Rightarrow> revocation \<Rightarrow> 's \<Rightarrow> bool \<times> 's"
  rk_revocations :: "instant \<Rightarrow> kind \<Rightarrow> 's \<Rightarrow> revocation list option \<times> 's"

record 's store_api =
  sa_add :: "instant \<Rightarrow> session \<Rightarrow> 's \<Rightarrow> bool \<times> 's"
  sa_for :: "instant \<Rightarrow> string \<Rightarrow> 's \<Rightarrow> session list option \<times> 's"
  sa_all :: "instant \<Rightarrow> 's \<Rightarrow> session list option \<times> 's"
  sa_tracked :: "(instant \<Rightarrow> 's \<Rightarrow> (nat \<times> int) option \<times> 's) option"
  sa_revoker :: "'s revoker option"

definition memory_api :: "store store_api" where
  "memory_api =
     \<lparr>sa_add = (\<lambda>now x s. (True, store_add now x s)),
      sa_for = (\<lambda>now u s. map_prod Some id (store_for now u s)),
      sa_all = (\<lambda>now s. map_prod Some id (store_all now s)),
      sa_tracked = Some (\<lambda>now s. map_prod Some id (store_tracked now s)),
      sa_revoker = Some \<lparr>rk_revoke = (\<lambda>now r s. (True, store_revoke now r s)),
                        rk_revocations = (\<lambda>now k s. map_prod Some id (store_revocations now k s))\<rparr>\<rparr>"

section \<open>Who is asking\<close>

record identity =
  id_username :: string
  id_fullname :: string
  id_roles :: "string list"
  id_admin :: bool

definition no_identity :: identity where
  "no_identity = \<lparr>id_username = [], id_fullname = [], id_roles = [], id_admin = False\<rparr>"

text \<open>The roles seen so far are those already in the result.\<close>

fun add_roles :: "string list \<Rightarrow> string list \<Rightarrow> string list" where
  "add_roles out [] = out"
| "add_roles out (r # rs) = add_roles (if slice_contains out r then out else out @ [r]) rs"

definition merge_roles :: "string list \<Rightarrow> string list \<Rightarrow> string list" where
  "merge_roles provided local = add_roles (add_roles [] provided) local"

definition local_roles :: "config \<Rightarrow> string \<Rightarrow> string list" where
  "local_roles cfg user =
     (case map_of (a_local_roles (c_auth cfg)) user of None \<Rightarrow> [] | Some rs \<Rightarrow> rs)"

definition with_local_roles :: "config \<Rightarrow> identity \<Rightarrow> identity" where
  "with_local_roles cfg i =
     (let i = i\<lparr>id_roles := merge_roles (id_roles i) (local_roles cfg (id_username i))\<rparr>
      in i\<lparr>id_admin := is_admin cfg (id_roles i)\<rparr>)"

section \<open>Pages\<close>

record page =
  pg_title :: string
  pg_brand :: string
  pg_username :: string
  pg_initials :: string
  pg_logout_url :: string
  pg_can_logout :: bool
  pg_help_url :: string

text \<open>A rune written back: the bytes it was read from, U+FFFD for bytes that were not UTF-8.\<close>

definition rune_text :: "nat \<times> string \<Rightarrow> string" where
  "rune_text r = (if fst r = rune_error then map char_of [0xEF :: nat, 0xBF, 0xBD] else snd r)"

definition initials :: "string \<Rightarrow> string" where
  "initials name = concat (map (\<lambda>f. rune_text (hd (runes f))) (take 2 (Go_Strings.fields name)))"

record principals_file =
  pf_path :: string
  pf_content :: string

record ssh_setup =
  su_ca_public_key :: string
  su_fingerprint :: string
  su_sshd_config :: string
  su_known_hosts :: string
  su_principals_files :: "principals_file list"

record vpn_setup =
  su_ca_certificate :: string
  su_openvpn_config :: string

datatype view =
    ProfilesView page "(profile \<times> bool) list" nat
  | RulesView page profile
  | IssuedView page "session list" bool
  | SshView page "(ssh_profile \<times> bool) list" nat
  | SetupView page "ssh_setup option" "vpn_setup option"

definition pages :: "string list" where
  "pages = [''profiles.html'', ''rules.html'', ''issued.html'', ''ssh.html'', ''setup.html'']"

fun view_page :: "view \<Rightarrow> string" where
  "view_page (ProfilesView _ _ _) = ''profiles.html''"
| "view_page (RulesView _ _) = ''rules.html''"
| "view_page (IssuedView _ _ _) = ''issued.html''"
| "view_page (SshView _ _ _) = ''ssh.html''"
| "view_page (SetupView _ _ _) = ''setup.html''"

record ovpn_data =
  od_user :: string
  od_profile :: string
  od_duration :: string
  od_expires_on :: string
  od_certificate :: string
  od_private_key :: string
  od_issuing_ca :: string

section \<open>The portal\<close>

text \<open>
  \<open>pt_execute\<close> is what executing the profile template writes, for as long as it succeeds. A page's
  template may fail on its data.
\<close>

record 's portal =
  pt_cfg :: config
  pt_ca :: "pki_ca option"
  pt_ssh_ca :: "ssh_ca option"
  pt_oidc :: "authenticator option"
  pt_codec :: codec
  pt_store :: "'s store_api"
  pt_version :: string
  pt_templates :: "string \<Rightarrow> (view \<Rightarrow> string option) option"
  pt_execute :: "string option \<Rightarrow> ovpn_data \<Rightarrow> string"
  pt_env :: go_env
  pt_lib :: oidc_lib
  pt_pki :: pki_env
  pt_ssh :: ssh_env

text \<open>What requests change: the store, the limiter, the counters, the entropy left, the disk.\<close>

record 's portal_state =
  ps_store :: 's
  ps_limiter :: "limiter option"
  ps_metrics :: metrics
  ps_rng :: string
  ps_world :: world

text \<open>\<^verbatim>\<open>New\<close>, with the default store.\<close>

definition parse_templates ::
  "(string \<Rightarrow> (view \<Rightarrow> string option) option) \<Rightarrow> (string + (string \<Rightarrow> (view \<Rightarrow> string option) option))" where
  "parse_templates parse =
     and_then (check_all (\<lambda>name. fail_if (parse name = None) name) pages)
       (\<lambda>_. Inr (\<lambda>name. if slice_contains pages name then parse name else None))"

record portal_options =
  po_version :: string
  po_ca :: "pki_ca option"
  po_ssh_ca :: "ssh_ca option"
  po_oidc :: "authenticator option"
  po_codec :: "codec option"

text \<open>The parameters of the model that the portal carries around.\<close>

record portal_lib =
  pl_parse :: "string \<Rightarrow> (view \<Rightarrow> string option) option"
  pl_execute :: "string option \<Rightarrow> ovpn_data \<Rightarrow> string"
  pl_env :: go_env
  pl_oidc :: oidc_lib
  pl_pki :: pki_env
  pl_ssh :: ssh_env

text \<open>Stands where there is no codec; only a portal that signs people in ever opens a session.\<close>

definition no_codec :: codec where
  "no_codec = \<lparr>cd_aead = \<lparr>ae_nonce_size = 0, ae_seal = (\<lambda>_ _ _. []), ae_open = (\<lambda>_ _ _. None)\<rparr>, cd_secure = True\<rparr>"

definition new_portal :: "portal_lib \<Rightarrow> config \<Rightarrow> portal_options \<Rightarrow> string + store portal" where
  "new_portal L cfg opts =
     and_then (parse_templates (pl_parse L)) (\<lambda>templates.
     Inr \<lparr>pt_cfg = cfg, pt_ca = po_ca opts, pt_ssh_ca = po_ssh_ca opts, pt_oidc = po_oidc opts,
          pt_codec = (case po_codec opts of None \<Rightarrow> no_codec | Some c \<Rightarrow> c), pt_store = memory_api, pt_version = cmp_or (po_version opts) ''dev'',
          pt_templates = templates, pt_execute = pl_execute L, pt_env = pl_env L, pt_lib = pl_oidc L,
          pt_pki = pl_pki L, pt_ssh = pl_ssh L\<rparr>)"

definition new_portal_state :: "config \<Rightarrow> string \<Rightarrow> world \<Rightarrow> store portal_state" where
  "new_portal_state cfg rng w =
     \<lparr>ps_store = new_store (c_max_tracked_sessions cfg), ps_limiter = new_limiter (issue_limit cfg),
      ps_metrics = new_metrics, ps_rng = rng, ps_world = w\<rparr>"

definition inc :: "string \<Rightarrow> string list \<Rightarrow> 's portal_state \<Rightarrow> 's portal_state" where
  "inc name labels s = s\<lparr>ps_metrics := metrics_inc name labels (ps_metrics s)\<rparr>"

definition render :: "'s portal \<Rightarrow> view \<Rightarrow> response" where
  "render p v =
     (case pt_templates p (view_page v) of
        None \<Rightarrow> http_error 500 ''internal error''
      | Some t \<Rightarrow>
          (case t v of
             None \<Rightarrow> http_error 500 ''internal error''
           | Some body \<Rightarrow> with_headers [(''Content-Type'', ''text/html; charset=utf-8'')] (http_ok body)))"

definition can_logout :: "'s portal \<Rightarrow> bool" where
  "can_logout p = (pt_oidc p \<noteq> None \<or> c_logout_url (pt_cfg p) \<noteq> [])"

definition logout_href :: "'s portal \<Rightarrow> string" where
  "logout_href p = (if pt_oidc p \<noteq> None then ''/auth/logout'' else c_logout_url (pt_cfg p))"

definition page_for :: "'s portal \<Rightarrow> identity \<Rightarrow> page" where
  "page_for p i =
     (let name = cmp_or (id_fullname i) (id_username i) in
      \<lparr>pg_title = c_banner (pt_cfg p), pg_brand = c_banner (pt_cfg p), pg_username = name,
       pg_initials = initials name, pg_logout_url = logout_href p, pg_can_logout = can_logout p,
       pg_help_url = c_help_url (pt_cfg p)\<rparr>)"

section \<open>Sessions\<close>

definition open_portal :: "'s portal \<Rightarrow> request \<Rightarrow> instant \<Rightarrow> session_error + user" where
  "open_portal p r now = open_session (ol_session_json (pt_lib p)) (pt_codec p) r now"

definition identify :: "'s portal \<Rightarrow> request \<Rightarrow> instant \<Rightarrow> identity" where
  "identify p r now =
     (if pt_oidc p = None then
        with_local_roles (pt_cfg p)
          \<lparr>id_username = header_get r (c_username_header (pt_cfg p)),
           id_fullname = header_get r (c_fullname_header (pt_cfg p)),
           id_roles = roles_of_header (header_get r (c_roles_header (pt_cfg p))), id_admin = False\<rparr>
      else
        case open_portal p r now of
          Inl e \<Rightarrow> no_identity
        | Inr u \<Rightarrow>
            with_local_roles (pt_cfg p)
              \<lparr>id_username = us_username u, id_fullname = us_fullname u, id_roles = us_roles u,
               id_admin = False\<rparr>)"

text \<open>What the session gate does with a request: answer it, or let it through.\<close>

definition require_session :: "'s portal \<Rightarrow> request \<Rightarrow> instant \<Rightarrow> response option" where
  "require_session p r now =
     (if pt_oidc p = None then None
      else
        case open_portal p r now of
          Inr u \<Rightarrow> None
        | Inl e \<Rightarrow>
            if rq_method r \<noteq> ''GET'' then Some (http_error 403 ''not signed in'')
            else Some (http_redirect (''/auth/login?next='' @ query_escape (request_uri r)) 303))"

section \<open>Signing in and out\<close>

definition handle_login ::
  "'s portal \<Rightarrow> authenticator \<Rightarrow> request \<Rightarrow> instant \<Rightarrow> instant \<Rightarrow> 's portal_state \<Rightarrow> response \<times> 's portal_state"
where
  "handle_login p a r now started s =
     (case open_portal p r now of
        Inr u \<Rightarrow> (http_redirect ''/'' 303, s)
      | Inl e \<Rightarrow>
          (case oidc_start (pt_lib p) a (query_get r ''next'') started (ps_rng s) of
             Inl e \<Rightarrow> (http_error 500 ''internal error'', s)
           | Inr ((url, cookie), rng) \<Rightarrow>
               (set_cookie cookie (http_redirect url 303), s\<lparr>ps_rng := rng\<rparr>)))"

definition handle_callback ::
  "'s portal \<Rightarrow> authenticator \<Rightarrow> request \<Rightarrow> login_clock \<Rightarrow> 's portal_state \<Rightarrow> response \<times> 's portal_state"
where
  "handle_callback p a r now s =
     (case oidc_complete (pt_lib p) a r now (ps_rng s) of
        Inl e \<Rightarrow>
          (set_cookie (clear_flow a) (http_error 403 ''sign-in failed''), inc metric_sign_in [] s)
      | Inr ((session, next), rng) \<Rightarrow>
          (set_cookie (clear_flow a) (set_cookie session (http_redirect next 303)), s\<lparr>ps_rng := rng\<rparr>))"

definition handle_logout :: "'s portal \<Rightarrow> authenticator \<Rightarrow> request \<Rightarrow> response" where
  "handle_logout p a r =
     (let target = logout_at_provider (pt_lib p) a (c_logout_url (pt_cfg p)) in
      set_cookie (clear_session (pt_codec p))
        (if target \<noteq> [] then http_redirect target 303 else http_redirect ''/'' 303))"

section \<open>Where an identity comes from\<close>

lemma set_add_roles [simp]: "set (add_roles out rs) = set out \<union> set rs"
  by (induction out rs rule: add_roles.induct) auto

lemma distinct_add_roles [simp]: "distinct (add_roles out rs) = distinct out"
  by (induction out rs rule: add_roles.induct) auto

lemma merge_roles_simps [simp]:
  "set (merge_roles provided local) = set provided \<union> set local" "distinct (merge_roles provided local)"
  by (simp_all add: merge_roles_def)

lemma with_local_roles_simps [simp]:
  "id_username (with_local_roles cfg i) = id_username i" "id_fullname (with_local_roles cfg i) = id_fullname i"
  "set (id_roles (with_local_roles cfg i)) = set (id_roles i) \<union> set (local_roles cfg (id_username i))"
  "distinct (id_roles (with_local_roles cfg i))"
  "id_admin (with_local_roles cfg i) = is_admin cfg (id_roles (with_local_roles cfg i))"
  by (simp_all add: with_local_roles_def Let_def)

lemma is_admin_iff: "is_admin cfg roles \<longleftrightarrow> set roles \<inter> set (c_admin_roles cfg) \<noteq> {}"
  by (auto simp: is_admin_def slice_contains_func_def list_ex_iff)

lemma no_identity_simps [simp]: "id_roles no_identity = []" "id_admin no_identity = False" "id_username no_identity = []"
  by (simp_all add: no_identity_def)

lemma open_portal_headers [simp]: "open_portal p (r\<lparr>rq_headers := hs\<rparr>) now = open_portal p r now"
  by (simp add: open_portal_def open_session_def request_cookie_def)

text \<open>
  C29. Who is asking comes from one place. When the portal signs people in itself, the caller is the
  user of the session cookie and no header of the request changes that; without an open session it
  is nobody, with no name and no role. Behind a proxy the name is the proxy's header. Either way
  the roles are those supplied for that user together with the ones the configuration adds for that
  name, each once, and an administrator is exactly a caller with one of the administrator roles.
\<close>

theorem identity_from_one_source:
  "let i = identify p r now; cfg = pt_cfg p in
   (if pt_oidc p = None then
      id_username i = header_get r (c_username_header cfg)
      \<and> set (id_roles i) = set (roles_of_header (header_get r (c_roles_header cfg)))
          \<union> set (local_roles cfg (header_get r (c_username_header cfg)))
    else
      (\<forall>hs. identify p (r\<lparr>rq_headers := hs\<rparr>) now = i)
      \<and> (case open_portal p r now of
           Inl e \<Rightarrow> id_username i = [] \<and> id_roles i = []
         | Inr u \<Rightarrow> id_username i = us_username u
             \<and> set (id_roles i) = set (us_roles u) \<union> set (local_roles cfg (us_username u))))
   \<and> distinct (id_roles i) \<and> (id_admin i \<longleftrightarrow> set (id_roles i) \<inter> set (c_admin_roles cfg) \<noteq> {})"
proof (cases "pt_oidc p = None")
  case True
  then show ?thesis by (simp add: identify_def is_admin_iff Let_def)
next
  case False
  then show ?thesis by (cases "open_portal p r now") (simp_all add: identify_def is_admin_iff Let_def del: not_None_eq)
qed

end
