(* ===== verification/Ssh_Install.thy ===== *)
theory Ssh_Install
  imports Config Ssh_Ca
begin

text \<open>
  \<^verbatim>\<open>internal/portal/sshinstall.go\<close>: the shell script an SSH credential is delivered as, byte for byte.
  The user's name and the profile's description are the only text in it that nothing but
  printability constrains; the property is that they stay inside comments.
\<close>

section \<open>Lines\<close>

abbreviation nl :: char where "nl \<equiv> CHR 0x0A"
abbreviation tab :: string where "tab \<equiv> [CHR 0x09]"
abbreviation bslash :: string where "bslash \<equiv> [CHR 0x5C]"

definition unlines :: "string list \<Rightarrow> string" where
  "unlines ls = concat (map (\<lambda>l. l @ [nl]) ls)"

section \<open>The script\<close>

definition key_delim :: string where "key_delim = ''GRUFF_KEY_EOF''"
definition cert_delim :: string where "cert_delim = ''GRUFF_CERT_EOF''"
definition conf_delim :: string where "conf_delim = ''GRUFF_CONF_EOF''"

definition ssh_config_fragment :: "ssh_profile \<Rightarrow> string \<Rightarrow> string" where
  "ssh_config_fragment p expires =
     (let hosts = (if s_hosts p = [] then [''# set hosts: on this profile to bind these automatically'']
                   else s_hosts p);
          title = ''# Gruff: '' @ s_name p @ '', expires '' @ expires in
      if has_prefix (hd hosts) ''#'' then
        unlines [title, hd hosts, ''# Host your-host.example.com'',
          ''#     IdentityFile ~/.ssh/gruff/'' @ s_name p @ ''/id_ed25519'',
          ''#     CertificateFile ~/.ssh/gruff/'' @ s_name p @ ''/id_ed25519-cert.pub'',
          ''#     IdentitiesOnly yes'']
      else
        unlines [title, ''Host '' @ join '' '' hosts,
          ''    IdentityFile ~/.ssh/gruff/'' @ s_name p @ ''/id_ed25519'',
          ''    CertificateFile ~/.ssh/gruff/'' @ s_name p @ ''/id_ed25519-cert.pub'',
          ''    IdentitiesOnly yes''])"

definition connect_examples :: "ssh_profile \<Rightarrow> credentials \<Rightarrow> string list" where
  "connect_examples p creds =
     (let host = (if s_hosts p = [] then ''<host>'' else hd (s_hosts p))
      in map (\<lambda>principal. principal @ ''@'' @ host) (cr_principals creds))"

text \<open>The opening comment, up to the line after it.\<close>

definition installer_comment :: "ssh_profile \<Rightarrow> string \<Rightarrow> credentials \<Rightarrow> string list" where
  "installer_comment p user creds =
     [''#!/bin/sh'', ''#'', ''# Gruff SSH credential: '' @ s_description p,
      ''#   issued to  '' @ user, ''#   logs in as '' @ join '', '' (cr_principals creds),
      ''#   expires    '' @ rfc3339 (cr_not_after creds),
      ''#   serial     '' @ dec_nat (unat (cr_serial creds)), ''#'',
      ''# Installs a key and certificate under ~/.ssh/gruff and adds one Include'',
      ''# line to ~/.ssh/config. It downloads nothing and contacts nothing: every'',
      ''# byte it writes is below. Read it before running it.'', ''#'',
      ''# The credential expires on its own. Nothing needs revoking, and Gruff'',
      ''# keeps no copy of the private key.'', []]"

definition installer_setup :: "ssh_profile \<Rightarrow> string list" where
  \<open>installer_setup p =
     [''set -eu'', [], ''DIR="${HOME}/.ssh/gruff/'' @ s_name p @ ''"'', ''CONFIG="${HOME}/.ssh/config"'',
      ''INCLUDE='' @ [CHR 0x27] @ ''Include ~/.ssh/gruff/*/config'' @ [CHR 0x27], [],
      ''umask 077'', ''mkdir -p "$DIR"'', []]\<close>

text \<open>A heredoc whose delimiter is quoted, so that the shell expands nothing in it.\<close>

definition heredoc :: "string \<Rightarrow> string \<Rightarrow> string \<Rightarrow> string \<Rightarrow> string" where
  \<open>heredoc path delim body mode =
     unlines [''cat > "$DIR/'' @ path @ ''" <<'' @ [CHR 0x27] @ delim @ [CHR 0x27]] @ body
     @ unlines [delim, ''chmod '' @ mode @ '' "$DIR/'' @ path @ ''"'', []]\<close>

definition installer_include :: "string list" where
  \<open>installer_include =
     [''if [ ! -f "$CONFIG" ]; then'',
      tab @ ''printf '' @ [CHR 0x27] @ ''%s'' @ bslash @ ''n'' @ [CHR 0x27] @ '' "$INCLUDE" > "$CONFIG"'',
      tab @ ''chmod 600 "$CONFIG"'', tab @ ''echo "created $CONFIG"'',
      ''elif ! grep -qF "$INCLUDE" "$CONFIG"; then'', tab @ ''tmp=$(mktemp)'',
      tab @ ''printf '' @ [CHR 0x27] @ ''%s'' @ bslash @ ''n'' @ bslash @ ''n'' @ [CHR 0x27] @ '' "$INCLUDE" > "$tmp"'',
      tab @ ''cat "$CONFIG" >> "$tmp"'', tab @ ''cat "$tmp" > "$CONFIG"'', tab @ ''rm -f "$tmp"'',
      tab @ ''echo "added Include to $CONFIG"'', ''fi'', []]\<close>

definition installer_known_hosts :: "string \<Rightarrow> string list" where
  \<open>installer_known_hosts known_hosts =
     (if known_hosts = [] then []
      else
        [''KNOWN="${HOME}/.ssh/known_hosts"'', ''CA_LINE='' @ [CHR 0x27] @ known_hosts @ [CHR 0x27],
         ''touch "$KNOWN"'', ''if ! grep -qF "$CA_LINE" "$KNOWN"; then'',
         tab @ ''printf '' @ [CHR 0x27] @ ''%s'' @ bslash @ ''n'' @ [CHR 0x27] @ '' "$CA_LINE" >> "$KNOWN"'',
         tab @ ''echo "added the host certificate authority to $KNOWN"'', ''fi'', []])\<close>

definition installer_report :: "ssh_profile \<Rightarrow> credentials \<Rightarrow> string list" where
  \<open>installer_report p creds =
     [''echo'',
      ''echo "Installed '' @ s_name p @ ''. Expires '' @ rfc3339 (cr_not_after creds) @ ''."'', ''echo'',
      ''echo '' @ [CHR 0x27] @ ''Connect with:'' @ [CHR 0x27]]
     @ map (\<lambda>t. ''echo '' @ [CHR 0x27] @ ''    ssh '' @ t @ [CHR 0x27]) (connect_examples p creds)
     @ [''echo'']\<close>

definition write_ssh_installer :: "ssh_profile \<Rightarrow> string \<Rightarrow> credentials \<Rightarrow> string \<Rightarrow> string" where
  "write_ssh_installer p user creds known_hosts =
     unlines (installer_comment p user creds @ installer_setup p)
     @ heredoc ''id_ed25519'' key_delim
         (cr_private_key creds @ (if has_suffix (cr_private_key creds) [nl] then [] else [nl])) ''600''
     @ heredoc ''id_ed25519-cert.pub'' cert_delim (cr_certificate creds @ [nl]) ''644''
     @ heredoc ''config'' conf_delim (ssh_config_fragment p (rfc3339 (cr_not_after creds))) ''644''
     @ unlines (installer_include @ installer_known_hosts known_hosts @ installer_report p creds)"

section \<open>What the shell executes\<close>

text \<open>The lines that are not comments.\<close>

definition code_lines :: "string \<Rightarrow> string list" where
  "code_lines script = filter (\<lambda>l. \<not> has_prefix l ''#'') (split_on nl script)"

lemma unlines_simps [simp]: "unlines [] = []" "unlines (l # ls) = l @ nl # unlines ls"
  by (simp_all add: unlines_def)

lemma unlines_append: "unlines (a @ b) = unlines a @ unlines b"
  by (simp add: unlines_def)

lemma code_lines_line:
  "nl \<notin> set l \<Longrightarrow> code_lines (l @ nl # s) = (if has_prefix l ''#'' then [] else [l]) @ code_lines s"
  by (simp add: code_lines_def split_on_append_sep)

text \<open>Everything of the script after the two lines that carry free text.\<close>

definition installer_rest :: "ssh_profile \<Rightarrow> credentials \<Rightarrow> string \<Rightarrow> string" where
  "installer_rest p creds known_hosts =
     unlines (drop 4 (installer_comment p [] creds) @ installer_setup p)
     @ heredoc ''id_ed25519'' key_delim
         (cr_private_key creds @ (if has_suffix (cr_private_key creds) [nl] then [] else [nl])) ''600''
     @ heredoc ''id_ed25519-cert.pub'' cert_delim (cr_certificate creds @ [nl]) ''644''
     @ heredoc ''config'' conf_delim (ssh_config_fragment p (rfc3339 (cr_not_after creds))) ''644''
     @ unlines (installer_include @ installer_known_hosts known_hosts @ installer_report p creds)"

lemma installer_split:
  "write_ssh_installer p user creds known_hosts =
     unlines [''#!/bin/sh'', ''#'', ''# Gruff SSH credential: '' @ s_description p, ''#   issued to  '' @ user]
     @ installer_rest p creds known_hosts"
proof -
  have "installer_comment p user creds
      = [''#!/bin/sh'', ''#'', ''# Gruff SSH credential: '' @ s_description p, ''#   issued to  '' @ user]
        @ drop 4 (installer_comment p [] creds)"
    by (simp add: installer_comment_def)
  then show ?thesis
    unfolding write_ssh_installer_def installer_rest_def unlines_append append_assoc by simp
qed

lemma installer_rest_description:
  "installer_rest (p\<lparr>s_description := d\<rparr>) creds known_hosts = installer_rest p creds known_hosts"
proof -
  have 1: "drop 4 (installer_comment (p\<lparr>s_description := d\<rparr>) [] creds) = drop 4 (installer_comment p [] creds)"
    by (simp add: installer_comment_def)
  moreover have "installer_setup (p\<lparr>s_description := d\<rparr>) = installer_setup p" by (simp add: installer_setup_def)
  moreover have "ssh_config_fragment (p\<lparr>s_description := d\<rparr>) = ssh_config_fragment p"
  proof -
    have s: "s_hosts (p\<lparr>s_description := d\<rparr>) = s_hosts p" "s_name (p\<lparr>s_description := d\<rparr>) = s_name p"
      by simp_all
    show ?thesis unfolding ssh_config_fragment_def s ..
  qed
  moreover have "installer_report (p\<lparr>s_description := d\<rparr>) creds = installer_report p creds"
    by (simp add: installer_report_def connect_examples_def)
  ultimately show ?thesis by (simp only: installer_rest_def)
qed

lemma code_lines_hash: "nl \<notin> set l \<Longrightarrow> has_prefix l ''#'' \<Longrightarrow> code_lines (l @ nl # s) = code_lines s"
  by (simp add: code_lines_line)

lemma code_lines_comments:
  "\<forall>l\<in>set ls. nl \<notin> set l \<and> has_prefix l ''#'' \<Longrightarrow> code_lines (unlines ls @ s) = code_lines s"
  by (induction ls) (simp_all add: code_lines_hash del: has_prefix.simps)

lemma printable_one_line: "all_print cats s \<Longrightarrow> nl \<notin> set s"
  using all_print_no_control [of cats s nl] by (auto simp: control_byte_def)


definition example_credentials :: credentials where
  "example_credentials =
     \<lparr>cr_private_key = ''KEY'', cr_certificate = ''CERT'', cr_serial = 7, cr_key_id = ''ann@shell'',
      cr_principals = [''root''], cr_not_after = hour\<rparr>"


end
