(* ===== verification/Portal_Issue.thy ===== *)
theory Portal_Issue
  imports Portal Ssh_Install Atomic_File
begin

text \<open>
  \<^verbatim>\<open>internal/portal/handlers.go\<close> and \<^verbatim>\<open>internal/portal/ssh.go\<close>: the views of profiles, and issuing. A
  handler gets the request, the path value the router found, and the successive readings of the
  clock, \<open>clk 0\<close> first; it returns the response and the state it leaves.
\<close>

section \<open>Guards\<close>

definition forbidden :: response where "forbidden = http_error 403 ''forbidden''"
definition internal_error :: response where "internal_error = http_error 500 ''internal error''"

text \<open>A nil dereference: \<^verbatim>\<open>net/http\<close> recovers and closes the connection with nothing written.\<close>

definition aborted :: response where "aborted = http_error 0 []"

definition authorize ::
  "'s portal \<Rightarrow> identity \<Rightarrow> string \<Rightarrow> 's portal_state \<Rightarrow> (response \<times> 's portal_state) + profile" where
  "authorize p i name s =
     (case config_profile (pt_cfg p) name of
        None \<Rightarrow> Inl (forbidden, s)
      | Some profile \<Rightarrow>
          if \<not> profile_allowed_for profile (id_roles i)
          then Inl (forbidden, inc metric_denied [''kind'', kind_string KindVPN] s)
          else Inr profile)"

definition authorize_ssh ::
  "'s portal \<Rightarrow> identity \<Rightarrow> string \<Rightarrow> 's portal_state \<Rightarrow> (response \<times> 's portal_state) + ssh_profile" where
  "authorize_ssh p i name s =
     (case config_ssh_profile (pt_cfg p) name of
        None \<Rightarrow> Inl (forbidden, s)
      | Some profile \<Rightarrow>
          if \<not> ssh_allowed_for profile (id_roles i)
          then Inl (forbidden, inc metric_denied [''kind'', kind_string KindSSH] s)
          else Inr profile)"

definition printable_username :: "go_env \<Rightarrow> string \<Rightarrow> bool" where
  "printable_username env user = (\<not> 255 < length user \<and> all_print (uc env) user)"

definition client_ip :: "request \<Rightarrow> string" where
  "client_ip r =
     (case split_host_port (rq_remote_addr r) of None \<Rightarrow> rq_remote_addr r | Some (host, _) \<Rightarrow> host)"

definition rate_limited ::
  "string \<Rightarrow> instant \<Rightarrow> 's portal_state \<Rightarrow> response option \<times> 's portal_state" where
  "rate_limited user now s =
     (case allow (ps_limiter s) user now of
        ((ok, wait), l) \<Rightarrow>
          if ok then (None, s\<lparr>ps_limiter := l\<rparr>)
          else
            (Some (with_headers [(''Retry-After'', dec_int (trunc_int (dur_seconds wait)))]
               (http_error 429 ''too many certificates issued recently; try again shortly'')),
             inc metric_rate_limited [] (s\<lparr>ps_limiter := l\<rparr>)))"

definition visible_sessions ::
  "'s portal \<Rightarrow> identity \<Rightarrow> instant \<Rightarrow> 's portal_state \<Rightarrow> session list option \<times> 's portal_state" where
  "visible_sessions p i now s =
     (case (if id_admin i then sa_all (pt_store p) now (ps_store s)
            else sa_for (pt_store p) now (id_username i) (ps_store s)) of
        (r, st) \<Rightarrow> (r, s\<lparr>ps_store := st\<rparr>))"

section \<open>Views\<close>

definition handle_profiles ::
  "'s portal \<Rightarrow> request \<Rightarrow> (nat \<Rightarrow> instant) \<Rightarrow> 's portal_state \<Rightarrow> response \<times> 's portal_state" where
  "handle_profiles p r clk s =
     (let i = identify p r (clk 0);
          views = map (\<lambda>x. (x, profile_allowed_for x (id_roles i))) (c_profiles (pt_cfg p)) in
      (render p (ProfilesView (page_for p i) views (length (filter snd views))), s))"

definition handle_profile ::
  "'s portal \<Rightarrow> request \<Rightarrow> string \<Rightarrow> (nat \<Rightarrow> instant) \<Rightarrow> 's portal_state \<Rightarrow> response \<times> 's portal_state" where
  "handle_profile p r name clk s =
     (let i = identify p r (clk 0) in
      case authorize p i name s of
        Inl out \<Rightarrow> out
      | Inr profile \<Rightarrow> (render p (RulesView (page_for p i) profile), s))"

definition handle_issued ::
  "'s portal \<Rightarrow> request \<Rightarrow> (nat \<Rightarrow> instant) \<Rightarrow> 's portal_state \<Rightarrow> response \<times> 's portal_state" where
  "handle_issued p r clk s =
     (let i = identify p r (clk 0) in
      case visible_sessions p i (clk 1) s of
        (None, s) \<Rightarrow> (internal_error, s)
      | (Some sessions, s) \<Rightarrow> (render p (IssuedView (page_for p i) sessions (id_admin i)), s))"

definition handle_ssh_profiles ::
  "'s portal \<Rightarrow> request \<Rightarrow> (nat \<Rightarrow> instant) \<Rightarrow> 's portal_state \<Rightarrow> response \<times> 's portal_state" where
  "handle_ssh_profiles p r clk s =
     (let i = identify p r (clk 0);
          views = map (\<lambda>x. (x, ssh_allowed_for x (id_roles i))) (c_ssh_profiles (pt_cfg p)) in
      (render p (SshView (page_for p i) views (length (filter snd views))), s))"

section \<open>Issuing\<close>

definition no_store :: "string \<times> string" where "no_store = (''Cache-Control'', ''no-store'')"

definition attachment :: "go_env \<Rightarrow> string \<Rightarrow> string \<times> string" where
  "attachment env filename = (''Content-Disposition'', ''attachment; filename='' @ go_quote (uc env) filename)"

text \<open>Recording what was issued: a failed write is logged, nothing more.\<close>

definition record_issued ::
  "'s portal \<Rightarrow> session \<Rightarrow> instant \<Rightarrow> 's portal_state \<Rightarrow> 's portal_state" where
  "record_issued p x now s =
     inc metric_issued [''kind'', kind_string (ss_kind x), ''profile'', ss_profile x]
       (s\<lparr>ps_store := snd (sa_add (pt_store p) now x (ps_store s))\<rparr>)"

definition vpn_session :: "string \<Rightarrow> profile \<Rightarrow> request \<Rightarrow> instant \<Rightarrow> pki_credentials \<Rightarrow> session" where
  "vpn_session user profile r now creds =
     \<lparr>ss_user = user, ss_profile = p_name profile, ss_kind = KindVPN, ss_serial = pr_serial creds,
      ss_client_ip = client_ip r, ss_issued_at = now, ss_expires_at = pr_not_after creds\<rparr>"

definition vpn_response :: "'s portal \<Rightarrow> string \<Rightarrow> profile \<Rightarrow> pki_credentials \<Rightarrow> response" where
  "vpn_response p user profile creds =
     with_headers
       [(''Content-Type'', ''application/x-openvpn-profile''),
        attachment (pt_env p) (p_name profile @ ''-'' @ compact_stamp (pr_not_after creds) @ ''.ovpn''),
        no_store]
       (http_ok (pt_execute p (c_profile_template (pt_cfg p))
         \<lparr>od_user = user, od_profile = p_name profile, od_duration = duration_string (p_duration profile),
          od_expires_on = rfc3339 (pr_not_after creds), od_certificate = pr_certificate creds,
          od_private_key = pr_private_key creds, od_issuing_ca = pr_issuing_ca creds\<rparr>))"

definition handle_issue ::
  "'s portal \<Rightarrow> request \<Rightarrow> string \<Rightarrow> (nat \<Rightarrow> instant) \<Rightarrow> 's portal_state \<Rightarrow> response \<times> 's portal_state" where
  "handle_issue p r name clk s =
     (let i = identify p r (clk 0); user = id_username i in
      if user = [] then (forbidden, s)
      else if \<not> printable_username (pt_env p) user then (forbidden, s)
      else case authorize p i name s of
        Inl out \<Rightarrow> out
      | Inr profile \<Rightarrow>
      (case rate_limited user (clk 1) s of
         (Some refusal, s) \<Rightarrow> (refusal, s)
       | (None, s) \<Rightarrow>
      (case pt_ca p of
         None \<Rightarrow> (aborted, s)
       | Some ca \<Rightarrow>
      (case pki_issue (pt_pki p) ca user (p_name profile) (p_duration profile) (clk 2) (ps_rng s) of
         Inl e \<Rightarrow> (internal_error, s)
       | Inr (creds, rng) \<Rightarrow>
           (vpn_response p user profile creds,
            record_issued p (vpn_session user profile r (clk 3) creds) (clk 4) (s\<lparr>ps_rng := rng\<rparr>))))))"

definition ssh_session :: "string \<Rightarrow> ssh_profile \<Rightarrow> request \<Rightarrow> instant \<Rightarrow> credentials \<Rightarrow> session" where
  "ssh_session user profile r now creds =
     \<lparr>ss_user = user, ss_profile = s_name profile, ss_kind = KindSSH,
      ss_serial = dec_nat (unat (cr_serial creds)),
      ss_client_ip = client_ip r, ss_issued_at = now, ss_expires_at = cr_not_after creds\<rparr>"

definition ssh_response :: "'s portal \<Rightarrow> ssh_ca \<Rightarrow> string \<Rightarrow> ssh_profile \<Rightarrow> credentials \<Rightarrow> response" where
  "ssh_response p ca user profile creds =
     with_headers
       [(''Content-Type'', ''application/x-shellscript''),
        attachment (pt_env p) (''gruff-'' @ s_name profile @ ''.sh''), no_store]
       (http_ok (write_ssh_installer profile user creds
          (known_hosts_line (pt_ssh p) ca (s_hosts profile))))"

definition handle_ssh_issue ::
  "'s portal \<Rightarrow> request \<Rightarrow> string \<Rightarrow> (nat \<Rightarrow> instant) \<Rightarrow> 's portal_state \<Rightarrow> response \<times> 's portal_state" where
  "handle_ssh_issue p r name clk s =
     (let i = identify p r (clk 0); user = id_username i in
      if user = [] then (forbidden, s)
      else if \<not> printable_username (pt_env p) user then (forbidden, s)
      else case authorize_ssh p i name s of
        Inl out \<Rightarrow> out
      | Inr profile \<Rightarrow>
      (case rate_limited user (clk 1) s of
         (Some refusal, s) \<Rightarrow> (refusal, s)
       | (None, s) \<Rightarrow>
      (case pt_ssh_ca p of
         None \<Rightarrow> (internal_error, s)
       | Some ca \<Rightarrow>
      (case ssh_issue (pt_ssh p) ca user (s_name profile) (s_principals profile) (s_duration profile)
              (granted_extensions profile) (clk 2) (ps_rng s) of
         Inl e \<Rightarrow> (internal_error, s)
       | Inr (creds, rng) \<Rightarrow>
           (ssh_response p ca user profile creds,
            record_issued p (ssh_session user profile r (clk 3) creds) (clk 4) (s\<lparr>ps_rng := rng\<rparr>))))))"

section \<open>What issuing requires and leaves behind\<close>

lemma authorize_Inr:
  "authorize p i name s = Inr profile \<longleftrightarrow>
   config_profile (pt_cfg p) name = Some profile \<and> profile_allowed_for profile (id_roles i)"
  by (auto simp: authorize_def split: option.splits)

lemma authorize_Inl:
  "authorize p i name s = Inl out \<Longrightarrow>
   fst out = forbidden \<and> ps_store (snd out) = ps_store s \<and> ps_limiter (snd out) = ps_limiter s"
  by (auto simp: authorize_def inc_def split: option.splits if_splits)

lemma authorize_ssh_Inr:
  "authorize_ssh p i name s = Inr profile \<longleftrightarrow>
   config_ssh_profile (pt_cfg p) name = Some profile \<and> ssh_allowed_for profile (id_roles i)"
  by (auto simp: authorize_ssh_def split: option.splits)

lemma authorize_ssh_Inl:
  "authorize_ssh p i name s = Inl out \<Longrightarrow>
   fst out = forbidden \<and> ps_store (snd out) = ps_store s \<and> ps_limiter (snd out) = ps_limiter s"
  by (auto simp: authorize_ssh_def inc_def split: option.splits if_splits)

lemma rate_limited_cases:
  "rate_limited user now s = (x, s') \<Longrightarrow>
   ps_limiter s' = snd (allow (ps_limiter s) user now) \<and> ps_store s' = ps_store s \<and> ps_rng s' = ps_rng s
   \<and> (x = None \<longleftrightarrow> fst (fst (allow (ps_limiter s) user now)))
   \<and> (x = None \<longrightarrow> s' = s\<lparr>ps_limiter := snd (allow (ps_limiter s) user now)\<rparr>)
   \<and> (\<forall>resp. x = Some resp \<longrightarrow> rs_status resp = 429)"
  by (auto simp: rate_limited_def inc_def with_headers_def http_error_def split: prod.splits if_splits)

lemma statuses [simp]:
  "rs_status forbidden = 403" "rs_status internal_error = 500" "rs_status aborted = 0"
  "rs_status (http_ok b) = 200" "rs_status (with_headers hs r) = rs_status r"
  "rs_status (http_error n b) = n" "rs_status (http_redirect u n) = n"
  "rs_status (set_cookie c r) = rs_status r"
  by (simp_all add: forbidden_def internal_error_def aborted_def http_ok_def http_error_def http_redirect_def
      with_headers_def set_cookie_def)

text \<open>Every way through the handler: refused, with the store untouched, or issued.\<close>

lemma handle_issue_outcome:
  assumes "handle_issue p r name clk s = (resp, s')"
  defines "user \<equiv> id_username (identify p r (clk 0))"
  shows "(rs_status resp \<noteq> 200 \<and> ps_store s' = ps_store s)
    \<or> (\<exists>profile ca creds rng.
        user \<noteq> [] \<and> printable_username (pt_env p) user
        \<and> config_profile (pt_cfg p) name = Some profile
        \<and> profile_allowed_for profile (id_roles (identify p r (clk 0)))
        \<and> fst (fst (allow (ps_limiter s) user (clk 1)))
        \<and> pt_ca p = Some ca
        \<and> pki_issue (pt_pki p) ca user (p_name profile) (p_duration profile) (clk 2) (ps_rng s) = Inr (creds, rng)
        \<and> resp = vpn_response p user profile creds
        \<and> s' = record_issued p (vpn_session user profile r (clk 3) creds) (clk 4)
            (s\<lparr>ps_limiter := snd (allow (ps_limiter s) user (clk 1)), ps_rng := rng\<rparr>))"
  using assms(1) unfolding user_def [symmetric] handle_issue_def Let_def
  by (auto simp: user_def authorize_Inr dest!: authorize_Inl
      dest: rate_limited_cases split: if_splits sum.splits option.splits prod.splits)

lemma handle_ssh_issue_outcome:
  assumes "handle_ssh_issue p r name clk s = (resp, s')"
  defines "user \<equiv> id_username (identify p r (clk 0))"
  shows "(rs_status resp \<noteq> 200 \<and> ps_store s' = ps_store s)
    \<or> (\<exists>profile ca creds rng.
        user \<noteq> [] \<and> printable_username (pt_env p) user
        \<and> config_ssh_profile (pt_cfg p) name = Some profile
        \<and> ssh_allowed_for profile (id_roles (identify p r (clk 0)))
        \<and> fst (fst (allow (ps_limiter s) user (clk 1)))
        \<and> pt_ssh_ca p = Some ca
        \<and> ssh_issue (pt_ssh p) ca user (s_name profile) (s_principals profile) (s_duration profile)
            (granted_extensions profile) (clk 2) (ps_rng s) = Inr (creds, rng)
        \<and> resp = ssh_response p ca user profile creds
        \<and> s' = record_issued p (ssh_session user profile r (clk 3) creds) (clk 4)
            (s\<lparr>ps_limiter := snd (allow (ps_limiter s) user (clk 1)), ps_rng := rng\<rparr>))"
  using assms(1) unfolding user_def [symmetric] handle_ssh_issue_def Let_def
  by (auto simp: user_def authorize_ssh_Inr dest!: authorize_ssh_Inl
      dest: rate_limited_cases split: if_splits sum.splits option.splits prod.splits)

text \<open>What recording leaves, with the in-memory store.\<close>

lemma record_issued_memory:
  assumes "pt_store p = memory_api"
  shows "st_sessions (ps_store (record_issued p x now s))
      = prune_sessions (store_max (ps_store s)) now (x # st_sessions (ps_store s))"
    and "ps_limiter (record_issued p x now s) = ps_limiter s"
    and "int (length (st_sessions (ps_store s))) < store_max (ps_store s) \<Longrightarrow> now \<le> ss_expires_at x \<Longrightarrow>
      x \<in> set (st_sessions (ps_store (record_issued p x now s)))"
proof -
  show 1: "st_sessions (ps_store (record_issued p x now s))
      = prune_sessions (store_max (ps_store s)) now (x # st_sessions (ps_store s))"
    using assms by (simp add: record_issued_def inc_def memory_api_def store_add_def prune_def store_max_def)
  show "ps_limiter (record_issued p x now s) = ps_limiter s" by (simp add: record_issued_def inc_def)
  let ?live = "filter (\<lambda>y. \<not> session_expired y now) (x # st_sessions (ps_store s))"
  assume a: "int (length (st_sessions (ps_store s))) < store_max (ps_store s)" "now \<le> ss_expires_at x"
  have "length ?live \<le> Suc (length (st_sessions (ps_store s)))"
    using length_filter_le [of "\<lambda>y. \<not> session_expired y now" "x # st_sessions (ps_store s)"] by simp
  with a(1) have le: "int (length ?live) \<le> store_max (ps_store s)" by linarith
  show "x \<in> set (st_sessions (ps_store (record_issued p x now s)))"
    unfolding 1 prune_sessions_under_cap [OF le] using a(2) by (simp add: session_expired_def)
qed

section \<open>Properties\<close>

text \<open>
  C23. A VPN credential is only ever handed to someone entitled to it, and never without a trace.
  An answer of 200 means that the request named a configured profile, that the caller is known by a
  printable name and holds one of the profile's roles, that the caller's budget granted it, and that
  the certificate in the answer is a client certificate for that user and profile which dies within
  the profile's lifetime; what the audit list then holds, unless it is full, is a session with the
  certificate's own serial and expiry. Any other answer leaves the list as it was.
\<close>

theorem vpn_issue_accountable:
  assumes "handle_issue p r name clk s = (resp, s')" "pt_store p = memory_api"
  defines "i \<equiv> identify p r (clk 0)"
  shows "if rs_status resp = 200 then
    (\<exists>profile ca creds tmpl x.
       profile \<in> set (c_profiles (pt_cfg p)) \<and> p_name profile = name
     \<and> (\<exists>role\<in>set (p_roles profile). role \<in> set (id_roles i))
     \<and> id_username i \<noteq> [] \<and> all_print (uc (pt_env p)) (id_username i)
     \<and> fst (fst (allow (ps_limiter s) (id_username i) (clk 1)))
     \<and> ps_limiter s' = snd (allow (ps_limiter s) (id_username i) (clk 1))
     \<and> pt_ca p = Some ca \<and> resp = vpn_response p (id_username i) profile creds
     \<and> x509_for (pt_pki p) ca tmpl creds
     \<and> x_common_name tmpl = id_username i \<and> x_unit tmpl = [name] \<and> x_ext_usage tmpl = [ClientAuth]
     \<and> x_not_after tmpl \<le> clk 2 + p_duration profile \<and> x_not_after tmpl \<le> x_not_after (pc_cert ca)
     \<and> x = vpn_session (id_username i) profile r (clk 3) creds
     \<and> parse_big (ss_serial x) = Some (x_serial tmpl) \<and> ss_expires_at x = x_not_after tmpl
     \<and> st_sessions (ps_store s') = prune_sessions (store_max (ps_store s)) (clk 4) (x # st_sessions (ps_store s))
     \<and> (int (length (st_sessions (ps_store s))) < store_max (ps_store s) \<and> clk 4 \<le> ss_expires_at x
         \<longrightarrow> x \<in> set (st_sessions (ps_store s'))))
    else ps_store s' = ps_store s"
proof (cases "rs_status resp = 200")
  case True
  obtain profile ca creds rng where *: "id_username i \<noteq> []" "printable_username (pt_env p) (id_username i)"
    "config_profile (pt_cfg p) name = Some profile" "profile_allowed_for profile (id_roles i)"
    "fst (fst (allow (ps_limiter s) (id_username i) (clk 1)))" "pt_ca p = Some ca"
    "pki_issue (pt_pki p) ca (id_username i) (p_name profile) (p_duration profile) (clk 2) (ps_rng s) = Inr (creds, rng)"
    "resp = vpn_response p (id_username i) profile creds"
    "s' = record_issued p (vpn_session (id_username i) profile r (clk 3) creds) (clk 4)
        (s\<lparr>ps_limiter := snd (allow (ps_limiter s) (id_username i) (clk 1)), ps_rng := rng\<rparr>)"
    using handle_issue_outcome [OF assms(1)] True by (auto simp: i_def)
  have n: "profile \<in> set (c_profiles (pt_cfg p))" "p_name profile = name"
    using *(3) vpn_lookup.lookup_sound by (simp_all add: config_profile_def)
  from pki_issued [OF *(7)] obtain tmpl where t: "x509_for (pt_pki p) ca tmpl creds"
    "x_common_name tmpl = id_username i" "x_unit tmpl = [name]" "x_ext_usage tmpl = [ClientAuth]"
    "pr_not_after creds = x_not_after tmpl" "pr_not_after creds \<le> clk 2 + p_duration profile"
    "pr_not_after creds \<le> x_not_after (pc_cert ca)" "parse_big (pr_serial creds) = Some (x_serial tmpl)"
    unfolding n(2) by blast
  have r: "\<exists>role\<in>set (p_roles profile). role \<in> set (id_roles i)"
    using *(4) vpn_grant.allowed_iff by blast
  have "all_print (uc (pt_env p)) (id_username i)" using *(2) by (simp add: printable_username_def)
  moreover define x where "x = vpn_session (id_username i) profile r (clk 3) creds"
  moreover have "parse_big (ss_serial x) = Some (x_serial tmpl)" "ss_expires_at x = x_not_after tmpl"
    using t by (simp_all add: x_def vpn_session_def)
  moreover note record_issued_memory [OF assms(2), where x = x and now = "clk 4"
      and s = "s\<lparr>ps_limiter := snd (allow (ps_limiter s) (id_username i) (clk 1)), ps_rng := rng\<rparr>"]
  moreover have "s' = record_issued p x (clk 4)
      (s\<lparr>ps_limiter := snd (allow (ps_limiter s) (id_username i) (clk 1)), ps_rng := rng\<rparr>)"
    using *(9) by (simp add: x_def)
  ultimately show ?thesis
    unfolding if_P [OF True] using *(1,5,6,8) n t r
    by (intro exI [of _ profile] exI [of _ ca] exI [of _ creds] exI [of _ tmpl] exI [of _ x]) simp
next
  case False
  then show ?thesis using handle_issue_outcome [OF assms(1)] by (auto simp: vpn_response_def)
qed

text \<open>
  C24. The same for SSH: an answer of 200 is the installer for a user certificate with exactly the
  principals and extensions of a profile the caller holds a role of, dead within the profile's
  lifetime, and the session recorded carries the serial as the revocation list will read it.
\<close>

theorem ssh_issue_accountable:
  assumes "handle_ssh_issue p r name clk s = (resp, s')" "pt_store p = memory_api"
    and "\<forall>q\<in>set (c_ssh_profiles (pt_cfg p)). window_ok (clk 2) (s_duration q)"
  defines "i \<equiv> identify p r (clk 0)"
  shows "if rs_status resp = 200 then
    (\<exists>profile ca creds cert x.
       profile \<in> set (c_ssh_profiles (pt_cfg p)) \<and> s_name profile = name
     \<and> (\<exists>role\<in>set (s_roles profile). role \<in> set (id_roles i))
     \<and> id_username i \<noteq> [] \<and> all_print (uc (pt_env p)) (id_username i)
     \<and> fst (fst (allow (ps_limiter s) (id_username i) (clk 1)))
     \<and> ps_limiter s' = snd (allow (ps_limiter s) (id_username i) (clk 1))
     \<and> pt_ssh_ca p = Some ca \<and> resp = ssh_response p ca (id_username i) profile creds
     \<and> signed_for (pt_ssh p) ca cert creds \<and> sc_type cert = UserCert
     \<and> sc_key_id cert = id_username i @ ''@'' @ name \<and> sc_principals cert = s_principals profile
     \<and> (\<forall>e. sc_extensions cert e = (if e \<in> set (granted_extensions profile) then Some [] else None))
     \<and> uint (sc_valid_before cert) * second \<le> clk 2 + s_duration profile
     \<and> x = ssh_session (id_username i) profile r (clk 3) creds
     \<and> parse_uint64 (ss_serial x) = Some (unat (sc_serial cert))
     \<and> st_sessions (ps_store s') = prune_sessions (store_max (ps_store s)) (clk 4) (x # st_sessions (ps_store s))
     \<and> (int (length (st_sessions (ps_store s))) < store_max (ps_store s) \<and> clk 4 \<le> ss_expires_at x
         \<longrightarrow> x \<in> set (st_sessions (ps_store s'))))
    else ps_store s' = ps_store s"
proof (cases "rs_status resp = 200")
  case True
  obtain profile ca creds rng where *: "id_username i \<noteq> []" "printable_username (pt_env p) (id_username i)"
    "config_ssh_profile (pt_cfg p) name = Some profile" "ssh_allowed_for profile (id_roles i)"
    "fst (fst (allow (ps_limiter s) (id_username i) (clk 1)))" "pt_ssh_ca p = Some ca"
    "ssh_issue (pt_ssh p) ca (id_username i) (s_name profile) (s_principals profile) (s_duration profile)
       (granted_extensions profile) (clk 2) (ps_rng s) = Inr (creds, rng)"
    "resp = ssh_response p ca (id_username i) profile creds"
    "s' = record_issued p (ssh_session (id_username i) profile r (clk 3) creds) (clk 4)
        (s\<lparr>ps_limiter := snd (allow (ps_limiter s) (id_username i) (clk 1)), ps_rng := rng\<rparr>)"
    using handle_ssh_issue_outcome [OF assms(1)] True by (auto simp: i_def)
  have n: "profile \<in> set (c_ssh_profiles (pt_cfg p))" "s_name profile = name"
    using *(3) ssh_lookup.lookup_sound by (simp_all add: config_ssh_profile_def)
  have "window_ok (clk 2) (s_duration profile)" using assms(3) n(1) by blast
  from ssh_issued [OF *(7) this] obtain cert where t: "signed_for (pt_ssh p) ca cert creds"
    "sc_type cert = UserCert" "sc_key_id cert = id_username i @ ''@'' @ name" "sc_serial cert = cr_serial creds"
    "sc_principals cert = s_principals profile"
    "\<forall>e. sc_extensions cert e = (if e \<in> set (granted_extensions profile) then Some [] else None)"
    "uint (sc_valid_before cert) * second \<le> clk 2 + s_duration profile"
    unfolding n(2) by blast
  have r: "\<exists>role\<in>set (s_roles profile). role \<in> set (id_roles i)"
    using *(4) ssh_grant.allowed_iff by blast
  have "all_print (uc (pt_env p)) (id_username i)" using *(2) by (simp add: printable_username_def)
  moreover define x where "x = ssh_session (id_username i) profile r (clk 3) creds"
  moreover have "parse_uint64 (ss_serial x) = Some (unat (sc_serial cert))"
  proof -
    have "unat (cr_serial creds) < 2 ^ 64" using unsigned_less [of "cr_serial creds"] by simp
    then show ?thesis by (simp add: x_def ssh_session_def t(4) parse_uint64_dec_nat)
  qed
  moreover note record_issued_memory [OF assms(2), where x = x and now = "clk 4"
      and s = "s\<lparr>ps_limiter := snd (allow (ps_limiter s) (id_username i) (clk 1)), ps_rng := rng\<rparr>"]
  moreover have "s' = record_issued p x (clk 4)
      (s\<lparr>ps_limiter := snd (allow (ps_limiter s) (id_username i) (clk 1)), ps_rng := rng\<rparr>)"
    using *(9) by (simp add: x_def)
  ultimately show ?thesis
    unfolding if_P [OF True] using *(1,5,6,8) n t r
    by (intro exI [of _ profile] exI [of _ ca] exI [of _ creds] exI [of _ cert] exI [of _ x]) simp
next
  case False
  then show ?thesis using handle_ssh_issue_outcome [OF assms(1)] by (auto simp: ssh_response_def)
qed

section \<open>A concrete portal\<close>

definition toy_config :: config where
  "toy_config =
     example_config\<lparr>c_profiles := [\<lparr>p_name = ''staff'', p_description = ''Office'', p_duration = hour,
       p_roles = [''eng''], p_routes = [], p_rules = []\<rparr>]\<rparr>"

definition toy_portal :: "store portal" where
  "toy_portal =
     \<lparr>pt_cfg = toy_config, pt_ca = Some toy_pki_ca, pt_ssh_ca = Some toy_ca, pt_oidc = None,
      pt_codec = toy_codec, pt_store = memory_api, pt_version = ''dev'', pt_templates = (\<lambda>_. None),
      pt_execute = (\<lambda>t d. od_certificate d), pt_env = example_env, pt_lib = toy_lib,
      pt_pki = toy_pki_env, pt_ssh = toy_ssh_env\<rparr>"

definition toy_portal_state :: "nat \<Rightarrow> store portal_state" where
  "toy_portal_state n =
     \<lparr>ps_store = new_store 10, ps_limiter = None, ps_metrics = [], ps_rng = replicate n (CHR ''r''),
      ps_world = example_world\<rparr>"

definition toy_request :: request where
  "toy_request = request_with []\<lparr>rq_headers := [(''X-Auth-Username'', ''ann''), (''X-Auth-Roles'', ''ops,eng'')]\<rparr>"

lemma toy_portal_simps [simp]:
  "pt_store toy_portal = memory_api" "pt_cfg toy_portal = toy_config" "pt_ca toy_portal = Some toy_pki_ca"
  "pt_ssh_ca toy_portal = Some toy_ca" "pt_pki toy_portal = toy_pki_env" "pt_ssh toy_portal = toy_ssh_env"
  "pt_env toy_portal = example_env"
  by (simp_all add: toy_portal_def)

lemma toy_state_simps [simp]:
  "ps_limiter (toy_portal_state n) = None" "ps_rng (toy_portal_state n) = replicate n (CHR ''r'')"
  "ps_store (toy_portal_state n) = new_store 10"
  by (simp_all add: toy_portal_state_def)

lemma toy_identify:
  "identify toy_portal toy_request now
     = \<lparr>id_username = ''ann'', id_fullname = [], id_roles = [''ops'', ''eng''], id_admin = True\<rparr>"
proof -
  have "trim_space ''ops'' = ''ops''" "trim_space ''eng'' = ''eng''"
    by (simp_all add: trim_space_ascii is_space_def)
  then have roles: "roles_of_header ''ops,eng'' = [''ops'', ''eng'']" by (simp add: roles_of_header_def)
  have cfg: "c_username_header toy_config = ''X-Auth-Username''" "c_fullname_header toy_config = ''X-Auth-Fullname''"
    "c_roles_header toy_config = ''X-Auth-Roles''" "a_local_roles (c_auth toy_config) = []"
    "c_admin_roles toy_config = [''ops'']"
    by (simp_all add: toy_config_def example_config_def with_defaults_def example_decoded_def cmp_or_def
        default_username_header_def default_fullname_header_def default_roles_header_def empty_auth_def)
  have names: "canonical_name ''X-Auth-Username'' = ''X-Auth-Username''"
    "canonical_name ''X-Auth-Fullname'' = ''X-Auth-Fullname''" "canonical_name ''X-Auth-Roles'' = ''X-Auth-Roles''"
    by code_simp+
  show ?thesis
    by (simp add: identify_def toy_portal_def toy_request_def header_get_def first_value_def cfg roles names
        with_local_roles_def merge_roles_def local_roles_def is_admin_def Let_def)
qed

lemma toy_vpn_lookup:
  "config_profile toy_config ''staff'' = Some \<lparr>p_name = ''staff'', p_description = ''Office'', p_duration = hour,
       p_roles = [''eng''], p_routes = [], p_rules = []\<rparr>"
  by (simp add: config_profile_def toy_config_def)

lemma toy_ssh_lookup: "config_ssh_profile toy_config ''shell'' = Some example_ssh_profile"
  by (simp add: config_ssh_profile_def toy_config_def example_config_def with_defaults_def example_decoded_def
      example_ssh_profile_def)

lemma toy_username: "printable_username example_env ''ann''"
  by code_simp

lemma toy_store [simp]: "st_sessions (new_store n) = []" "store_max (new_store 10) = 10"
  by (simp_all add: new_store_def store_max_def)

theorem vpn_issue_accountable_witness:
  "\<exists>resp s' x. handle_issue toy_portal toy_request ''staff'' (\<lambda>_. 5 * hour) (toy_portal_state 60) = (resp, s')
     \<and> rs_status resp = 200 \<and> st_sessions (ps_store s') = prune_sessions 10 (5 * hour) [x]
     \<and> ss_user x = ''ann'' \<and> ss_expires_at x \<le> 6 * hour
     \<and> rs_status (fst (handle_issue toy_portal (request_with []) ''staff'' (\<lambda>_. 5 * hour) (toy_portal_state 60))) = 403"
proof -
  obtain resp s' where h: "handle_issue toy_portal toy_request ''staff'' (\<lambda>_. 5 * hour) (toy_portal_state 60) = (resp, s')"
    by fastforce
  obtain cr rng where c: "pki_issue toy_pki_env toy_pki_ca ''ann'' ''staff'' hour (5 * hour) (replicate 60 (CHR ''r'')) = Inr (cr, rng)"
    using toy_issue(1) by (cases "pki_issue toy_pki_env toy_pki_ca ''ann'' ''staff'' hour (5 * hour) (replicate 60 (CHR ''r''))") auto
  have ok: "rs_status resp = 200"
    using h c by (auto simp: handle_issue_def toy_identify toy_username authorize_def toy_vpn_lookup
        profile_allowed_for_def rate_limited_def allow_def vpn_response_def Let_def)
  have d: "p_duration q = hour" if "q \<in> set (c_profiles toy_config)" for q
    using that by (simp add: toy_config_def)
  from vpn_issue_accountable [OF h toy_portal_simps(1), unfolded if_P [OF ok] toy_identify
      identity.select_convs toy_portal_simps toy_state_simps toy_store]
  obtain profile creds and tmpl :: x509 and x where "profile \<in> set (c_profiles toy_config)"
    "x_not_after tmpl \<le> 5 * hour + p_duration profile"
    "x = vpn_session ''ann'' profile toy_request (5 * hour) creds" "ss_expires_at x = x_not_after tmpl"
    "st_sessions (ps_store s') = prune_sessions 10 (5 * hour) [x]"
    by blast
  moreover from this have "ss_user x = ''ann''" "ss_expires_at x \<le> 6 * hour"
    using d by (simp_all add: vpn_session_def)
  moreover have "rs_status (fst (handle_issue toy_portal (request_with []) ''staff'' (\<lambda>_. 5 * hour) (toy_portal_state 60))) = 403"
    by (simp add: handle_issue_def identify_def toy_portal_def header_get_def first_value_def with_local_roles_def Let_def)
  ultimately show ?thesis using h ok by blast
qed

theorem ssh_issue_accountable_witness:
  "\<exists>resp s' x. handle_ssh_issue toy_portal toy_request ''shell'' (\<lambda>_. toy_now) (toy_portal_state 80) = (resp, s')
     \<and> rs_status resp = 200 \<and> st_sessions (ps_store s') = prune_sessions 10 toy_now [x]
     \<and> ss_user x = ''ann'' \<and> (\<exists>serial. parse_uint64 (ss_serial x) = Some serial)"
proof -
  obtain resp s' where h: "handle_ssh_issue toy_portal toy_request ''shell'' (\<lambda>_. toy_now) (toy_portal_state 80) = (resp, s')"
    by fastforce
  have ok: "rs_status resp = 200"
    using h by (auto simp: handle_ssh_issue_def toy_identify toy_username authorize_ssh_def toy_ssh_lookup
        ssh_allowed_for_def rate_limited_def allow_def ssh_response_def Let_def example_ssh_profile_def
        ssh_issue_def toy_ssh_env_def take_bytes_def new_serial_def marshal_private_key_def)
  have "window_ok toy_now (4 * hour)" by code_simp
  then have w: "\<forall>q\<in>set (c_ssh_profiles (pt_cfg toy_portal)). window_ok toy_now (s_duration q)"
    by (simp add: toy_config_def example_config_def with_defaults_def example_decoded_def example_ssh_profile_def)
  from ssh_issue_accountable [OF h toy_portal_simps(1) w, unfolded if_P [OF ok] toy_identify
      identity.select_convs toy_portal_simps toy_state_simps toy_store]
  obtain profile creds and cert :: ssh_cert and x where "x = ssh_session ''ann'' profile toy_request toy_now creds"
    "parse_uint64 (ss_serial x) = Some (unat (sc_serial cert))"
    "st_sessions (ps_store s') = prune_sessions 10 toy_now [x]"
    by blast
  moreover from this have "ss_user x = ''ann''" by (simp add: ssh_session_def)
  ultimately show ?thesis using h ok by blast
qed

end
