(* ===== verification/Portal_Revoke.thy ===== *)
theory Portal_Revoke
  imports Portal_Issue Path_Laws
begin

text \<open>
  \<^verbatim>\<open>internal/portal/publish.go\<close>, the handler of \<^verbatim>\<open>internal/portal/revoke.go\<close> and the gauges of
  \<^verbatim>\<open>internal/portal/metrics.go\<close>: revoking a credential and writing the lists that make the VPN server
  and the SSH hosts refuse it.
\<close>

section \<open>Publishing\<close>

datatype publish_error =
    CannotReadRevocations
  | BadSshSerial string
  | CrlError pki_error
  | KrlError ssh_error
  | ListNotWritten write_error

definition crl_file_mode :: nat where "crl_file_mode = 0x1A4"
definition refresh_interval :: duration where "refresh_interval = hour"

definition read_revocations ::
  "'s portal \<Rightarrow> instant \<Rightarrow> kind \<Rightarrow> 's portal_state \<Rightarrow> (publish_error + revocation list) \<times> 's portal_state" where
  "read_revocations p now k s =
     (case sa_revoker (pt_store p) of
        None \<Rightarrow> (Inr [], s)
      | Some rk \<Rightarrow>
          (case rk_revocations rk now k (ps_store s) of
             (None, st) \<Rightarrow> (Inl CannotReadRevocations, s\<lparr>ps_store := st\<rparr>)
           | (Some entries, st) \<Rightarrow> (Inr entries, s\<lparr>ps_store := st\<rparr>)))"

fun parse_serials :: "revocation list \<Rightarrow> publish_error + 64 word list" where
  "parse_serials [] = Inr []"
| "parse_serials (e # es) =
     (case parse_uint64 (rv_serial e) of
        None \<Rightarrow> Inl (BadSshSerial (rv_serial e))
      | Some n \<Rightarrow> and_then (parse_serials es) (\<lambda>ns. Inr (of_nat n # ns)))"

definition current_crl ::
  "'s portal \<Rightarrow> pki_ca \<Rightarrow> (nat \<Rightarrow> instant) \<Rightarrow> 's portal_state \<Rightarrow> (publish_error + string) \<times> 's portal_state" where
  "current_crl p ca clk s =
     (case read_revocations p (clk 0) KindVPN s of
        (Inl e, s) \<Rightarrow> (Inl e, s)
      | (Inr entries, s) \<Rightarrow>
          (case pki_crl (pt_pki p) ca (map (\<lambda>e. (rv_serial e, rv_at e)) entries) (clk 1) (ps_rng s) of
             Inl e \<Rightarrow> (Inl (CrlError e), s)
           | Inr (pem, rng) \<Rightarrow> (Inr pem, s\<lparr>ps_rng := rng\<rparr>)))"

definition current_krl ::
  "'s portal \<Rightarrow> ssh_ca \<Rightarrow> (nat \<Rightarrow> instant) \<Rightarrow> 's portal_state \<Rightarrow> (publish_error + string) \<times> 's portal_state" where
  "current_krl p ca clk s =
     (case read_revocations p (clk 0) KindSSH s of
        (Inl e, s) \<Rightarrow> (Inl e, s)
      | (Inr entries, s) \<Rightarrow>
          (and_then (parse_serials entries) (\<lambda>serials. wrap_error KrlError (krl ca serials (clk 1))), s))"

definition write_list ::
  "'s portal \<Rightarrow> string \<Rightarrow> string \<Rightarrow> 's portal_state \<Rightarrow> (publish_error + unit) \<times> 's portal_state" where
  "write_list p name body s =
     (case atomic_write (path_join (c_configdir_path (pt_cfg p)) name) crl_file_mode [body] (ps_world s) of
        (res, w) \<Rightarrow> (wrap_error ListNotWritten res, s\<lparr>ps_world := w\<rparr>))"

definition publish_crl ::
  "'s portal \<Rightarrow> (nat \<Rightarrow> instant) \<Rightarrow> 's portal_state \<Rightarrow> (publish_error + unit) \<times> 's portal_state" where
  "publish_crl p clk s =
     (case pt_ca p of
        None \<Rightarrow> (Inr (), s)
      | Some ca \<Rightarrow>
          (case current_crl p ca clk s of
             (Inl e, s) \<Rightarrow> (Inl e, s)
           | (Inr crl, s) \<Rightarrow> write_list p ''crl.pem'' crl s))"

definition publish_krl ::
  "'s portal \<Rightarrow> (nat \<Rightarrow> instant) \<Rightarrow> 's portal_state \<Rightarrow> (publish_error + unit) \<times> 's portal_state" where
  "publish_krl p clk s =
     (case pt_ssh_ca p of
        None \<Rightarrow> (Inr (), s)
      | Some ca \<Rightarrow>
          (case current_krl p ca clk s of
             (Inl e, s) \<Rightarrow> (Inl e, s)
           | (Inr body, s) \<Rightarrow> write_list p ''krl'' body s))"

definition publish_revocations ::
  "'s portal \<Rightarrow> (nat \<Rightarrow> instant) \<Rightarrow> 's portal_state \<Rightarrow> (publish_error + unit) \<times> 's portal_state" where
  "publish_revocations p clk s =
     (if \<not> c_configdir_enabled (pt_cfg p) then (Inr (), s)
      else
        case publish_crl p clk s of
          (Inl e, s) \<Rightarrow> (Inl e, s)
        | (Inr _, s) \<Rightarrow> publish_krl p (\<lambda>n. clk (n + 2)) s)"

text \<open>The timer's loop, over the clocks of its ticks until it is cancelled. Errors are only logged.\<close>

definition refresh_revocations ::
  "'s portal \<Rightarrow> (nat \<Rightarrow> instant) list \<Rightarrow> 's portal_state \<Rightarrow> 's portal_state" where
  "refresh_revocations p ticks s =
     (if \<not> c_configdir_enabled (pt_cfg p) then s
      else fold (\<lambda>clk s. snd (publish_revocations p clk s)) ticks s)"

section \<open>Revoking\<close>

definition find_session :: "session list \<Rightarrow> string \<Rightarrow> session option" where
  "find_session xs serial = find (\<lambda>x. ss_serial x = serial) xs"

definition revocation_of :: "session \<Rightarrow> instant \<Rightarrow> revocation" where
  "revocation_of x now =
     \<lparr>rv_serial = ss_serial x, rv_kind = ss_kind x, rv_user = ss_user x, rv_at = now,
      rv_until = ss_expires_at x\<rparr>"

definition handle_revoke ::
  "'s portal \<Rightarrow> request \<Rightarrow> string \<Rightarrow> (nat \<Rightarrow> instant) \<Rightarrow> 's portal_state \<Rightarrow> response \<times> 's portal_state" where
  "handle_revoke p r serial clk s =
     (let i = identify p r (clk 0) in
      if id_username i = [] then (forbidden, s)
      else case sa_revoker (pt_store p) of
        None \<Rightarrow> (http_error 501 ''revocation is not available'', s)
      | Some rk \<Rightarrow>
      (case visible_sessions p i (clk 1) s of
         (None, s) \<Rightarrow> (internal_error, s)
       | (Some shown, s) \<Rightarrow>
      (case find_session shown serial of
         None \<Rightarrow> (forbidden, s)
       | Some x \<Rightarrow>
      (case rk_revoke rk (clk 3) (revocation_of x (clk 2)) (ps_store s) of
         (False, st) \<Rightarrow> (internal_error, s\<lparr>ps_store := st\<rparr>)
       | (True, st) \<Rightarrow>
           (http_redirect ''/issued'' 303,
            snd (publish_revocations p (\<lambda>n. clk (n + 4))
              (inc metric_revoked [''kind'', kind_string (ss_kind x)] (s\<lparr>ps_store := st\<rparr>))))))))"

section \<open>Gauges\<close>

definition collect_tracked ::
  "'s portal \<Rightarrow> instant \<Rightarrow> 's portal_state \<Rightarrow> gauge list \<times> 's portal_state" where
  "collect_tracked p now s =
     (case sa_tracked (pt_store p) of
        None \<Rightarrow> ([], s)
      | Some tracked \<Rightarrow>
          (case tracked now (ps_store s) of
             (None, st) \<Rightarrow> ([], s\<lparr>ps_store := st\<rparr>)
           | (Some (held, limit), st) \<Rightarrow>
               ([\<lparr>g_name = ''gruff_sessions_tracked'', g_help = ''Issued credentials the audit list is holding.'',
                  g_labels = [], g_value = int held\<rparr>,
                 \<lparr>g_name = ''gruff_sessions_capacity'',
                  g_help = ''Most the audit list will hold; past it the oldest-expiring are forgotten and can no longer be revoked.'',
                  g_labels = [], g_value = limit\<rparr>], s\<lparr>ps_store := st\<rparr>)))"

fun collect_active ::
  "'s revoker \<Rightarrow> kind list \<Rightarrow> (nat \<Rightarrow> instant) \<Rightarrow> 's portal_state \<Rightarrow> gauge list \<times> 's portal_state" where
  "collect_active rk [] clk s = ([], s)"
| "collect_active rk (k # ks) clk s =
     (case rk_revocations rk (clk 0) k (ps_store s) of
        (None, st) \<Rightarrow> collect_active rk ks (\<lambda>n. clk (n + 1)) (s\<lparr>ps_store := st\<rparr>)
      | (Some entries, st) \<Rightarrow>
          (case collect_active rk ks (\<lambda>n. clk (n + 1)) (s\<lparr>ps_store := st\<rparr>) of
             (gs, s) \<Rightarrow>
               (\<lparr>g_name = ''gruff_revocations_active'', g_help = ''Revoked credentials that have not yet expired.'',
                 g_labels = format_labels [''kind'', kind_string k], g_value = int (length entries)\<rparr> # gs, s)))"

definition collect_gauges ::
  "'s portal \<Rightarrow> (nat \<Rightarrow> instant) \<Rightarrow> 's portal_state \<Rightarrow> gauge list \<times> 's portal_state" where
  "collect_gauges p clk s =
     (let build = \<lparr>g_name = ''gruff_build_info'', g_help = ''Build information; always 1.'',
                   g_labels = format_labels [''version'', pt_version p], g_value = 1\<rparr> in
      case collect_tracked p (clk 0) s of
        (tracked, s) \<Rightarrow>
          (case sa_revoker (pt_store p) of
             None \<Rightarrow> (build # tracked, s)
           | Some rk \<Rightarrow>
               (case collect_active rk [KindVPN, KindSSH] (\<lambda>n. clk (n + 1)) s of
                  (active, s) \<Rightarrow> (build # tracked @ active, s))))"

definition metrics_handler ::
  "'s portal \<Rightarrow> (nat \<Rightarrow> instant) \<Rightarrow> 's portal_state \<Rightarrow> response \<times> 's portal_state" where
  "metrics_handler p clk s =
     (case collect_gauges p clk s of
        (gauges, s) \<Rightarrow>
          (with_headers [(''Content-Type'', ''text/plain; version=0.0.4; charset=utf-8'')]
             (http_ok (write_to (ps_metrics s) gauges)), s))"

section \<open>What publishing does to the store and the disk\<close>

lemma read_revocations_memory:
  assumes "pt_store p = memory_api"
  shows "read_revocations p now k s =
    (Inr (filter (\<lambda>e. rv_kind e = k \<and> now \<le> rv_until e) (st_revoked (ps_store s))),
     s\<lparr>ps_store := store_step (OpRevocations now k) (ps_store s)\<rparr>)"
proof -
  have f: "filter (\<lambda>e. \<not> rv_until e < now \<and> rv_kind e = k) es
      = filter (\<lambda>e. rv_kind e = k \<and> now \<le> rv_until e) es" for es by (intro filter_cong) auto
  show ?thesis
    using assms by (simp add: f read_revocations_def memory_api_def store_revocations_def prune_revoked_def Let_def)
qed

lemma write_list_Inr:
  assumes "write_list p name body s = (Inr u, s')"
  shows "w_files (ps_world s') = (w_files (ps_world s))
      (path_join (c_configdir_path (pt_cfg p)) name \<mapsto> finished [body] crl_file_mode)"
    and "ps_store s' = ps_store s"
proof -
  obtain res w where a: "atomic_write (path_join (c_configdir_path (pt_cfg p)) name) crl_file_mode [body] (ps_world s)
      = (res, w)" by fastforce
  with assms have r: "wrap_error ListNotWritten res = Inr u" "s' = s\<lparr>ps_world := w\<rparr>" by (simp_all add: write_list_def)
  then have "res = Inr u" by simp
  from atomic_write_ok [OF a [unfolded this]] r(2) show
    "w_files (ps_world s') = (w_files (ps_world s))
      (path_join (c_configdir_path (pt_cfg p)) name \<mapsto> finished [body] crl_file_mode)"
    "ps_store s' = ps_store s" by simp_all
qed

lemma write_list_store [simp]: "ps_store (snd (write_list p name body s)) = ps_store s"
  by (simp add: write_list_def split: prod.split)

text \<open>The store only sees the two readings, whatever fails afterwards.\<close>

lemma publish_crl_store:
  assumes "pt_store p = memory_api"
  shows "ps_store (snd (publish_crl p clk s)) = store_run
    (if pt_ca p = None then [] else [OpRevocations (clk 0) KindVPN]) (ps_store s)"
proof (cases "pt_ca p")
  case (Some ca)
  show ?thesis
  proof (cases "fst (current_crl p ca clk s)")
    case (Inl e)
    then show ?thesis
      using assms Some by (auto simp: publish_crl_def current_crl_def read_revocations_memory split: sum.splits prod.splits)
  next
    case (Inr body)
    then obtain s1 where c: "current_crl p ca clk s = (Inr body, s1)" by (cases "current_crl p ca clk s") auto
    then have "ps_store s1 = store_step (OpRevocations (clk 0) KindVPN) (ps_store s)"
      using assms by (auto simp: current_crl_def read_revocations_memory split: sum.splits)
    with Some c show ?thesis by (simp add: publish_crl_def)
  qed
qed (simp add: publish_crl_def)

lemma publish_krl_store:
  assumes "pt_store p = memory_api"
  shows "ps_store (snd (publish_krl p clk s)) = store_run
    (if pt_ssh_ca p = None then [] else [OpRevocations (clk 0) KindSSH]) (ps_store s)"
proof (cases "pt_ssh_ca p")
  case (Some ca)
  obtain res where "current_krl p ca clk s
      = (res, s\<lparr>ps_store := store_step (OpRevocations (clk 0) KindSSH) (ps_store s)\<rparr>)"
    using assms by (simp add: current_krl_def read_revocations_memory)
  with Some show ?thesis by (cases res) (simp_all add: publish_krl_def)
qed (simp add: publish_krl_def)

text \<open>Publishing is, to the store, a few readings of the lists.\<close>

lemma publish_store:
  assumes "pt_store p = memory_api"
  obtains ops where "ps_store (snd (publish_revocations p clk s)) = store_run ops (ps_store s)"
    and "\<forall>x\<in>set ops. \<exists>n k. n \<le> 2 \<and> x = OpRevocations (clk n) k"
proof -
  obtain res s1 where c: "publish_crl p clk s = (res, s1)" by fastforce
  define vpn where "vpn = (if pt_ca p = None then [] else [OpRevocations (clk 0) KindVPN])"
  define ssh where "ssh = (if pt_ssh_ca p = None then [] else [OpRevocations (clk 2) KindSSH])"
  have s1: "ps_store s1 = store_run vpn (ps_store s)"
    using publish_crl_store [OF assms, of clk s] c by (simp only: snd_conv vpn_def)
  have s2: "ps_store (snd (publish_krl p (\<lambda>n. clk (n + 2)) s1)) = store_run ssh (ps_store s1)"
    using publish_krl_store [OF assms, of "\<lambda>n. clk (n + 2)" s1] by (simp only: ssh_def add_0)
  have run: "store_run (vpn @ ssh) (ps_store s) = store_run ssh (store_run vpn (ps_store s))"
    by (simp add: store_run_def)
  have all: "\<forall>x\<in>set (vpn @ ssh). \<exists>n k. n \<le> 2 \<and> x = OpRevocations (clk n) k"
    by (auto simp: vpn_def ssh_def)
  consider "\<not> c_configdir_enabled (pt_cfg p)" | "c_configdir_enabled (pt_cfg p)" "\<exists>e. res = Inl e"
    | "c_configdir_enabled (pt_cfg p)" "res = Inr ()"
    by (cases res) auto
  then show thesis
  proof cases
    case 1
    then show thesis by (intro that [of "[]"]) (simp_all add: publish_revocations_def)
  next
    case 2
    then show thesis using c s1 all by (intro that [of vpn]) (auto simp: publish_revocations_def)
  next
    case 3
    then have "ps_store (snd (publish_revocations p clk s)) = store_run (vpn @ ssh) (ps_store s)"
      using c s1 s2 run by (simp add: publish_revocations_def)
    then show thesis using all by (rule that)
  qed
qed

section \<open>What is on disk afterwards\<close>

lemma parse_serials_Inr:
  "parse_serials es = Inr ns \<Longrightarrow> map (\<lambda>n. Some (unat n)) ns = map (\<lambda>e. parse_uint64 (rv_serial e)) es"
proof (induction es arbitrary: ns)
  case (Cons e es)
  then obtain n ns' where n: "parse_uint64 (rv_serial e) = Some n" "parse_serials es = Inr ns'" "ns = of_nat n # ns'"
    by (auto simp: and_then_Inr_iff split: option.splits)
  have "n < 2 ^ 64" using n(1) by (auto simp: parse_uint64_def Let_def split: if_splits)
  then have "unat (of_nat n :: 64 word) = n" by (simp add: unsigned_of_nat take_bit_nat_eq_self)
  with n Cons.IH show ?case by simp
qed simp

text \<open>The revocations of a kind that a store holds and that have not run out.\<close>

definition live_revocations :: "instant \<Rightarrow> kind \<Rightarrow> store \<Rightarrow> revocation list" where
  "live_revocations now k st = filter (\<lambda>e. rv_kind e = k \<and> now \<le> rv_until e) (st_revoked st)"

lemma live_after_read:
  "t \<le> now \<Longrightarrow> live_revocations now k (store_step (OpRevocations t k') st) = live_revocations now k st"
  by (auto simp: live_revocations_def store_revocations_def prune_revoked_def Let_def intro!: filter_cong)

lemma ordinary_names: "ordinary ''crl.pem''" "ordinary ''krl''"
  by (simp_all add: ordinary_def)

text \<open>What the two files say, as their readers take them.\<close>

definition crl_on_disk ::
  "'s portal \<Rightarrow> pki_ca \<Rightarrow> files \<Rightarrow> (string \<times> instant) list \<Rightarrow> instant \<Rightarrow> bool" where
  "crl_on_disk p ca m revoked now \<longleftrightarrow>
     (\<exists>tmpl rng der rng'. crl_states revoked now tmpl
        \<and> pe_create_crl (pt_pki p) tmpl (pc_cert ca) (pc_key ca) rng = Some (der, rng')
        \<and> m (path_join (c_configdir_path (pt_cfg p)) ''crl.pem'')
            = Some (finished [pe_encode_pem (pt_pki p) ''X509 CRL'' der] crl_file_mode))"

definition krl_on_disk :: "'s portal \<Rightarrow> ssh_ca \<Rightarrow> files \<Rightarrow> string list \<Rightarrow> bool" where
  "krl_on_disk p ca m revoked \<longleftrightarrow>
     (\<exists>body contents. m (path_join (c_configdir_path (pt_cfg p)) ''krl'') = Some (finished [body] crl_file_mode)
        \<and> read_krl body = Some contents \<and> kc_ca_key contents = ca_signer ca
        \<and> map (\<lambda>n. Some (unat n)) (kc_serials contents) = map parse_uint64 revoked)"

lemma publish_crl_Inr:
  assumes "publish_crl p clk s = (Inr u, s')" "pt_store p = memory_api" "pt_ca p = Some ca"
  shows "crl_on_disk p ca (w_files (ps_world s'))
      (map (\<lambda>e. (rv_serial e, rv_at e)) (live_revocations (clk 0) KindVPN (ps_store s))) (clk 1)"
    and "ps_store s' = store_step (OpRevocations (clk 0) KindVPN) (ps_store s)"
proof -
  obtain body s1 where c: "current_crl p ca clk s = (Inr body, s1)" "write_list p ''crl.pem'' body s1 = (Inr u, s')"
    using assms(1,3) by (auto simp: publish_crl_def split: prod.splits sum.splits)
  then obtain rng where r:
    "pki_crl (pt_pki p) ca (map (\<lambda>e. (rv_serial e, rv_at e)) (live_revocations (clk 0) KindVPN (ps_store s)))
       (clk 1) (ps_rng s) = Inr (body, rng)"
    "ps_store s1 = store_step (OpRevocations (clk 0) KindVPN) (ps_store s)"
    using assms(2) by (auto simp: current_crl_def read_revocations_memory live_revocations_def split: sum.splits)
  from pki_crl_Inr [OF r(1)] write_list_Inr(1) [OF c(2)]
  show "crl_on_disk p ca (w_files (ps_world s'))
      (map (\<lambda>e. (rv_serial e, rv_at e)) (live_revocations (clk 0) KindVPN (ps_store s))) (clk 1)"
    unfolding crl_on_disk_def by auto
  show "ps_store s' = store_step (OpRevocations (clk 0) KindVPN) (ps_store s)"
    using write_list_Inr(2) [OF c(2)] r(2) by simp
qed

lemma publish_krl_Inr:
  assumes "publish_krl p clk s = (Inr u, s')" "pt_store p = memory_api" "pt_ssh_ca p = Some ca"
    and "length (ca_signer ca) + 8 * length (live_revocations (clk 0) KindSSH (ps_store s)) + 13 < 2 ^ 32"
  shows "krl_on_disk p ca (w_files (ps_world s')) (map rv_serial (live_revocations (clk 0) KindSSH (ps_store s)))"
    and "\<forall>q. q \<noteq> path_join (c_configdir_path (pt_cfg p)) ''krl'' \<longrightarrow> w_files (ps_world s') q = w_files (ps_world s) q"
proof -
  let ?es = "live_revocations (clk 0) KindSSH (ps_store s)"
  obtain body s1 where c: "current_krl p ca clk s = (Inr body, s1)" "write_list p ''krl'' body s1 = (Inr u, s')"
    using assms(1,3) by (auto simp: publish_krl_def split: prod.splits sum.splits)
  then obtain ns where n: "parse_serials ?es = Inr ns" "krl ca ns (clk 1) = Inr body" "ps_world s1 = ps_world s"
    using assms(2) by (auto simp: current_krl_def read_revocations_memory live_revocations_def and_then_Inr_iff)
  note m = parse_serials_Inr [OF n(1)]
  then have "length ns = length ?es" by (metis length_map)
  with assms(4) have "length (ca_signer ca) + 8 * length ns + 13 < 2 ^ 32" by simp
  from krl_reads_back [OF this, of "clk 1"] n(2)
  have "read_krl body = Some \<lparr>kc_ca_key = ca_signer ca, kc_version = word_of_int (unix (clk 1)), kc_serials = ns\<rparr>"
    by (auto split: if_splits)
  then show "krl_on_disk p ca (w_files (ps_world s')) (map rv_serial ?es)"
    using write_list_Inr(1) [OF c(2)] m by (auto simp: krl_on_disk_def comp_def intro!: exI [of _ body])
  show "\<forall>q. q \<noteq> path_join (c_configdir_path (pt_cfg p)) ''krl'' \<longrightarrow> w_files (ps_world s') q = w_files (ps_world s) q"
    using write_list_Inr(1) [OF c(2)] n(3) by simp
qed

section \<open>Properties\<close>

text \<open>
  C25. What was revoked is what the servers are told. When publishing succeeds, \<^verbatim>\<open>crl.pem\<close> is complete
  on disk and lists exactly the VPN serials revoked and not yet expired, each with the time it was
  revoked, current for a day; and \<^verbatim>\<open>krl\<close> is complete on disk, is scoped to this CA, and decodes to
  exactly the SSH serials revoked and not yet expired. Neither write disturbs the other.
\<close>

theorem published_lists:
  assumes "publish_revocations p clk s = (Inr u, s')" "pt_store p = memory_api"
    and "c_configdir_enabled (pt_cfg p)" "c_configdir_path (pt_cfg p) \<noteq> []" "clk 0 \<le> clk 2"
    and "\<forall>ca. pt_ssh_ca p = Some ca \<longrightarrow>
      length (ca_signer ca) + 8 * length (live_revocations (clk 2) KindSSH (ps_store s)) + 13 < 2 ^ 32"
  shows "(\<forall>ca. pt_ca p = Some ca \<longrightarrow> crl_on_disk p ca (w_files (ps_world s'))
           (map (\<lambda>e. (rv_serial e, rv_at e)) (live_revocations (clk 0) KindVPN (ps_store s))) (clk 1))
    \<and> (\<forall>ca. pt_ssh_ca p = Some ca \<longrightarrow> krl_on_disk p ca (w_files (ps_world s'))
           (map rv_serial (live_revocations (clk 2) KindSSH (ps_store s))))"
proof -
  let ?dir = "c_configdir_path (pt_cfg p)"
  obtain s1 where 1: "publish_crl p clk s = (Inr (), s1)" "publish_krl p (\<lambda>n. clk (n + 2)) s1 = (Inr u, s')"
    using assms(1,3) by (auto simp: publish_revocations_def split: prod.splits sum.splits)
  have apart: "path_join ?dir ''crl.pem'' \<noteq> path_join ?dir ''krl''"
    using path_join_inject [OF ordinary_names assms(4,4)] by auto
  have store: "live_revocations (clk 2) KindSSH (ps_store s1) = live_revocations (clk 2) KindSSH (ps_store s)"
    using publish_crl_store [OF assms(2), of clk s] 1(1) live_after_read [OF assms(5)]
    by (cases "pt_ca p") (simp_all del: store_step.simps)
  have len: "\<forall>ca. pt_ssh_ca p = Some ca \<longrightarrow>
      length (ca_signer ca) + 8 * length (live_revocations (clk (0 + 2)) KindSSH (ps_store s1)) + 13 < 2 ^ 32"
    using assms(6) unfolding add_0 store .
  have keep: "w_files (ps_world s') (path_join ?dir ''crl.pem'') = w_files (ps_world s1) (path_join ?dir ''crl.pem'')"
  proof (cases "pt_ssh_ca p")
    case None
    then show ?thesis using 1(2) by (simp add: publish_krl_def)
  next
    case (Some ca)
    from publish_krl_Inr(2) [OF 1(2) assms(2) Some len [rule_format, OF Some]] apart show ?thesis by simp
  qed
  show ?thesis
  proof (intro conjI allI impI)
    fix ca assume "pt_ca p = Some ca"
    from publish_crl_Inr(1) [OF 1(1) assms(2) this] show "crl_on_disk p ca (w_files (ps_world s'))
        (map (\<lambda>e. (rv_serial e, rv_at e)) (live_revocations (clk 0) KindVPN (ps_store s))) (clk 1)"
      unfolding crl_on_disk_def keep .
  next
    fix ca assume ca: "pt_ssh_ca p = Some ca"
    from publish_krl_Inr(1) [OF 1(2) assms(2) ca len [rule_format, OF ca]] show "krl_on_disk p ca (w_files (ps_world s'))
        (map rv_serial (live_revocations (clk 2) KindSSH (ps_store s)))" unfolding add_0 store .
  qed
qed

section \<open>Who can revoke what\<close>

lemma visible_sessions_memory:
  assumes "pt_store p = memory_api"
  shows "visible_sessions p i now s =
    (Some (fst (memory_store.visible now (id_admin i) (id_username i) (ps_store s))),
     s\<lparr>ps_store := prune now (ps_store s)\<rparr>)"
  using assms by (simp add: visible_sessions_def memory_api_def memory_store.visible_def store_all_def
      store_for_def Let_def)

lemma find_session_Some: "find_session xs serial = Some x \<Longrightarrow> x \<in> set xs \<and> ss_serial x = serial"
  by (auto simp: find_session_def find_Some_iff)

lemma handle_revoke_outcome:
  assumes "handle_revoke p r serial clk s = (resp, s')" "pt_store p = memory_api"
  defines "i \<equiv> identify p r (clk 0)"
  defines "st \<equiv> prune (clk 1) (ps_store s)"
  shows "(rs_status resp \<noteq> 303 \<and> st_revoked (ps_store s') = st_revoked (ps_store s))
    \<or> (\<exists>x s1. id_username i \<noteq> []
        \<and> find_session (fst (memory_store.visible (clk 1) (id_admin i) (id_username i) (ps_store s))) serial = Some x
        \<and> ps_store s1 = store_revoke (clk 3) (revocation_of x (clk 2)) st
        \<and> s' = snd (publish_revocations p (\<lambda>n. clk (n + 4)) s1) \<and> rs_status resp = 303)"
proof (cases "id_username i = []")
  case True
  then show ?thesis using assms(1) by (auto simp: handle_revoke_def i_def Let_def)
next
  case u: False
  obtain rk where rk: "sa_revoker (pt_store p) = Some rk" "rk_revoke rk = (\<lambda>now r s. (True, store_revoke now r s))"
    using assms(2) by (simp add: memory_api_def)
  let ?shown = "fst (memory_store.visible (clk 1) (id_admin i) (id_username i) (ps_store s))"
  show ?thesis
  proof (cases "find_session ?shown serial")
    case None
    then show ?thesis
      using assms(1) u by (auto simp: handle_revoke_def i_def Let_def rk visible_sessions_memory [OF assms(2)])
  next
    case (Some x)
    let ?s1 = "inc metric_revoked [''kind'', kind_string (ss_kind x)]
      (s\<lparr>ps_store := store_revoke (clk 3) (revocation_of x (clk 2)) st\<rparr>)"
    have "ps_store ?s1 = store_revoke (clk 3) (revocation_of x (clk 2)) st" by (simp add: inc_def)
    moreover have "s' = snd (publish_revocations p (\<lambda>n. clk (n + 4)) ?s1)" "rs_status resp = 303"
      using assms(1) u Some
      by (auto simp: handle_revoke_def i_def Let_def rk visible_sessions_memory [OF assms(2)] st_def)
    ultimately show ?thesis using u Some by blast
  qed
qed

text \<open>
  C26. A credential is revoked by the person it was issued to or by an administrator, and by nobody
  else. When the portal says it was done, the caller is known by name, the serial is that of a
  listed, unexpired session which is the caller's own unless the caller is an administrator, and
  the revocation, if the serial was not revoked before, is on every list of its kind until the
  credential would have expired. Any other answer leaves every revocation as it was.
\<close>

theorem revoke_own_or_admin:
  assumes "handle_revoke p r serial clk s = (resp, s')" "pt_store p = memory_api"
  defines "i \<equiv> identify p r (clk 0)"
  shows "if rs_status resp = 303 then
    (\<exists>x. x \<in> set (fst (store_all (clk 1) (ps_store s))) \<and> ss_serial x = serial
       \<and> \<not> session_expired x (clk 1)
       \<and> id_username i \<noteq> [] \<and> (id_admin i \<or> ss_user x = id_username i)
       \<and> (\<forall>later. (\<forall>e\<in>set (st_revoked (ps_store s)). rv_serial e \<noteq> serial)
            \<and> (\<forall>n\<le>6. clk n \<le> ss_expires_at x) \<and> later \<le> ss_expires_at x
            \<longrightarrow> revocation_of x (clk 2) \<in> set (fst (store_revocations later (ss_kind x) (ps_store s')))))
    else st_revoked (ps_store s') = st_revoked (ps_store s)"
proof (cases "rs_status resp = 303")
  case True
  then obtain x s1 where *: "id_username i \<noteq> []"
    "find_session (fst (memory_store.visible (clk 1) (id_admin i) (id_username i) (ps_store s))) serial = Some x"
    "ps_store s1 = store_revoke (clk 3) (revocation_of x (clk 2)) (prune (clk 1) (ps_store s))"
    "s' = snd (publish_revocations p (\<lambda>n. clk (n + 4)) s1)"
    using handle_revoke_outcome [OF assms(1,2)] unfolding i_def by blast
  let ?r = "revocation_of x (clk 2)"
  have x: "x \<in> set (fst (memory_store.visible (clk 1) (id_admin i) (id_username i) (ps_store s)))" "ss_serial x = serial"
    using find_session_Some [OF *(2)] by auto
  have r: "rv_serial ?r = serial" "rv_until ?r = ss_expires_at x" "rv_kind ?r = ss_kind x"
    using x(2) by (simp_all add: revocation_of_def)
  obtain ops where ops: "ps_store s' = store_run ops (ps_store s1)"
    "\<forall>y\<in>set ops. \<exists>n k. n \<le> 2 \<and> y = OpRevocations (clk (n + 4)) k"
    using publish_store [OF assms(2), of "\<lambda>n. clk (n + 4)" s1] unfolding *(4) by metis
  have "?r \<in> set (fst (store_revocations later (ss_kind x) (ps_store s')))"
    if fresh: "\<forall>e\<in>set (st_revoked (ps_store s)). rv_serial e \<noteq> serial"
      and times: "\<forall>n\<le>6. clk n \<le> ss_expires_at x" and later: "later \<le> ss_expires_at x" for later
  proof -
    have "?r \<in> set (st_revoked (ps_store s1))"
      unfolding *(3) using fresh times [rule_format, of 3]
      by (intro memory_store.revoke_known) (simp_all add: r)
    moreover have "op_now y \<le> ss_expires_at x" if m: "y \<in> set ops" for y
    proof -
      obtain n k where y: "n \<le> 2" "y = OpRevocations (clk (n + 4)) k"
        using bspec [OF ops(2) m] by blast
      from y(1) have "n + 4 \<le> 6" by arith
      with times have "clk (n + 4) \<le> ss_expires_at x" by blast
      then show ?thesis by (simp only: y(2) op_now.simps)
    qed
    ultimately have "?r \<in> set (st_revoked (ps_store s'))"
      unfolding ops(1) by (intro run_keeps_revocation) (simp_all add: r)
    then show ?thesis using later r by (simp add: memory_store.listed_iff)
  qed
  then have listed: "\<forall>later. (\<forall>e\<in>set (st_revoked (ps_store s)). rv_serial e \<noteq> serial)
        \<and> (\<forall>n\<le>6. clk n \<le> ss_expires_at x) \<and> later \<le> ss_expires_at x
      \<longrightarrow> ?r \<in> set (fst (store_revocations later (ss_kind x) (ps_store s')))" by blast
  show ?thesis
    unfolding if_P [OF True]
    by (rule exI [of _ x]) (intro conjI listed x(2) *(1) memory_store.visible_own [OF x(1)]
        memory_store.visible_within_all [OF x(1)] memory_store.visible_live [OF x(1)])
next
  case False
  then show ?thesis using handle_revoke_outcome [OF assms(1,2)] by auto
qed

section \<open>A concrete revocation\<close>

definition toy_revocation :: "kind \<Rightarrow> string \<Rightarrow> revocation" where
  "toy_revocation k serial =
     \<lparr>rv_serial = serial, rv_kind = k, rv_user = ''ann'', rv_at = hour, rv_until = 9 * hour\<rparr>"

definition toy_publisher :: "pki_ca option \<Rightarrow> ssh_ca option \<Rightarrow> store portal" where
  "toy_publisher ca ssh_ca =
     toy_portal\<lparr>pt_cfg := toy_config\<lparr>c_configdir_enabled := True, c_configdir_path := ''/vpn''\<rparr>,
                pt_ca := ca, pt_ssh_ca := ssh_ca\<rparr>"

definition toy_revoked_state :: "store portal_state" where
  "toy_revoked_state =
     (toy_portal_state 60)
       \<lparr>ps_store := (new_store 10)\<lparr>st_sessions := [example_session ''9'' (9 * hour)],
          st_revoked := [toy_revocation KindVPN ''42'', toy_revocation KindSSH ''7'']\<rparr>,
        ps_world := example_world\<lparr>w_faults := []\<rparr>\<rparr>"

lemma toy_writes:
  assumes "path \<in> {''/vpn/crl.pem'', ''/vpn/krl''}"
  shows "fst (atomic_write path mode body (example_world\<lparr>w_faults := []\<rparr>)) = Inr ()"
proof -
  have "path_dir ''/vpn/crl.pem'' = ''/vpn''" "path_base ''/vpn/crl.pem'' = ''crl.pem''"
    "path_dir ''/vpn/krl'' = ''/vpn''" "path_base ''/vpn/krl'' = ''krl''"
    "temp_path ''/vpn'' ''.crl.pem.'' 7 = ''/vpn/.crl.pem.7''" "temp_path ''/vpn'' ''.krl.'' 7 = ''/vpn/.krl.7''"
    by code_simp+
  with assms show ?thesis
    by (intro atomic_write_works) (auto simp: example_world_def)
qed

lemma toy_paths: "path_join ''/vpn'' ''crl.pem'' = ''/vpn/crl.pem''" "path_join ''/vpn'' ''krl'' = ''/vpn/krl''"
  by code_simp+

lemma toy_publisher_simps [simp]:
  "pt_store (toy_publisher a b) = memory_api" "c_configdir_enabled (pt_cfg (toy_publisher a b))"
  "c_configdir_path (pt_cfg (toy_publisher a b)) = ''/vpn''" "pt_ca (toy_publisher a b) = a"
  "pt_ssh_ca (toy_publisher a b) = b" "pt_pki (toy_publisher a b) = toy_pki_env"
  by (simp_all add: toy_publisher_def toy_portal_def)

lemma toy_write_list:
  assumes "name \<in> {''crl.pem'', ''krl''}" "ps_world s = example_world\<lparr>w_faults := []\<rparr>"
  shows "\<exists>s'. write_list (toy_publisher a b) name body s = (Inr (), s')"
  using assms toy_writes [of "path_join ''/vpn'' name" crl_file_mode "[body]"] toy_paths
  by (auto simp: write_list_def split: prod.split)

lemma toy_crl_published:
  "\<exists>s'. publish_revocations (toy_publisher (Some toy_pki_ca) None) (\<lambda>_. 5 * hour) toy_revoked_state = (Inr (), s')"
proof -
  let ?p = "toy_publisher (Some toy_pki_ca) None :: store portal"
  have "parse_big ''42'' = Some 42" by code_simp
  then have "\<exists>body rng. pki_crl toy_pki_env toy_pki_ca [(''42'', hour)] (5 * hour) (replicate 60 (CHR ''r'')) = Inr (body, rng)"
    by (simp add: pki_crl_def rand_int_def take_bytes_def toy_pki_env_def)
  then obtain body s1 where "current_crl ?p toy_pki_ca (\<lambda>_. 5 * hour) toy_revoked_state = (Inr body, s1)"
    "ps_world s1 = example_world\<lparr>w_faults := []\<rparr>"
    by (auto simp: current_crl_def read_revocations_memory toy_revoked_state_def toy_revocation_def
        toy_portal_state_def)
  moreover from toy_write_list [OF _ this(2)] obtain s2 where
    "write_list ?p ''crl.pem'' body s1 = (Inr (), s2)" by blast
  ultimately show ?thesis by (simp add: publish_revocations_def publish_crl_def publish_krl_def)
qed

lemma toy_krl_published:
  "\<exists>s'. publish_revocations (toy_publisher None (Some toy_ca)) (\<lambda>_. 5 * hour) toy_revoked_state = (Inr (), s')"
proof -
  let ?p = "toy_publisher None (Some toy_ca) :: store portal"
  have "parse_uint64 ''7'' = Some 7" by (simp add: parse_uint64_def is_digit_def digit_value_def)
  moreover have "\<exists>body. krl toy_ca [7] (5 * hour) = Inr body"
    using krl_reads_back [of toy_ca "[7]" "5 * hour"] by auto
  ultimately obtain body s1 where "current_krl ?p toy_ca (\<lambda>_. 5 * hour) toy_revoked_state = (Inr body, s1)"
    "ps_world s1 = example_world\<lparr>w_faults := []\<rparr>"
    by (auto simp: current_krl_def read_revocations_memory toy_revoked_state_def toy_revocation_def)
  moreover from toy_write_list [OF _ this(2)] obtain s2 where
    "write_list ?p ''krl'' body s1 = (Inr (), s2)" by blast
  ultimately show ?thesis by (simp add: publish_revocations_def publish_crl_def publish_krl_def)
qed

lemma toy_live:
  "now \<le> 9 * hour \<Longrightarrow> live_revocations now KindVPN (ps_store toy_revoked_state) = [toy_revocation KindVPN ''42'']"
  "now \<le> 9 * hour \<Longrightarrow> live_revocations now KindSSH (ps_store toy_revoked_state) = [toy_revocation KindSSH ''7'']"
  by (simp_all add: live_revocations_def toy_revoked_state_def toy_revocation_def)

theorem published_lists_witness:
  "(\<exists>s' :: store portal_state. crl_on_disk (toy_publisher (Some toy_pki_ca) None) toy_pki_ca (w_files (ps_world s')) [(''42'', hour)] (5 * hour))
   \<and> (\<exists>s' :: store portal_state. krl_on_disk (toy_publisher None (Some toy_ca)) toy_ca (w_files (ps_world s')) [''7''])"
proof -
  obtain s1 where 1: "publish_revocations (toy_publisher (Some toy_pki_ca) None) (\<lambda>_. 5 * hour) toy_revoked_state = (Inr (), s1)"
    using toy_crl_published by blast
  obtain s2 where 2: "publish_revocations (toy_publisher None (Some toy_ca)) (\<lambda>_. 5 * hour) toy_revoked_state = (Inr (), s2)"
    using toy_krl_published by blast
  from published_lists [OF 1] published_lists [OF 2] show ?thesis
    by (auto simp: toy_live toy_revocation_def)
qed

text \<open>The administrator ann revokes the certificate that was issued with serial 9.\<close>

definition toy_admin_state :: "store portal_state" where
  "toy_admin_state =
     (toy_portal_state 60)\<lparr>ps_store := (new_store 10)\<lparr>st_sessions := [example_session ''9'' (9 * hour)]\<rparr>\<rparr>"

theorem revoke_own_or_admin_witness:
  "rs_status (fst (handle_revoke toy_portal toy_request ''9'' (\<lambda>_. 5 * hour) toy_admin_state)) = 303
   \<and> revocation_of (example_session ''9'' (9 * hour)) (5 * hour)
       \<in> set (fst (store_revocations (6 * hour) KindVPN
           (ps_store (snd (handle_revoke toy_portal toy_request ''9'' (\<lambda>_. 5 * hour) toy_admin_state)))))"
proof -
  obtain resp s' where h: "handle_revoke toy_portal toy_request ''9'' (\<lambda>_. 5 * hour) toy_admin_state = (resp, s')"
    by fastforce
  let ?x = "example_session ''9'' (9 * hour)"
  have all: "fst (store_all (5 * hour) (ps_store toy_admin_state)) = [?x]"
    by (simp add: toy_admin_state_def example_session_def store_all_def prune_def prune_sessions_def
        session_expired_def prune_revoked_def store_max_def new_store_def Let_def)
  have found: "find_session [?x] ''9'' = Some ?x" by (simp add: find_session_def example_session_def)
  have x: "ss_expires_at (example_session a b) = b" "ss_kind (example_session a b) = KindVPN" for a b
    by (simp_all add: example_session_def)
  have st: "rs_status resp = 303"
    using h all found by (auto simp: handle_revoke_def toy_identify visible_sessions_memory Let_def memory_api_def
        memory_store.visible_def)
  have none: "st_revoked (ps_store toy_admin_state) = []" by (simp add: toy_admin_state_def new_store_def)
  have "revocation_of ?x (5 * hour) \<in> set (fst (store_revocations (6 * hour) KindVPN (ps_store s')))"
    using revoke_own_or_admin [OF h toy_portal_simps(1), unfolded if_P [OF st] all none] by (auto simp: x)
  with st h show ?thesis by simp
qed

end
