(* ===== verification/Portal_Setup.thy ===== *)
theory Portal_Setup
  imports Portal_Issue Path_Laws
begin

text \<open>
  \<^verbatim>\<open>internal/portal/setup.go\<close>: what a host needs in order to trust the portal, shown on the setup page.
  Public material only.
\<close>

section \<open>The material\<close>

text \<open>The keys of a Go map used as a set, sorted: each once, in the order of their bytes.\<close>

definition sorted_keys :: "string list \<Rightarrow> string list" where
  "sorted_keys xs = sort (remdups xs)"

definition host_patterns :: "ssh_profile list \<Rightarrow> string list" where
  "host_patterns ps = sorted_keys (concat (map s_hosts ps))"

fun first_host :: "ssh_profile list \<Rightarrow> string" where
  "first_host [] = ''<this-host>''"
| "first_host (p # ps) = (case s_hosts p of [] \<Rightarrow> first_host ps | h # _ \<Rightarrow> h)"

definition example_host :: "config \<Rightarrow> string" where
  "example_host cfg = first_host (c_ssh_profiles cfg)"

abbreviation apostrophe :: char where "apostrophe \<equiv> CHR 0x27"

definition sshd_config :: "config \<Rightarrow> string" where
  "sshd_config cfg = join [newline]
     ([''# Trust user certificates signed by Gruff. The key is above; copy it here.'',
       ''TrustedUserCAKeys /etc/ssh/gruff_ca.pub'',
       [],
       ''# Present this host'' @ apostrophe # ''s own certificate, so clients stop being asked to'',
       ''# confirm a fingerprint:  gruff sign-host -host '' @ example_host cfg,
       ''HostCertificate /etc/ssh/ssh_host_ed25519_key-cert.pub'',
       [],
       ''# Certificates Gruff has revoked. A missing file here does not stop sshd'',
       ''# starting - it silently refuses every public key. Put an empty one in'',
       ''# place first if you have nothing to revoke yet.'']
      @ (if c_configdir_enabled cfg \<and> c_configdir_path cfg \<noteq> []
         then [''# Gruff rewrites '' @ c_configdir_path cfg @ ''/krl hourly and on every revocation;'',
               ''# ship that file to each host.'']
         else [''# Enable configdir-path on the portal to have Gruff write one.''])
      @ [''RevokedKeys /etc/ssh/gruff_krl'',
         [],
         ''# Only let a certificate log in as a principal listed for that login.'',
         ''AuthorizedPrincipalsFile /etc/ssh/auth_principals/%u'',
         [],
         ''# Certificates are the only credential; nothing long-lived is enrolled.'',
         ''PasswordAuthentication no'',
         ''AuthenticationMethods publickey''])"

definition principals_files :: "ssh_profile list \<Rightarrow> principals_file list" where
  "principals_files ps =
     map (\<lambda>q. \<lparr>pf_path = ''/etc/ssh/auth_principals/'' @ q, pf_content = q\<rparr>)
       (sorted_keys (concat (map s_principals ps)))"

definition openvpn_config :: "config \<Rightarrow> string" where
  "openvpn_config cfg =
     (let dir = (if c_configdir_path cfg = [] then ''/var/lib/gruff/profiles'' else c_configdir_path cfg) in
      unlines
        [''ca /etc/openvpn/gruff-ca.pem'',
         [],
         ''# Routes come from this hook, not client-config-dir: the certificate'' @ apostrophe # ''s'',
         ''# common name is the user, so a ccd file cannot select a profile. The'',
         ''# hook reads the profile from the certificate and refuses anything else.'',
         ''script-security 2'',
         ''client-connect '' @ dir @ ''/rules/connect.sh'',
         [],
         ''# Revoked certificates. Gruff rewrites this hourly and on revocation.'',
         ''crl-verify '' @ dir @ ''/crl.pem''])"

section \<open>The page\<close>

definition ssh_setup_of :: "'s portal \<Rightarrow> ssh_setup option" where
  "ssh_setup_of p =
     (case pt_ssh_ca p of
        None \<Rightarrow> None
      | Some ca \<Rightarrow>
          if c_ssh_profiles (pt_cfg p) = [] then None
          else Some \<lparr>su_ca_public_key = ssh_public_key (pt_ssh p) ca,
                     su_fingerprint = ssh_fingerprint (pt_ssh p) ca,
                     su_sshd_config = sshd_config (pt_cfg p),
                     su_known_hosts = known_hosts_line (pt_ssh p) ca (host_patterns (c_ssh_profiles (pt_cfg p))),
                     su_principals_files = principals_files (c_ssh_profiles (pt_cfg p))\<rparr>)"

definition vpn_setup_of :: "'s portal \<Rightarrow> vpn_setup option" where
  "vpn_setup_of p =
     (case pt_ca p of
        None \<Rightarrow> None
      | Some ca \<Rightarrow>
          if c_profiles (pt_cfg p) = [] then None
          else Some \<lparr>su_ca_certificate = trim_space (certificate_pem (pt_pki p) ca),
                     su_openvpn_config = openvpn_config (pt_cfg p)\<rparr>)"

definition handle_setup ::
  "'s portal \<Rightarrow> request \<Rightarrow> (nat \<Rightarrow> instant) \<Rightarrow> 's portal_state \<Rightarrow> response \<times> 's portal_state" where
  "handle_setup p r clk s =
     (let i = identify p r (clk 0) in
      (render p (SetupView (page_for p i) (ssh_setup_of p) (vpn_setup_of p)), s))"

section \<open>The page says what the program does\<close>

lemma sorted_keys_simps [simp]:
  "set (sorted_keys xs) = set xs" "sorted (sorted_keys xs)" "distinct (sorted_keys xs)"
  by (simp_all add: sorted_keys_def)

lemma principal_name_ordinary:
  assumes "principal_name_matches q"
  shows "ordinary q"
proof -
  obtain c cs where q: "q = c # cs" "is_lower c \<or> c = CHR ''_''"
    "list_all (\<lambda>d. is_lower d \<or> is_digit d \<or> d = CHR ''_'' \<or> d = CHR ''-'') cs"
    using assms by (cases q) auto
  then have "CHR ''.'' \<notin> set q" "slash \<notin> set q"
    by (auto simp: list_all_iff is_lower_def is_digit_def)
  with q(1) show ?thesis by (auto simp: ordinary_def)
qed

lemma principals_file_of:
  "f \<in> set (principals_files ps) \<Longrightarrow>
   \<exists>p\<in>set ps. \<exists>q\<in>set (s_principals p). f = \<lparr>pf_path = ''/etc/ssh/auth_principals/'' @ q, pf_content = q\<rparr>"
  by (auto simp: principals_files_def)

lemma principals_path:
  assumes "ordinary q"
  shows "''/etc/ssh/auth_principals/'' @ q = path_join ''/etc/ssh/auth_principals'' q"
proof -
  have "elements ''/etc/ssh/auth_principals'' \<noteq> []"
    "assemble (has_prefix ''/etc/ssh/auth_principals'' ''/'') (elements ''/etc/ssh/auth_principals'')
       = ''/etc/ssh/auth_principals''" by code_simp+
  then show ?thesis using assms by (simp add: path_join_shape)
qed

lemma openvpn_config_files:
  assumes "c_configdir_path cfg \<noteq> []"
  shows "\<exists>a b c. openvpn_config cfg =
    a @ ''client-connect '' @ c_configdir_path cfg @ ''/rules/connect.sh'' @ newline # b
      @ ''crl-verify '' @ c_configdir_path cfg @ ''/crl.pem'' @ newline # c"
proof -
  have "unlines (xs @ [u @ v, [], w, x @ y]) = unlines xs @ u @ v @ newline # (newline # w @ [newline]) @ x @ y @ newline # []"
    for xs u v w x y by (simp add: unlines_append)
  from this [of "[''ca /etc/openvpn/gruff-ca.pem'', [],
      ''# Routes come from this hook, not client-config-dir: the certificate'' @ apostrophe # ''s'',
      ''# common name is the user, so a ccd file cannot select a profile. The'',
      ''# hook reads the profile from the certificate and refuses anything else.'', ''script-security 2'']"
      "''client-connect ''" "c_configdir_path cfg @ ''/rules/connect.sh''"
      "''# Revoked certificates. Gruff rewrites this hourly and on revocation.''"
      "''crl-verify ''" "c_configdir_path cfg @ ''/crl.pem''"]
  have "openvpn_config cfg = unlines [''ca /etc/openvpn/gruff-ca.pem'', [],
      ''# Routes come from this hook, not client-config-dir: the certificate'' @ apostrophe # ''s'',
      ''# common name is the user, so a ccd file cannot select a profile. The'',
      ''# hook reads the profile from the certificate and refuses anything else.'', ''script-security 2'']
    @ ''client-connect '' @ (c_configdir_path cfg @ ''/rules/connect.sh'') @ newline
      # (newline # ''# Revoked certificates. Gruff rewrites this hourly and on revocation.'' @ [newline])
      @ ''crl-verify '' @ (c_configdir_path cfg @ ''/crl.pem'') @ newline # []"
    unfolding openvpn_config_def Let_def if_not_P [OF assms] by (simp only: append.simps)
  then show ?thesis unfolding append_assoc by blast
qed

lemma join_mid: "\<exists>b. join sep (xs @ y # ys) = (if xs = [] then [] else join sep xs @ sep) @ y @ b"
  by (induction sep xs rule: join.induct; cases ys) auto

lemma sshd_config_command: "\<exists>a b. sshd_config cfg = a @ ''gruff sign-host -host '' @ example_host cfg @ b"
proof -
  let ?xs = "[''# Trust user certificates signed by Gruff. The key is above; copy it here.'',
       ''TrustedUserCAKeys /etc/ssh/gruff_ca.pub'', [],
       ''# Present this host'' @ apostrophe # ''s own certificate, so clients stop being asked to'']"
  let ?y = "''# confirm a fingerprint:  gruff sign-host -host '' @ example_host cfg"
  have y: "?y = ''# confirm a fingerprint:  '' @ ''gruff sign-host -host '' @ example_host cfg" by simp
  have "\<exists>ys. sshd_config cfg = join [newline] (?xs @ ?y # ys)"
    unfolding sshd_config_def append_Cons append_Nil by blast
  then obtain ys where "sshd_config cfg = join [newline] (?xs @ ?y # ys)" by blast
  moreover obtain b where "join [newline] (?xs @ ?y # ys) = (join [newline] ?xs @ [newline]) @ ?y @ b"
    using join_mid [of "[newline]" ?xs ?y ys] by auto
  ultimately have "sshd_config cfg
      = (join [newline] ?xs @ [newline] @ ''# confirm a fingerprint:  '') @ ''gruff sign-host -host '' @ example_host cfg @ b"
    unfolding y by (simp only: append_assoc)
  then show ?thesis by blast
qed

lemma rules_path:
  assumes "dir \<noteq> []"
  shows "path_clean (dir @ ''/rules/connect.sh'') = path_join (path_join dir ''rules'') ''connect.sh''"
    and "path_clean (dir @ ''/crl.pem'') = path_join dir ''crl.pem''"
proof -
  have o: "ordinary ''rules''" "ordinary ''connect.sh''" by (simp_all add: ordinary_def)
  have r: "dir @ ''/rules'' \<noteq> []" "path_join dir ''rules'' \<noteq> []" using o assms by simp_all
  have "path_clean (dir @ ''/rules/connect.sh'') = path_join (dir @ ''/rules'') ''connect.sh''"
    using r(1) by (simp add: path_join_def)
  also have "\<dots> = path_join (path_join dir ''rules'') ''connect.sh''"
    using elements_snoc [OF o(1) assms] elements_join [OF o(1) assms]
    by (simp add: path_join_elements [OF o(2) r(1)] path_join_elements [OF o(2) r(2)])
  finally show "path_clean (dir @ ''/rules/connect.sh'') = path_join (path_join dir ''rules'') ''connect.sh''" .
  show "path_clean (dir @ ''/crl.pem'') = path_join dir ''crl.pem''" using assms by (simp add: path_join_def)
qed

text \<open>
  C34. The setup page describes the deployment that runs. Each principal some SSH profile grants has
  exactly one file, directly in sshd's directory of principals, named after it and holding it, in
  sorted order; every host pattern of a profile is in the client's trust line. When the portal
  writes its lists, the hook and the revocation list the OpenVPN server is told to read are the
  files the program writes.
\<close>

theorem setup_page_matches:
  assumes "config_load env decode path = Inr cfg"
  shows "distinct (map pf_content (principals_files (c_ssh_profiles cfg)))
    \<and> sorted (map pf_content (principals_files (c_ssh_profiles cfg)))
    \<and> set (map pf_content (principals_files (c_ssh_profiles cfg))) = (\<Union>p\<in>set (c_ssh_profiles cfg). set (s_principals p))
    \<and> (\<forall>f\<in>set (principals_files (c_ssh_profiles cfg)).
         path_dir (pf_path f) = ''/etc/ssh/auth_principals'' \<and> path_base (pf_path f) = pf_content f)
    \<and> set (host_patterns (c_ssh_profiles cfg)) = (\<Union>p\<in>set (c_ssh_profiles cfg). set (s_hosts p))
    \<and> (c_configdir_enabled cfg \<longrightarrow>
         (\<exists>a b c hook list. openvpn_config cfg = a @ ''client-connect '' @ hook @ newline # b @ ''crl-verify '' @ list @ newline # c
           \<and> path_clean hook = path_join (path_join (c_configdir_path cfg) ''rules'') ''connect.sh''
           \<and> path_clean list = path_join (c_configdir_path cfg) ''crl.pem''))"
proof -
  have ok: "config_ok env cfg" using config_load_ok [OF assms] .
  have content: "map pf_content (principals_files ps) = sorted_keys (concat (map s_principals ps))" for ps
    by (simp add: principals_files_def comp_def)
  have files: "path_dir (pf_path f) = ''/etc/ssh/auth_principals'' \<and> path_base (pf_path f) = pf_content f"
    if m: "f \<in> set (principals_files (c_ssh_profiles cfg))" for f
  proof -
    obtain p q where p: "p \<in> set (c_ssh_profiles cfg)" "q \<in> set (s_principals p)"
      and f: "pf_path f = ''/etc/ssh/auth_principals/'' @ q" "pf_content f = q"
      using principals_file_of [OF m] that by (metis principals_file.select_convs)
    have q: "ordinary q"
      using ok p principal_name_ordinary by (auto simp: config_ok_def ssh_profile_ok_def)
    have "path_clean ''/etc/ssh/auth_principals'' = ''/etc/ssh/auth_principals''" by code_simp
    then show ?thesis using q f by (simp only: principals_path [OF q]) simp
  qed
  have lists: "\<exists>a b c hook list. openvpn_config cfg = a @ ''client-connect '' @ hook @ newline # b @ ''crl-verify '' @ list @ newline # c
       \<and> path_clean hook = path_join (path_join (c_configdir_path cfg) ''rules'') ''connect.sh''
       \<and> path_clean list = path_join (c_configdir_path cfg) ''crl.pem''" if "c_configdir_enabled cfg"
  proof -
    have dir: "c_configdir_path cfg \<noteq> []" using ok that by (simp add: config_ok_def)
    obtain a b c where "openvpn_config cfg =
        a @ ''client-connect '' @ (c_configdir_path cfg @ ''/rules/connect.sh'') @ newline # b
          @ ''crl-verify '' @ (c_configdir_path cfg @ ''/crl.pem'') @ newline # c"
      using openvpn_config_files [OF dir] unfolding append_assoc by blast
    with rules_path [OF dir] show ?thesis by blast
  qed
  show ?thesis
    unfolding content using files lists by (auto simp: host_patterns_def)
qed

theorem setup_page_matches_witness:
  "principals_files (c_ssh_profiles example_config)
     = [\<lparr>pf_path = ''/etc/ssh/auth_principals/root'', pf_content = ''root''\<rparr>]
   \<and> path_dir ''/etc/ssh/auth_principals/root'' = ''/etc/ssh/auth_principals''"
proof -
  have f: "principals_files (c_ssh_profiles example_config)
     = [\<lparr>pf_path = ''/etc/ssh/auth_principals/root'', pf_content = ''root''\<rparr>]"
    by (simp add: principals_files_def sorted_keys_def example_config_def with_defaults_def example_decoded_def
        example_ssh_profile_def)
  with setup_page_matches [OF example_loads] show ?thesis by simp
qed

end
