(* ===== verification/Portal_Routes.thy ===== *)
theory Portal_Routes
  imports Serve_Mux Portal_Revoke Portal_Setup
begin

text \<open>
  \<^verbatim>\<open>internal/portal/routes.go\<close>: the routes, the session gate in front of them, the refusal of requests
  from other origins and the security headers, as one function from a request and the portal's
  state to a response and the state it leaves. The embedded static files are a parameter, a
  function of the path below \<^verbatim>\<open>/static/\<close>.
\<close>

section \<open>The routes\<close>

datatype route =
    Profiles | Issued | OneProfile | Issue | SshProfiles | SshIssue | Revoke | Setup | Health
  | Login | Callback | Logout | Static

definition get :: "segment list \<Rightarrow> route \<Rightarrow> route pattern" where
  "get q h = \<lparr>pn_method = ''GET'', pn_path = q, pn_handler = h\<rparr>"

definition post :: "segment list \<Rightarrow> route \<Rightarrow> route pattern" where
  "post q h = \<lparr>pn_method = ''POST'', pn_path = q, pn_handler = h\<rparr>"

definition routes :: "bool \<Rightarrow> route pattern list" where
  "routes signs_in =
     [get [Lit ''/''] Profiles,
      get [Lit ''issued''] Issued,
      get [Lit ''profile'', Wild] OneProfile,
      post [Lit ''profile'', Wild, Lit ''issue''] Issue,
      get [Lit ''ssh''] SshProfiles,
      post [Lit ''ssh'', Wild, Lit ''issue''] SshIssue,
      post [Lit ''issued'', Wild, Lit ''revoke''] Revoke,
      get [Lit ''setup''] Setup,
      get [Lit ''healthz''] Health]
     @ (if signs_in
        then [get [Lit ''auth'', Lit ''login''] Login,
              get [Lit ''auth'', Lit ''callback''] Callback,
              post [Lit ''auth'', Lit ''logout''] Logout,
              get [Lit ''auth'', Lit ''logout''] Logout]
        else [])
     @ [get [Lit ''static'', Rest] Static]"

text \<open>\<^verbatim>\<open>PathValue\<close>: no pattern here has more than one wildcard.\<close>

definition path_value :: "string list \<Rightarrow> string" where
  "path_value ms = (case ms of [] \<Rightarrow> [] | m # _ \<Rightarrow> m)"

section \<open>Handlers\<close>

definition handle_health :: response where
  "handle_health = with_headers [(''Content-Type'', ''text/plain; charset=utf-8'')] (http_ok (''ok'' @ [newline]))"

definition handle_static :: "(string \<Rightarrow> request \<Rightarrow> response) \<Rightarrow> request \<Rightarrow> response" where
  "handle_static files r =
     (if has_prefix (url_path r) ''/static/'' \<and> has_prefix (rq_path r) ''/static/''
      then files (drop 8 (url_path r)) r
      else http_error 404 ''404 page not found'')"

definition clock_of_login :: "(nat \<Rightarrow> instant) \<Rightarrow> login_clock" where
  "clock_of_login clk =
     \<lparr>lc_opened = clk 0, lc_verified = clk 1, lc_issued = clk 2, lc_sealed = clk 3\<rparr>"

text \<open>The routes of \<^verbatim>\<open>/auth/\<close> are only registered when the portal signs people in.\<close>

definition serve_route ::
  "'s portal \<Rightarrow> (string \<Rightarrow> request \<Rightarrow> response) \<Rightarrow> route \<Rightarrow> string list \<Rightarrow> request \<Rightarrow> (nat \<Rightarrow> instant)
     \<Rightarrow> 's portal_state \<Rightarrow> response \<times> 's portal_state" where
  "serve_route p files h ms r clk s =
     (case h of
        Profiles \<Rightarrow> handle_profiles p r clk s
      | Issued \<Rightarrow> handle_issued p r clk s
      | OneProfile \<Rightarrow> handle_profile p r (path_value ms) clk s
      | Issue \<Rightarrow> handle_issue p r (path_value ms) clk s
      | SshProfiles \<Rightarrow> handle_ssh_profiles p r clk s
      | SshIssue \<Rightarrow> handle_ssh_issue p r (path_value ms) clk s
      | Revoke \<Rightarrow> handle_revoke p r (path_value ms) clk s
      | Setup \<Rightarrow> handle_setup p r clk s
      | Health \<Rightarrow> (handle_health, s)
      | Login \<Rightarrow> (case pt_oidc p of None \<Rightarrow> (aborted, s) | Some a \<Rightarrow> handle_login p a r (clk 0) (clk 1) s)
      | Callback \<Rightarrow> (case pt_oidc p of None \<Rightarrow> (aborted, s) | Some a \<Rightarrow> handle_callback p a r (clock_of_login clk) s)
      | Logout \<Rightarrow> (case pt_oidc p of None \<Rightarrow> (aborted, s) | Some a \<Rightarrow> (handle_logout p a r, s))
      | Static \<Rightarrow> (handle_static files r, s))"

definition serve_mux ::
  "'s portal \<Rightarrow> (string \<Rightarrow> request \<Rightarrow> response) \<Rightarrow> request \<Rightarrow> (nat \<Rightarrow> instant) \<Rightarrow> 's portal_state
     \<Rightarrow> response \<times> 's portal_state" where
  "serve_mux p files r clk s =
     (case find_handler (routes (pt_oidc p \<noteq> None)) r of
        Dispatch h ms \<Rightarrow> serve_route p files h ms r clk s
      | RedirectTo u \<Rightarrow> (http_redirect u 301, s)
      | NotAllowed ms \<Rightarrow>
          (with_headers [(''Allow'', join '', '' ms)] (http_error 405 ''Method Not Allowed''), s)
      | NotFound \<Rightarrow> (http_error 404 ''404 page not found'', s)
      | BadRequest \<Rightarrow> (http_error 400 [], s))"

section \<open>The gate and what wraps it\<close>

definition open_path :: "string \<Rightarrow> bool" where
  "open_path u \<longleftrightarrow> u = ''/healthz'' \<or> has_prefix u ''/auth/'' \<or> has_prefix u ''/static/''"

definition gate ::
  "'s portal \<Rightarrow> (string \<Rightarrow> request \<Rightarrow> response) \<Rightarrow> request \<Rightarrow> (nat \<Rightarrow> instant) \<Rightarrow> 's portal_state
     \<Rightarrow> response \<times> 's portal_state" where
  "gate p files r clk s =
     (if pt_oidc p = None then serve_mux p files r clk s
      else if open_path (url_path r) then serve_mux p files r clk s
      else case require_session p r (clk 0) of
        Some refusal \<Rightarrow> (refusal, s)
      | None \<Rightarrow> serve_mux p files r (\<lambda>n. clk (n + 1)) s)"

definition quoted :: "string \<Rightarrow> string" where
  "quoted w = apostrophe # w @ [apostrophe]"

definition security_headers :: "(string \<times> string) list" where
  "security_headers =
     [(''Content-Security-Policy'',
       ''default-src '' @ quoted ''none'' @ ''; style-src '' @ quoted ''self'' @ ''; font-src '' @ quoted ''self''
       @ ''; img-src '' @ quoted ''self'' @ ''; form-action '' @ quoted ''self'' @ ''; base-uri '' @ quoted ''none''
       @ ''; frame-ancestors '' @ quoted ''none''),
      (''X-Content-Type-Options'', ''nosniff''),
      (''Referrer-Policy'', ''no-referrer''),
      (''Cross-Origin-Opener-Policy'', ''same-origin'')]"

definition portal_handler ::
  "'s portal \<Rightarrow> (string \<Rightarrow> request \<Rightarrow> response) \<Rightarrow> request \<Rightarrow> (nat \<Rightarrow> instant) \<Rightarrow> 's portal_state
     \<Rightarrow> response \<times> 's portal_state" where
  "portal_handler p files r clk s =
     (case (case cross_origin_check (pt_env p) r of
              Some refusal \<Rightarrow> (http_error 403 refusal, s)
            | None \<Rightarrow> gate p files r clk s) of
        (resp, s) \<Rightarrow> (with_headers security_headers resp, s))"

section \<open>What the gate lets through\<close>

definition open_routes :: "route set" where
  "open_routes = {Health, Login, Callback, Logout, Static}"

lemma fits_Lit: "fits (Lit l # q) ss = Some c \<Longrightarrow> \<exists>ds. ss = l # ds"
  by (cases ss) (auto split: if_splits)

lemma route_patterns:
  assumes "p \<in> set (routes b)"
  shows "pn_method p = (if pn_handler p \<in> {Issue, SshIssue, Revoke} then ''POST'' else ''GET'')
      \<or> pn_handler p = Logout \<and> pn_method p = ''POST''"
    and "pn_handler p \<notin> open_routes \<Longrightarrow>
      \<exists>l q. pn_path p = Lit l # q \<and> l \<in> {''/'', ''issued'', ''profile'', ''ssh'', ''setup''}"
  using assms by (auto simp: routes_def get_def post_def open_routes_def split: if_splits)

lemma no_connect_routes: "\<forall>p\<in>set (routes b). pn_method p \<noteq> ''CONNECT''"
proof
  fix p assume "p \<in> set (routes b)"
  from route_patterns(1) [OF this] show "pn_method p \<noteq> ''CONNECT''" by (auto split: if_splits)
qed

lemma closed_segment:
  assumes "l \<in> {''/'', ''issued'', ''profile'', ''ssh'', ''setup''}" "y = [] \<or> hd y = slash"
  shows "\<not> open_path (slash # l @ y)"
  using assms by (cases y) (auto simp: open_path_def)

text \<open>However a path is spelled, what opens the gate never reaches a handler behind it.\<close>

lemma open_path_open_route:
  assumes "find_handler (routes b) r = Dispatch h ms" "open_path (url_path r)"
  shows "h \<in> open_routes"
proof (rule ccontr)
  assume h: "h \<notin> open_routes"
  obtain p cs where p: "p \<in> set (routes b)" "pn_handler p = h"
    "fits (pn_path p) (path_segments (rq_path r)) = Some ms" "rq_path r = slash # cs"
    using dispatch_pattern [OF assms(1) no_connect_routes] by blast
  have "pn_handler p \<notin> open_routes" using h p(2) by simp
  from route_patterns(2) [OF p(1) this] obtain l q where l: "pn_path p = Lit l # q"
    "l \<in> {''/'', ''issued'', ''profile'', ''ssh'', ''setup''}" by blast
  from fits_Lit [OF p(3) [unfolded l(1)]] obtain ds where "path_segments (rq_path r) = l # ds" by blast
  from url_path_first [OF p(4) this] consider "url_path r = []" | "url_path r = ''/''"
    | y where "url_path r = slash # l @ y" "y = [] \<or> hd y = slash" by blast
  then show False
  proof cases
    case 3
    with closed_segment [OF l(2) 3(2)] assms(2) show False by simp
  qed (use assms(2) in \<open>simp_all add: open_path_def\<close>)
qed

text \<open>
  What a handler has not touched: the store, the limiter and the disk; and its answer depends on
  the state through the entropy alone.
\<close>

definition blind :: "('s portal_state \<Rightarrow> response \<times> 's portal_state) \<Rightarrow> bool" where
  "blind f \<longleftrightarrow> (\<forall>s. ps_store (snd (f s)) = ps_store s \<and> ps_limiter (snd (f s)) = ps_limiter s
      \<and> ps_world (snd (f s)) = ps_world s)
    \<and> (\<forall>s t. ps_rng s = ps_rng t \<longrightarrow> fst (f s) = fst (f t))"

lemma blind_const [intro]: "blind (\<lambda>s. (resp, s))"
  by (simp add: blind_def)

lemma blind_open_route: "h \<in> open_routes \<Longrightarrow> blind (serve_route p files h ms r clk)"
  by (auto simp: blind_def open_routes_def serve_route_def handle_login_def handle_callback_def inc_def
      split: option.splits sum.splits prod.splits)

lemma blind_mux:
  assumes "open_path (url_path r)"
  shows "blind (serve_mux p files r clk)"
proof (cases "find_handler (routes (pt_oidc p \<noteq> None)) r")
  case (Dispatch h ms)
  then have "serve_mux p files r clk = serve_route p files h ms r clk" by (simp add: serve_mux_def fun_eq_iff)
  with blind_open_route open_path_open_route [OF Dispatch assms] show ?thesis by metis
qed (simp_all add: serve_mux_def [abs_def] blind_const)

lemma blind_gate:
  assumes "pt_oidc p \<noteq> None" "open_portal p r (clk 0) = Inl e"
  shows "blind (gate p files r clk)"
proof (cases "open_path (url_path r)")
  case True
  then have "gate p files r clk = serve_mux p files r clk" by (simp add: gate_def fun_eq_iff)
  then show ?thesis using blind_mux [OF True] by metis
next
  case False
  obtain refusal where "require_session p r (clk 0) = Some refusal"
    using assms by (cases "rq_method r = ''GET''") (simp_all add: require_session_def)
  then have "gate p files r clk = (\<lambda>s. (refusal, s))" using False assms(1) by (auto simp: gate_def fun_eq_iff)
  then show ?thesis by (metis blind_const)
qed

end
