(* ===== verification/Portal_Service.thy ===== *)
theory Portal_Service
  imports Portal_Routes
begin

text \<open>
  The portal as a service. What one request may do to the audit list and the revocations is an
  abstract specification, one operation of the store at a time; every request, every tick of the
  timer and every scrape refines it, and so does everything the service ever does from its start.
\<close>

section \<open>The specification\<close>

text \<open>Entitled to a session, or to withdraw one, as an operation of the store on behalf of a caller.\<close>

definition entitled :: "config \<Rightarrow> identity \<Rightarrow> session \<Rightarrow> bool" where
  "entitled cfg i x \<longleftrightarrow> id_username i \<noteq> [] \<and> ss_user x = id_username i
     \<and> (case ss_kind x of
          KindVPN \<Rightarrow> \<exists>q. config_profile cfg (ss_profile x) = Some q \<and> profile_allowed_for q (id_roles i)
        | KindSSH \<Rightarrow> \<exists>q. config_ssh_profile cfg (ss_profile x) = Some q \<and> ssh_allowed_for q (id_roles i))"

definition may_revoke :: "identity \<Rightarrow> revocation \<Rightarrow> bool" where
  "may_revoke i e \<longleftrightarrow> id_username i \<noteq> [] \<and> (id_admin i \<or> rv_user e = id_username i)"

fun permitted :: "config \<Rightarrow> identity \<Rightarrow> store_op \<Rightarrow> bool" where
  "permitted cfg i (OpAdd t x) = entitled cfg i x"
| "permitted cfg i (OpRevoke t e) = may_revoke i e"
| "permitted cfg i _ = True"

fun writing :: "store_op \<Rightarrow> bool" where
  "writing (OpAdd t x) = True"
| "writing (OpRevoke t e) = True"
| "writing _ = False"

text \<open>The operations one call performs on the store: reads only, unless it is a request that may.\<close>

inductive performs :: "config \<Rightarrow> identity \<Rightarrow> bool \<Rightarrow> store \<Rightarrow> store \<Rightarrow> bool" for cfg i may_write where
  none: "performs cfg i may_write st st"
| one: "performs cfg i may_write st st' \<Longrightarrow> permitted cfg i x \<Longrightarrow> (writing x \<Longrightarrow> may_write)
    \<Longrightarrow> performs cfg i may_write st (store_step x st')"

lemma performs_one: "permitted cfg i x \<Longrightarrow> (writing x \<Longrightarrow> w) \<Longrightarrow> performs cfg i w st (store_step x st)"
  by (rule performs.one [OF performs.none])

lemma performs_trans: "performs cfg i w b c \<Longrightarrow> performs cfg i w a b \<Longrightarrow> performs cfg i w a c"
  by (induction rule: performs.induct) (auto intro: performs.one)

lemma performs_reads:
  "\<forall>x\<in>set ops. \<not> writing x \<Longrightarrow> performs cfg i w st (store_run ops st)"
proof (induction ops arbitrary: st)
  case (Cons x ops)
  then have "permitted cfg i x" by (cases x) auto
  with Cons.prems have "performs cfg i w st (store_step x st)" by (intro performs_one) auto
  with Cons show ?case by (auto intro: performs_trans)
qed (simp add: performs.none)

lemma store_run_append: "store_run ys (store_run xs st) = store_run (xs @ ys) st"
  by (simp add: store_run_def)

lemma performs_run:
  assumes "performs cfg i w st st'"
  shows "\<exists>ops. st' = store_run ops st \<and> (\<forall>x\<in>set ops. permitted cfg i x \<and> (writing x \<longrightarrow> w))"
  using assms
proof (induction rule: performs.induct)
  case none
  show ?case by (intro exI [of _ "[]"]) simp
next
  case (one st st' x)
  then obtain ops where "st' = store_run ops st" "\<forall>x\<in>set ops. permitted cfg i x \<and> (writing x \<longrightarrow> w)" by blast
  with one show ?case by (intro exI [of _ "ops @ [x]"]) (auto simp: store_run_def)
qed

section \<open>The handlers refine it\<close>

lemma record_issued_store:
  assumes "pt_store p = memory_api"
  shows "ps_store (record_issued p x now s) = store_step (OpAdd now x) (ps_store s)"
  using assms by (simp add: record_issued_def inc_def memory_api_def)

lemma lookup_name:
  "config_profile cfg name = Some q \<Longrightarrow> p_name q = name" "config_ssh_profile cfg name = Some q' \<Longrightarrow> s_name q' = name"
  by (auto simp: config_profile_def config_ssh_profile_def dest: vpn_lookup.lookup_sound ssh_lookup.lookup_sound)

lemma issue_performs:
  assumes "pt_store p = memory_api"
  shows "performs (pt_cfg p) (identify p r (clk 0)) True (ps_store s) (ps_store (snd (handle_issue p r name clk s)))"
proof -
  let ?i = "identify p r (clk 0)"
  obtain resp s' where h: "handle_issue p r name clk s = (resp, s')" by fastforce
  from handle_issue_outcome [OF h] show ?thesis
  proof (elim disjE exE conjE)
    assume "ps_store s' = ps_store s"
    then show ?thesis using h by (simp add: performs.none)
  next
    fix q ca creds rng
    assume *: "id_username ?i \<noteq> []" "config_profile (pt_cfg p) name = Some q" "profile_allowed_for q (id_roles ?i)"
      "s' = record_issued p (vpn_session (id_username ?i) q r (clk 3) creds) (clk 4)
        (s\<lparr>ps_limiter := snd (allow (ps_limiter s) (id_username ?i) (clk 1)), ps_rng := rng\<rparr>)"
    let ?x = "vpn_session (id_username ?i) q r (clk 3) creds"
    have "entitled (pt_cfg p) ?i ?x"
      using * lookup_name(1) [OF *(2)] by (auto simp: entitled_def vpn_session_def)
    then have "performs (pt_cfg p) ?i True (ps_store s) (store_step (OpAdd (clk 4) ?x) (ps_store s))"
      by (intro performs_one) simp_all
    then show ?thesis using h *(4) by (simp add: record_issued_store [OF assms] del: store_step.simps)
  qed
qed

lemma ssh_issue_performs:
  assumes "pt_store p = memory_api"
  shows "performs (pt_cfg p) (identify p r (clk 0)) True (ps_store s) (ps_store (snd (handle_ssh_issue p r name clk s)))"
proof -
  let ?i = "identify p r (clk 0)"
  obtain resp s' where h: "handle_ssh_issue p r name clk s = (resp, s')" by fastforce
  from handle_ssh_issue_outcome [OF h] show ?thesis
  proof (elim disjE exE conjE)
    assume "ps_store s' = ps_store s"
    then show ?thesis using h by (simp add: performs.none)
  next
    fix q ca creds rng
    assume *: "id_username ?i \<noteq> []" "config_ssh_profile (pt_cfg p) name = Some q" "ssh_allowed_for q (id_roles ?i)"
      "s' = record_issued p (ssh_session (id_username ?i) q r (clk 3) creds) (clk 4)
        (s\<lparr>ps_limiter := snd (allow (ps_limiter s) (id_username ?i) (clk 1)), ps_rng := rng\<rparr>)"
    let ?x = "ssh_session (id_username ?i) q r (clk 3) creds"
    have "entitled (pt_cfg p) ?i ?x"
      using * lookup_name(2) [OF *(2)] by (auto simp: entitled_def ssh_session_def)
    then have "performs (pt_cfg p) ?i True (ps_store s) (store_step (OpAdd (clk 4) ?x) (ps_store s))"
      by (intro performs_one) simp_all
    then show ?thesis using h *(4) by (simp add: record_issued_store [OF assms] del: store_step.simps)
  qed
qed

lemma visible_performs:
  assumes "pt_store p = memory_api"
  shows "performs cfg i w (ps_store s) (ps_store (snd (visible_sessions p j now s)))"
proof -
  have "ps_store (snd (visible_sessions p j now s)) = store_step (OpAll now) (ps_store s)"
    by (simp add: visible_sessions_memory [OF assms] store_all_def Let_def)
  then show ?thesis using performs_one [of cfg i "OpAll now" w] by (simp del: store_step.simps)
qed

lemma publish_performs:
  assumes "pt_store p = memory_api"
  shows "performs cfg i w (ps_store s) (ps_store (snd (publish_revocations p clk s)))"
proof -
  obtain ops where ops: "ps_store (snd (publish_revocations p clk s)) = store_run ops (ps_store s)"
    "\<forall>x\<in>set ops. \<exists>n k. n \<le> 2 \<and> x = OpRevocations (clk n) k"
    using publish_store [OF assms] by metis
  then have "\<forall>x\<in>set ops. \<not> writing x" by fastforce
  then show ?thesis unfolding ops(1) by (rule performs_reads)
qed

lemma revoke_performs:
  assumes "pt_store p = memory_api"
  shows "performs (pt_cfg p) (identify p r (clk 0)) True (ps_store s) (ps_store (snd (handle_revoke p r serial clk s)))"
proof -
  let ?i = "identify p r (clk 0)"
  let ?shown = "memory_store.visible (clk 1) (id_admin ?i) (id_username ?i) (ps_store s)"
  let ?s1 = "s\<lparr>ps_store := prune (clk 1) (ps_store s)\<rparr>"
  have v: "visible_sessions p ?i (clk 1) s = (Some (fst ?shown), ?s1)" by (rule visible_sessions_memory [OF assms])
  have one: "performs (pt_cfg p) ?i True (ps_store s) (ps_store ?s1)"
    using visible_performs [OF assms, of "pt_cfg p" ?i True s ?i "clk 1"] unfolding v by simp
  consider "id_username ?i = []" | "id_username ?i \<noteq> []" "find_session (fst ?shown) serial = None"
    | x where "id_username ?i \<noteq> []" "find_session (fst ?shown) serial = Some x" by fastforce
  then show ?thesis
  proof cases
    case 1
    then show ?thesis by (simp add: handle_revoke_def Let_def performs.none)
  next
    case 2
    then have "handle_revoke p r serial clk s = (forbidden, ?s1)"
      unfolding handle_revoke_def Let_def v by (simp add: assms memory_api_def)
    then show ?thesis using one by simp
  next
    case 3
    let ?s2 = "inc metric_revoked [''kind'', kind_string (ss_kind x)]
      (?s1\<lparr>ps_store := store_step (OpRevoke (clk 3) (revocation_of x (clk 2))) (ps_store ?s1)\<rparr>)"
    have "may_revoke ?i (revocation_of x (clk 2))"
      using 3 memory_store.visible_own find_session_Some [OF 3(2)] by (fastforce simp: may_revoke_def revocation_of_def)
    then have two: "performs (pt_cfg p) ?i True (ps_store s) (ps_store ?s2)"
      using performs.one [OF one, of "OpRevoke (clk 3) (revocation_of x (clk 2))"] by (simp add: inc_def)
    have last: "snd (handle_revoke p r serial clk s) = snd (publish_revocations p (\<lambda>n. clk (n + 4)) ?s2)"
      unfolding handle_revoke_def Let_def v using 3 by (simp add: assms memory_api_def)
    show ?thesis unfolding last by (rule performs_trans [OF publish_performs [OF assms] two])
  qed
qed

lemma performs_mono: "performs cfg i w a b \<Longrightarrow> (w \<Longrightarrow> w') \<Longrightarrow> performs cfg i w' a b"
  by (induction rule: performs.induct) (auto intro: performs.intros)

lemma authorize_store:
  "authorize p i name s = Inl out \<Longrightarrow> ps_store (snd out) = ps_store s"
  "authorize_ssh p i name s = Inl out \<Longrightarrow> ps_store (snd out) = ps_store s"
  using authorize_Inl authorize_ssh_Inl by blast+

lemma handle_profile_store: "ps_store (snd (handle_profile p r name clk s)) = ps_store s"
  by (cases "authorize p (identify p r (clk 0)) name s") (simp_all add: handle_profile_def Let_def authorize_store)

lemma issued_performs:
  assumes "pt_store p = memory_api"
  shows "performs cfg i w (ps_store s) (ps_store (snd (handle_issued p r clk s)))"
proof -
  have "snd (handle_issued p r clk s) = snd (visible_sessions p (identify p r (clk 0)) (clk 1) s)"
    unfolding handle_issued_def Let_def visible_sessions_memory [OF assms] by simp
  then show ?thesis using visible_performs [OF assms] by simp
qed

lemma serve_route_performs:
  assumes "pt_store p = memory_api"
  shows "performs (pt_cfg p) (identify p r (clk 0)) (h \<in> {Issue, SshIssue, Revoke})
    (ps_store s) (ps_store (snd (serve_route p files h ms r clk s)))"
proof -
  consider "h = Issue" | "h = SshIssue" | "h = Revoke" | "h = Issued"
    | "ps_store (snd (serve_route p files h ms r clk s)) = ps_store s"
    by (cases h) (auto simp: serve_route_def handle_profiles_def handle_profile_store handle_ssh_profiles_def
        handle_setup_def handle_login_def handle_callback_def inc_def Let_def
        split: option.splits sum.splits prod.splits)
  then show ?thesis
    by cases (simp_all add: serve_route_def issue_performs ssh_issue_performs revoke_performs
        issued_performs performs.none assms del: One_nat_def)
qed

lemma writing_route_posts:
  assumes "find_handler (routes b) r = Dispatch h ms" "h \<in> {Issue, SshIssue, Revoke}"
  shows "rq_method r = ''POST''"
proof -
  obtain p where p: "p \<in> set (routes b)" "pn_handler p = h"
    "rq_method r = pn_method p \<or> rq_method r = ''HEAD'' \<and> pn_method p = ''GET''"
    using dispatch_pattern [OF assms(1) no_connect_routes] by blast
  from route_patterns(1) [OF p(1)] p(2,3) assms(2) show ?thesis by auto
qed

lemma mux_performs:
  assumes "pt_store p = memory_api"
  shows "performs (pt_cfg p) (identify p r (clk 0)) (rq_method r = ''POST'')
    (ps_store s) (ps_store (snd (serve_mux p files r clk s)))"
proof (cases "find_handler (routes (pt_oidc p \<noteq> None)) r")
  case (Dispatch h ms)
  then have "serve_mux p files r clk s = serve_route p files h ms r clk s" by (simp add: serve_mux_def)
  then show ?thesis
    using performs_mono [OF serve_route_performs [OF assms] writing_route_posts [OF Dispatch]] by metis
qed (simp_all add: serve_mux_def performs.none)

definition from_here :: "'s portal \<Rightarrow> request \<Rightarrow> bool" where
  "from_here p r \<longleftrightarrow> rq_method r = ''POST'' \<and> cross_origin_check (pt_env p) r = None"

lemma gate_cases:
  "gate p files r clk s = serve_mux p files r clk s \<or> (\<exists>resp. gate p files r clk s = (resp, s))
   \<or> gate p files r clk s = serve_mux p files r (\<lambda>k. clk (k + 1)) s"
  by (cases "require_session p r (clk 0)") (simp_all add: gate_def)

lemma handler_performs:
  assumes "pt_store p = memory_api"
  shows "\<exists>n\<le>1. performs (pt_cfg p) (identify p r (clk n)) (from_here p r)
    (ps_store s) (ps_store (snd (portal_handler p files r clk s)))"
proof (cases "cross_origin_check (pt_env p) r")
  case (Some refusal)
  then show ?thesis by (auto simp: portal_handler_def intro: performs.none)
next
  case None
  have e: "ps_store (snd (portal_handler p files r clk s)) = ps_store (snd (gate p files r clk s))"
    using None by (simp add: portal_handler_def split: prod.split)
  have w: "from_here p r = (rq_method r = ''POST'')" using None by (simp add: from_here_def)
  have mux: "performs (pt_cfg p) (identify p r (clk n)) (rq_method r = ''POST'')
      (ps_store s) (ps_store (snd (serve_mux p files r (\<lambda>k. clk (k + n)) s)))" for n
    using mux_performs [OF assms, of r "\<lambda>k. clk (k + n)"] by simp
  consider "gate p files r clk s = serve_mux p files r clk s" | resp where "gate p files r clk s = (resp, s)"
    | "gate p files r clk s = serve_mux p files r (\<lambda>k. clk (k + 1)) s"
    using gate_cases by blast
  then have "\<exists>n\<le>1. performs (pt_cfg p) (identify p r (clk n)) (rq_method r = ''POST'')
      (ps_store s) (ps_store (snd (gate p files r clk s)))"
  proof cases
    case 1
    with mux [of 0] show ?thesis by (intro exI [of _ 0]) simp
  next
    case 2
    then show ?thesis by (auto intro: performs.none)
  next
    case 3
    with mux [of 1] show ?thesis by (intro exI [of _ 1]) simp
  qed
  then show ?thesis unfolding e w .
qed

section \<open>The service\<close>

text \<open>
  What can be reached from the start by requests, ticks of the timer and scrapes, in any order, with
  the requests answered so far, the instants each of them read the clock at and its response.
\<close>

type_synonym served = "(request \<times> (nat \<Rightarrow> instant) \<times> response) list"

inductive service ::
  "store portal \<Rightarrow> (string \<Rightarrow> request \<Rightarrow> response) \<Rightarrow> served \<Rightarrow> store portal_state \<Rightarrow> bool"
  for p files where
  start: "service p files [] (new_portal_state (pt_cfg p) rng w)"
| request: "service p files past s \<Longrightarrow> 
    service p files ((r, clk, fst (portal_handler p files r clk s)) # past) (snd (portal_handler p files r clk s))"
| tick: "service p files past s \<Longrightarrow> service p files past (snd (publish_revocations p clk s))"
| scrape: "service p files past s \<Longrightarrow> service p files past (snd (metrics_handler p clk s))"

lemma tracked_reads:
  assumes "pt_store p = memory_api"
  shows "ps_store (snd (collect_tracked p now s)) = store_step (OpTracked now) (ps_store s)"
proof -
  obtain held limit st where "store_tracked now (ps_store s) = ((held, limit), st)" by (metis surj_pair)
  then show ?thesis by (simp add: collect_tracked_def assms memory_api_def)
qed

lemma active_step:
  assumes "sa_revoker memory_api = Some rk"
  shows "ps_store (snd (collect_active rk (k # ks) clk s)) = ps_store (snd (collect_active rk ks (\<lambda>n. clk (n + 1))
    (s\<lparr>ps_store := store_step (OpRevocations (clk 0) k) (ps_store s)\<rparr>)))"
proof -
  obtain es st where r: "store_revocations (clk 0) k (ps_store s) = (es, st)" by fastforce
  obtain gs s1 where "collect_active rk ks (\<lambda>n. clk (n + 1)) (s\<lparr>ps_store := st\<rparr>) = (gs, s1)" by fastforce
  with assms r show ?thesis by (auto simp: memory_api_def)
qed

lemma active_reads:
  assumes "sa_revoker memory_api = Some rk"
  shows "ps_store (snd (collect_active rk [k, k'] clk s))
    = store_run [OpRevocations (clk 0) k, OpRevocations (clk (0 + 1)) k'] (ps_store s)"
  unfolding active_step [OF assms] by simp

lemma scrape_reads:
  assumes "pt_store p = memory_api"
  shows "ps_store (snd (metrics_handler p clk s))
    = store_run [OpTracked (clk 0), OpRevocations (clk (0 + 1)) KindVPN, OpRevocations (clk (0 + 1 + 1)) KindSSH] (ps_store s)"
proof -
  obtain rk where rk: "sa_revoker memory_api = Some rk" by (simp add: memory_api_def)
  obtain gs s1 where t: "collect_tracked p (clk 0) s = (gs, s1)" by fastforce
  have "ps_store (snd (metrics_handler p clk s))
      = ps_store (snd (collect_active rk [KindVPN, KindSSH] (\<lambda>n. clk (n + 1)) s1))"
    by (simp add: metrics_handler_def collect_gauges_def t assms rk Let_def split: prod.splits)
  also have "\<dots> = store_run [OpRevocations (clk (0 + 1)) KindVPN, OpRevocations (clk (0 + 1 + 1)) KindSSH] (ps_store s1)"
    by (rule active_reads [OF rk])
  finally show ?thesis using tracked_reads [OF assms, of "clk 0" s] t by (simp del: store_step.simps)
qed

lemma run_revoked_by:
  "e \<in> set (st_revoked (store_run ops s)) \<Longrightarrow>
   e \<in> set (st_revoked s) \<or> (\<exists>oper\<in>set ops. e \<in> set (revoked_by oper))"
proof (induction ops arbitrary: s)
  case (Cons oper ops)
  from Cons.prems Cons.IH [of "store_step oper s"]
  have "e \<in> set (st_revoked (store_step oper s)) \<or> (\<exists>oper\<in>set ops. e \<in> set (revoked_by oper))" by simp
  with step_revoked [of oper s] show ?case by (cases oper) (auto split: if_splits)
qed simp

text \<open>Every write of the history was made by an answered request from this site, for its caller.\<close>

definition on_behalf :: "'s portal \<Rightarrow> served \<Rightarrow> (identity \<Rightarrow> bool) \<Rightarrow> bool" where
  "on_behalf p past P \<longleftrightarrow>
     (\<exists>(r, clk, _)\<in>set past. \<exists>n\<le>1. from_here p r \<and> P (identify p r (clk n)))"

definition authorised :: "'s portal \<Rightarrow> served \<Rightarrow> store_op \<Rightarrow> bool" where
  "authorised p past x \<longleftrightarrow> writing x \<longrightarrow> on_behalf p past (\<lambda>i. permitted (pt_cfg p) i x)"

lemma authorised_later: "authorised p past x \<Longrightarrow> authorised p (q # past) x"
  by (auto simp: authorised_def on_behalf_def)

lemma performs_authorised:
  assumes "n \<le> 1" "performs (pt_cfg p) (identify p r (clk n)) (from_here p r) st st'"
  shows "\<exists>ops. st' = store_run ops st \<and> (\<forall>x\<in>set ops. authorised p ((r, clk, resp) # past) x)"
  using performs_run [OF assms(2)] assms(1) unfolding authorised_def on_behalf_def by fastforce

lemma reads_authorised: "\<forall>x\<in>set ops. \<not> writing x \<Longrightarrow> \<forall>x\<in>set ops. authorised p past x"
  by (simp add: authorised_def)

lemma longer_history:
  assumes "st = store_run xs st0" "\<forall>x\<in>set xs. P x" "st' = store_run ys st" "\<forall>x\<in>set ys. P x"
  shows "\<exists>ops. st' = store_run ops st0 \<and> (\<forall>x\<in>set ops. P x)"
  using assms by (intro exI [of _ "xs @ ys"]) (auto simp: store_run_append)

lemma service_history:
  assumes "service p files past s" "pt_store p = memory_api"
  shows "\<exists>ops. ps_store s = store_run ops (new_store (c_max_tracked_sessions (pt_cfg p)))
    \<and> (\<forall>x\<in>set ops. authorised p past x)"
  using assms(1)
proof (induction rule: service.induct)
  case (start rng w)
  show ?case by (intro exI [of _ "[]"]) (simp add: new_portal_state_def)
next
  case (request past s r clk)
  obtain n where n: "n \<le> 1" "performs (pt_cfg p) (identify p r (clk n)) (from_here p r)
      (ps_store s) (ps_store (snd (portal_handler p files r clk s)))"
    using handler_performs [OF assms(2)] by blast
  from request.IH have "\<exists>ops. ps_store s = store_run ops (new_store (c_max_tracked_sessions (pt_cfg p)))
      \<and> (\<forall>x\<in>set ops. authorised p ((r, clk, fst (portal_handler p files r clk s)) # past) x)"
    using authorised_later by blast
  with performs_authorised [where past = past and clk = clk and resp = "fst (portal_handler p files r clk s)", OF n]
  show ?case by (elim exE conjE) (rule longer_history)
next
  case (tick past s clk)
  obtain ops where ops: "ps_store (snd (publish_revocations p clk s)) = store_run ops (ps_store s)"
    "\<forall>x\<in>set ops. \<exists>n k. n \<le> 2 \<and> x = OpRevocations (clk n) k"
    using publish_store [OF assms(2)] by metis
  from ops(2) have "\<forall>x\<in>set ops. authorised p past x" by (intro reads_authorised) fastforce
  with ops(1) tick.IH show ?case by (elim exE conjE) (rule longer_history)
next
  case (scrape past s clk)
  have "\<forall>x\<in>set [OpTracked (clk 0), OpRevocations (clk (0 + 1)) KindVPN, OpRevocations (clk (0 + 1 + 1)) KindSSH].
      authorised p past x"
    by (simp add: authorised_def)
  with scrape_reads [OF assms(2), of clk s] scrape.IH show ?case by (elim exE conjE) (rule longer_history)
qed

section \<open>Properties\<close>

text \<open>
  C32. Every request, answered by whatever route, keeps to the specification of the store. What it
  does there is a sequence of the store's own operations, each permitted to the caller: a session is
  recorded only for the caller, under a configured profile one of whose roles the caller holds, and
  a revocation only of the caller's own or by an administrator. Only a POST that is not from another
  origin does either; every other request only reads.
\<close>

theorem request_refines_store:
  assumes "pt_store p = memory_api"
  shows "\<exists>ops. \<exists>n\<le>1. ps_store (snd (portal_handler p files r clk s)) = store_run ops (ps_store s)
    \<and> (\<forall>x\<in>set ops. permitted (pt_cfg p) (identify p r (clk n)) x)
    \<and> (from_here p r \<or> list_all (\<lambda>x. \<not> writing x) ops)"
proof -
  obtain n where n: "n \<le> 1" "performs (pt_cfg p) (identify p r (clk n)) (from_here p r)
      (ps_store s) (ps_store (snd (portal_handler p files r clk s)))"
    using handler_performs [OF assms] by blast
  obtain ops where "ps_store (snd (portal_handler p files r clk s)) = store_run ops (ps_store s)"
    "\<forall>x\<in>set ops. permitted (pt_cfg p) (identify p r (clk n)) x \<and> (writing x \<longrightarrow> from_here p r)"
    using performs_run [OF n(2)] by blast
  with n(1) show ?thesis by (intro exI [of _ ops] exI [of _ n]) (auto simp: list_all_iff)
qed

text \<open>
  C33. At every moment of the service's life, whatever requests, ticks and scrapes it has served in
  whatever order: the audit list is within its bound; every session on it was recorded by one of the
  POST requests it has answered, from this site, for a caller entitled to it; no serial is revoked
  twice, and every revocation was made by an answered POST from this site, by the person the
  credential belongs to or by an administrator.
\<close>

theorem service_invariant:
  assumes "service p files past s" "pt_store p = memory_api"
  shows "int (length (st_sessions (ps_store s))) \<le> store_max (new_store (c_max_tracked_sessions (pt_cfg p)))
    \<and> (\<forall>x\<in>set (st_sessions (ps_store s)). on_behalf p past (\<lambda>i. entitled (pt_cfg p) i x))
    \<and> distinct (map rv_serial (st_revoked (ps_store s)))
    \<and> (\<forall>e\<in>set (st_revoked (ps_store s)). on_behalf p past (\<lambda>i. may_revoke i e))"
proof -
  let ?st0 = "new_store (c_max_tracked_sessions (pt_cfg p))"
  obtain ops where ops: "ps_store s = store_run ops ?st0" "\<forall>x\<in>set ops. authorised p past x"
    using service_history [OF assms] by blast
  have inv: "store_inv (ps_store s)" "store_max (ps_store s) = store_max ?st0"
    unfolding ops(1) by (simp_all add: run_inv)
  have x: "on_behalf p past (\<lambda>i. entitled (pt_cfg p) i x)" if "x \<in> set (st_sessions (ps_store s))" for x
  proof -
    from run_sessions_added that ops(1) obtain oper where o: "oper \<in> set ops" "x \<in> set (added oper)"
      by (fastforce simp: new_store_def)
    have "authorised p past oper" using ops(2) o(1) by blast
    with o(2) show ?thesis by (cases oper) (auto simp: authorised_def)
  qed
  have e: "on_behalf p past (\<lambda>i. may_revoke i e)" if "e \<in> set (st_revoked (ps_store s))" for e
  proof -
    from run_revoked_by that ops(1) obtain oper where o: "oper \<in> set ops" "e \<in> set (revoked_by oper)"
      by (fastforce simp: new_store_def)
    have "authorised p past oper" using ops(2) o(1) by blast
    with o(2) show ?thesis by (cases oper) (auto simp: authorised_def)
  qed
  from inv x e show ?thesis by (simp add: store_inv_def)
qed


section \<open>Concrete requests\<close>

lemma first_request_granted:
  assumes "0 < n" "n \<le> 2 ^ 53"
  shows "fst (fst (allow (new_limiter n) user now))"
proof -
  obtain l where l: "new_limiter n = Some l" using assms by (simp add: new_limiter_def)
  then have n: "l_per_hour l = of_int n" "l_buckets l = []"
    using assms by (auto simp: new_limiter_def f64_of_int split: if_splits)
  have "refill l (find_bucket l user now) now = of_int n"
    using assms n by (simp add: refill_def find_bucket_def time_sub_def dur_seconds_def dur_float_def f64_of_int)
  then show ?thesis using assms(1) l by (simp add: allow_def allow_bucket_def Let_def)
qed

definition toy_post :: request where
  "toy_post = toy_request\<lparr>rq_method := ''POST'', rq_path := ''/profile/staff/issue''\<rparr>"

definition toy_service_state :: "store portal_state" where
  "toy_service_state = new_portal_state toy_config (replicate 60 (CHR ''r'')) example_world"

lemma toy_post_dispatch: "find_handler (routes False) toy_post = Dispatch Issue [''staff'']"
  by code_simp

lemma toy_post_identify:
  "identify toy_portal toy_post now
     = \<lparr>id_username = ''ann'', id_fullname = [], id_roles = [''ops'', ''eng''], id_admin = True\<rparr>"
proof -
  have "header_get toy_post k = header_get toy_request k" for k by (simp add: header_get_def toy_post_def)
  then have "identify toy_portal toy_post now = identify toy_portal toy_request now"
    by (simp add: identify_def toy_portal_def)
  with toy_identify show ?thesis by simp
qed

lemma toy_no_oidc [simp]: "pt_oidc toy_portal = None"
  by (simp add: toy_portal_def)

lemma toy_post_from_here: "from_here toy_portal toy_post"
proof -
  have n: "canonical_name ''Sec-Fetch-Site'' = ''Sec-Fetch-Site''" "canonical_name ''Origin'' = ''Origin''"
    by code_simp+
  have "header_get toy_post ''Sec-Fetch-Site'' = []" "header_get toy_post ''Origin'' = []"
    by (simp_all only: header_get_def n) (simp_all add: first_value_def toy_post_def toy_request_def)
  then show ?thesis by (simp add: from_here_def cross_origin_check_def toy_post_def safe_method_def)
qed

lemma toy_issue_expiry:
  "\<exists>cr rng. pki_issue toy_pki_env toy_pki_ca ''ann'' ''staff'' hour (5 * hour) (replicate 60 (CHR ''r'')) = Inr (cr, rng)
     \<and> pr_not_after cr = 6 * hour"
  by (simp add: pki_issue_def pki_new_serial_def rand_int_def take_bytes_def toy_pki_env_def
      bounded_expiry_def toy_cert_def ca_template_def ca_validity_def sign_template_def encode_key_def Let_def
      truncate_second_def client_template_def)

lemma toy_limit: "issue_limit toy_config = 20"
  by (simp add: issue_limit_def toy_config_def example_config_def with_defaults_def example_decoded_def
      default_issues_per_hour_def)

lemma toy_post_served:
  "\<exists>x. st_sessions (ps_store (snd (portal_handler toy_portal files toy_post (\<lambda>_. 5 * hour) toy_service_state))) = [x]
     \<and> ss_user x = ''ann''
     \<and> rs_status (fst (portal_handler toy_portal files toy_post (\<lambda>_. 5 * hour) toy_service_state)) = 200"
proof -
  let ?s = toy_service_state
  obtain cr rng where c: "pki_issue toy_pki_env toy_pki_ca ''ann'' ''staff'' hour (5 * hour) (replicate 60 (CHR ''r'')) = Inr (cr, rng)"
    "pr_not_after cr = 6 * hour" using toy_issue_expiry by blast
  have s: "ps_rng ?s = replicate 60 (CHR ''r'')" "ps_limiter ?s = new_limiter 20"
    "st_sessions (ps_store ?s) = []" "store_max (ps_store ?s) \<ge> 1"
    using store_max_pos by (simp_all add: toy_service_state_def new_portal_state_def toy_limit new_store_def int_one_le_iff_zero_less)
  obtain res s1 where r: "rate_limited ''ann'' (5 * hour) ?s = (res, s1)" by fastforce
  have granted: "res = None" "ps_rng s1 = ps_rng ?s" "ps_store s1 = ps_store ?s"
    using rate_limited_cases [OF r] first_request_granted [of 20 "''ann''" "5 * hour"] s(2) by simp_all
  obtain q where q: "config_profile toy_config ''staff'' = Some q" "p_name q = ''staff''" "p_duration q = hour"
    "p_roles q = [''eng'']" using toy_vpn_lookup by simp
  let ?x = "vpn_session ''ann'' q toy_post (5 * hour) cr"
  have "handle_issue toy_portal toy_post ''staff'' (\<lambda>_. 5 * hour) ?s
      = (vpn_response toy_portal ''ann'' q cr, record_issued toy_portal ?x (5 * hour) (s1\<lparr>ps_rng := rng\<rparr>))"
    unfolding handle_issue_def Let_def toy_post_identify
    using c(1) granted r q s(1) by (simp add: toy_username authorize_def profile_allowed_for_def)
  moreover from this have "rs_status (fst (handle_issue toy_portal toy_post ''staff'' (\<lambda>_. 5 * hour) ?s)) = 200"
    by (simp add: vpn_response_def)
  moreover have "portal_handler toy_portal files toy_post (\<lambda>_. 5 * hour) ?s
      = (with_headers security_headers (fst (handle_issue toy_portal toy_post ''staff'' (\<lambda>_. 5 * hour) ?s)),
         snd (handle_issue toy_portal toy_post ''staff'' (\<lambda>_. 5 * hour) ?s))"
    using toy_post_from_here toy_post_dispatch
    by (simp add: portal_handler_def gate_def serve_mux_def serve_route_def path_value_def from_here_def split: prod.split)
  ultimately have "rs_status (fst (portal_handler toy_portal files toy_post (\<lambda>_. 5 * hour) ?s)) = 200"
    "st_sessions (ps_store (snd (portal_handler toy_portal files toy_post (\<lambda>_. 5 * hour) ?s)))
      = prune_sessions (store_max (ps_store ?s)) (5 * hour) [?x]"
    using record_issued_memory(1) [of toy_portal ?x "5 * hour" "s1\<lparr>ps_rng := rng\<rparr>"] granted s(3) by simp_all
  moreover have "ss_expires_at ?x = 6 * hour" "ss_user ?x = ''ann''" using c(2) by (simp_all add: vpn_session_def)
  moreover from this have "prune_sessions (store_max (ps_store ?s)) (5 * hour) [?x] = [?x]"
    using s(4) by (subst prune_sessions_under_cap) (simp_all add: session_expired_def)
  ultimately show ?thesis by simp
qed

definition toy_files :: "string \<Rightarrow> request \<Rightarrow> response" where
  "toy_files path r = http_error 404 ''404 page not found''"

theorem request_refines_store_witness:
  "\<exists>ops. ps_store (snd (portal_handler toy_portal toy_files toy_post (\<lambda>_. 5 * hour) toy_service_state))
       = store_run ops (new_store (c_max_tracked_sessions toy_config))
     \<and> list_all (permitted toy_config \<lparr>id_username = ''ann'', id_fullname = [], id_roles = [''ops'', ''eng''], id_admin = True\<rparr>) ops
     \<and> from_here toy_portal toy_post"
proof -
  have "ps_store toy_service_state = new_store (c_max_tracked_sessions toy_config)"
    by (simp add: toy_service_state_def new_portal_state_def)
  with request_refines_store [OF toy_portal_simps(1), of toy_files toy_post "\<lambda>_. 5 * hour" toy_service_state] toy_post_from_here
  show ?thesis unfolding toy_post_identify by (auto simp: list_all_iff)
qed

theorem service_invariant_witness:
  "\<exists>s. service toy_portal toy_files 
       [(toy_post, \<lambda>_. 5 * hour, fst (portal_handler toy_portal toy_files toy_post (\<lambda>_. 5 * hour) toy_service_state))] s
     \<and> (\<exists>x. st_sessions (ps_store s) = [x] \<and> ss_user x = ''ann''
          \<and> from_here toy_portal toy_post \<and> entitled toy_config (identify toy_portal toy_post (5 * hour)) x)"
proof -
  let ?s = "snd (portal_handler toy_portal toy_files toy_post (\<lambda>_. 5 * hour) toy_service_state)"
  have "service toy_portal toy_files [] toy_service_state"
    using service.start [of toy_portal toy_files] by (simp add: toy_service_state_def)
  then have s: "service toy_portal toy_files 
      [(toy_post, \<lambda>_. 5 * hour, fst (portal_handler toy_portal toy_files toy_post (\<lambda>_. 5 * hour) toy_service_state))] ?s" by (rule service.request)
  obtain x where x: "st_sessions (ps_store ?s) = [x]" "ss_user x = ''ann''" using toy_post_served by blast
  have "from_here toy_portal toy_post \<and> entitled toy_config (identify toy_portal toy_post (5 * hour)) x"
    using service_invariant [OF s toy_portal_simps(1)] x(1) by (auto simp: on_behalf_def)
  with s x show ?thesis by (intro exI [of _ ?s]) auto
qed

text \<open>A portal that signs people in itself, asked for the audit list without a cookie.\<close>

definition toy_signing_portal :: "store portal" where
  "toy_signing_portal = toy_portal\<lparr>pt_oidc := Some toy_authenticator\<rparr>"

definition toy_look :: request where
  "toy_look = (request_with [])\<lparr>rq_method := ''GET'', rq_path := ''/issued''\<rparr>"


end
