(* ===== verification/Rate_Bound.thy ===== *)
theory Rate_Bound
  imports Rate_Limit
begin

text \<open>
  What the limiter promises over time: however the requests of any number of users interleave, one
  user is granted no more than a full bucket plus what accrues at the hourly rate, up to an
  explicit allowance for the rounding of \<^verbatim>\<open>float64\<close>. The proof follows an exact credit account
  that over-approximates the floating-point one.
\<close>

section \<open>Error bounds\<close>

definition eps :: rat where "eps = 2 powi (-53)"

lemma eps_pos: "0 < eps" by (simp add: eps_def)

lemma f64_upper: "0 \<le> q \<Longrightarrow> f64 q \<le> q * (1 + eps)"
proof -
  assume "0 \<le> q"
  then have "\<bar>f64 q - q\<bar> \<le> q * eps" unfolding eps_def by (rule f64_error)
  then show ?thesis by (simp add: distrib_left)
qed

lemma dur_seconds_upper:
  assumes "0 \<le> d"
  shows "dur_seconds d \<le> of_int d / 1000000000 * (1 + eps) ^ 3"
proof -
  let ?q = "of_int (d div second) :: rat" and ?r = "of_int (d mod second) :: rat"
  have qr: "0 \<le> ?q" "0 \<le> ?r" using assms by (simp_all add: pos_imp_zdiv_nonneg_iff)
  have e: "1 \<le> 1 + eps" "0 < 1 + eps" using eps_pos by simp_all
  have "f64 (f64 ?r / 1000000000) \<le> f64 ?r / 1000000000 * (1 + eps)"
    using qr by (intro f64_upper divide_nonneg_nonneg f64_nonneg) simp_all
  also have "\<dots> \<le> ?r * (1 + eps) / 1000000000 * (1 + eps)"
    using qr e by (intro mult_right_mono divide_right_mono f64_upper) simp_all
  finally have r: "f64 (f64 ?r / 1000000000) \<le> ?r / 1000000000 * (1 + eps) ^ 2"
    by (simp add: power2_eq_square)
  have "f64 ?q \<le> ?q * (1 + eps)" using qr by (intro f64_upper)
  also have "\<dots> \<le> ?q * (1 + eps) ^ 2"
    using qr e by (intro mult_left_mono) (simp_all add: self_le_power)
  finally have sum: "f64 ?q + f64 (f64 ?r / 1000000000)
      \<le> (?q + ?r / 1000000000) * (1 + eps) ^ 2"
    using r by (simp add: distrib_right)
  have "d = d div second * second + d mod second" by simp
  then have "(of_int d :: rat) = ?q * 1000000000 + ?r"
    by (metis of_int_add of_int_mult of_int_numeral)
  then have total: "?q + ?r / 1000000000 = of_int d / 1000000000" by simp
  have "dur_seconds d = f64 (f64 ?q + f64 (f64 ?r / 1000000000))"
    using assms by (simp add: dur_seconds_def dur_float_def)
  also have "\<dots> \<le> (f64 ?q + f64 (f64 ?r / 1000000000)) * (1 + eps)"
    using qr by (intro f64_upper add_nonneg_nonneg f64_nonneg divide_nonneg_nonneg) simp_all
  also have "\<dots> \<le> (?q + ?r / 1000000000) * (1 + eps) ^ 2 * (1 + eps)"
    using sum e by (intro mult_right_mono) simp_all
  finally show ?thesis unfolding total by (simp add: power2_eq_square power3_eq_cube mult.assoc)
qed

section \<open>The exact account\<close>

text \<open>Credit per nanosecond, with the allowance for rounding.\<close>

definition credit_rate :: "int \<Rightarrow> rat" where
  "credit_rate n = of_int n / 3600 / 1000000000 * (1 + eps) ^ 6"

definition credit :: "int \<Rightarrow> limiter \<Rightarrow> string \<Rightarrow> instant \<Rightarrow> rat" where
  "credit n l k t =
     (case map_of (l_buckets l) k of
        None \<Rightarrow> of_int n
      | Some b \<Rightarrow> min (of_int n) (b_tokens b + of_int (t - b_last b) * credit_rate n))"

definition not_after :: "instant \<Rightarrow> limiter \<Rightarrow> bool" where
  "not_after t l \<longleftrightarrow> (\<forall>(k, b)\<in>set (l_buckets l). b_last b \<le> t)"

lemma credit_rate_nonneg: "0 \<le> n \<Longrightarrow> 0 \<le> credit_rate n"
  using eps_pos by (simp add: credit_rate_def)

lemma not_after_mono: "not_after t l \<Longrightarrow> t \<le> t' \<Longrightarrow> not_after t' l"
  by (fastforce simp: not_after_def)

lemma not_after_find: "not_after t l \<Longrightarrow> t \<le> now \<Longrightarrow> b_last (find_bucket l k now) \<le> now"
  by (fastforce simp: not_after_def find_bucket_def dest: map_of_SomeD split: option.splits)

lemma allow_not_after:
  assumes "not_after t l" "t \<le> now"
  shows "not_after now (snd (allow_bucket l k now))"
proof -
  obtain b where b: "snd (allow_bucket l k now) = sweep now (put_bucket k b l)" "b_last b = now"
    by (rule allow_state)
  have "set (l_buckets (sweep now (put_bucket k b l))) \<subseteq> insert (k, b) (set (l_buckets l))"
    using sweep_subset set_update_subset by (fastforce simp: put_bucket_def)
  with assms b show ?thesis by (fastforce simp: not_after_def)
qed

lemma credit_later:
  assumes "0 \<le> n" "t \<le> t'"
  shows "credit n l k t' \<le> credit n l k t + of_int (t' - t) * credit_rate n"
proof -
  have "0 \<le> of_int (t' - t) * credit_rate n"
    using assms by (intro mult_nonneg_nonneg credit_rate_nonneg) simp_all
  then show ?thesis
    by (auto simp: credit_def min_def algebra_simps split: option.split)
qed

lemma refill_le_credit:
  assumes inv: "limiter_inv n l" and last: "b_last (find_bucket l k now) \<le> now"
  shows "refill l (find_bucket l k now) now \<le> credit n l k now + of_int n * eps"
proof (cases "map_of (l_buckets l) k")
  case None
  have "0 \<le> of_int n * eps" using inv eps_pos by (simp add: limiter_inv_def)
  then show ?thesis using None fresh_is_full [OF inv None] by (simp add: credit_def)
next
  case (Some b)
  have fb: "find_bucket l k now = b" using Some by (simp add: find_bucket_def)
  have n: "0 \<le> (of_int n :: rat)" "l_per_hour l = of_int n"
    using inv by (simp_all add: limiter_inv_def)
  have tok: "0 \<le> b_tokens b" "b_tokens b \<le> of_int n"
    using find_bucket_bounds [OF inv, of k now] fb by simp_all
  let ?d = "time_sub now (b_last b)" and ?e = "1 + eps"
  have e: "0 < ?e" using eps_pos by simp
  have d: "0 \<le> ?d" "?d \<le> now - b_last b"
    using last fb by (simp_all add: time_sub_nonneg time_sub_le)
  have ps: "0 \<le> per_second l" "per_second l \<le> of_int n / 3600 * ?e"
    using per_second_nonneg [OF inv] f64_upper [of "of_int n / 3600"] n
    by (simp_all add: per_second_def)
  have s: "0 \<le> dur_seconds ?d" "dur_seconds ?d \<le> of_int ?d / 1000000000 * ?e ^ 3"
    using dur_seconds_nonneg [OF d(1)] dur_seconds_upper [OF d(1)] by blast+
  let ?x = "dur_seconds ?d * per_second l"
  have "?x \<le> (of_int ?d / 1000000000 * ?e ^ 3) * (of_int n / 3600 * ?e)"
    using s ps d e n by (intro mult_mono) simp_all
  then have "?x * (?e * ?e) \<le> (of_int ?d / 1000000000 * ?e ^ 3) * (of_int n / 3600 * ?e) * (?e * ?e)"
    using e by (intro mult_right_mono) simp_all
  also have "\<dots> = of_int ?d * credit_rate n"
    by (simp add: credit_rate_def power_numeral_reduce)
  also have "\<dots> \<le> of_int (now - b_last b) * credit_rate n"
    using d n credit_rate_nonneg [of n] by (intro mult_right_mono) (simp_all only: of_int_le_iff)
  finally have x: "?x * (?e * ?e) \<le> of_int (now - b_last b) * credit_rate n" .
  have x0: "0 \<le> ?x" using s ps by simp
  have "f64 (b_tokens b + f64 ?x) \<le> (b_tokens b + f64 ?x) * ?e"
    using tok x0 by (intro f64_upper add_nonneg_nonneg f64_nonneg) simp_all
  also have "\<dots> \<le> (b_tokens b + ?x * ?e) * ?e"
    using x0 e by (intro mult_right_mono add_left_mono f64_upper) simp_all
  also have "\<dots> = b_tokens b + b_tokens b * eps + ?x * (?e * ?e)"
    by (simp add: algebra_simps)
  also have "\<dots> \<le> b_tokens b + of_int n * eps + of_int (now - b_last b) * credit_rate n"
    using tok x eps_pos by (intro add_mono mult_right_mono) simp_all
  finally have "f64 (b_tokens b + f64 ?x)
      \<le> b_tokens b + of_int (now - b_last b) * credit_rate n + of_int n * eps" by simp
  then have "refill l b now \<le> b_tokens b + of_int (now - b_last b) * credit_rate n + of_int n * eps"
    by (simp add: refill_def min_le_iff_disj)
  moreover have "refill l b now \<le> of_int n + of_int n * eps"
    using n eps_pos by (simp add: refill_def min_le_iff_disj)
  ultimately show ?thesis using Some by (simp add: credit_def fb min_def)
qed

lemma credit_after_sweep:
  assumes inv: "limiter_inv n l" and "not_after now l"
  shows "credit n (sweep now l) k now = credit n l k now"
proof (cases "map_of (l_buckets (sweep now l)) k = map_of (l_buckets l) k")
  case True
  then show ?thesis by (simp add: credit_def)
next
  case False
  then obtain b where b: "map_of (l_buckets l) k = Some b" "hour < time_sub now (b_last b)"
      "map_of (l_buckets (sweep now l)) k = None"
    using map_of_sweep [OF inv] by (auto split: option.splits if_splits)
  have n: "0 < (of_int n :: rat)" using inv by (simp add: limiter_inv_def)
  have "(k, b) \<in> set (l_buckets l)" using b(1) by (rule map_of_SomeD)
  then have "b_last b \<le> now" "0 \<le> b_tokens b"
    using assms by (auto simp: not_after_def limiter_inv_def)
  then have "hour \<le> now - b_last b" using b(2) time_sub_le [of "b_last b" now] by linarith
  then have "(of_int hour :: rat) \<le> of_int (now - b_last b)" by (simp only: of_int_le_iff)
  moreover have "(1::rat) \<le> (1 + eps) ^ 6" using eps_pos by (intro one_le_power) simp
  ultimately have "of_int hour * (of_int n / 3600 / 1000000000 * 1)
      \<le> of_int (now - b_last b) * credit_rate n"
    using n unfolding credit_rate_def by (intro mult_mono) simp_all
  then have "of_int n \<le> of_int (now - b_last b) * credit_rate n" by simp
  with b \<open>0 \<le> b_tokens b\<close> show ?thesis by (simp add: credit_def)
qed

section \<open>The bound\<close>

text \<open>Grants to \<open>k\<close> while a sequence of requests, of any users, is served.\<close>

fun grants :: "limiter \<Rightarrow> string \<Rightarrow> (string \<times> instant) list \<Rightarrow> nat" where
  "grants l k [] = 0"
| "grants l k ((j, now) # rs) =
     (if j = k \<and> fst (fst (allow_bucket l j now)) then 1 else 0)
     + grants (snd (allow_bucket l j now)) k rs"

fun in_order :: "instant \<Rightarrow> instant \<Rightarrow> (string \<times> instant) list \<Rightarrow> bool" where
  "in_order t0 t1 [] = (t0 \<le> t1)"
| "in_order t0 t1 ((j, now) # rs) = (t0 \<le> now \<and> in_order now t1 rs)"

lemma credit_step:
  assumes inv: "limiter_inv n l" and "not_after t l" "t \<le> now"
  shows "(if j = k \<and> fst (fst (allow_bucket l j now)) then 1 else 0)
       + credit n (snd (allow_bucket l j now)) k now
     \<le> credit n l k now + (if j = k then of_int n * (2 * eps) else 0)"
proof -
  let ?R = "refill l (find_bucket l j now) now"
  obtain b where b: "snd (allow_bucket l j now) = sweep now (put_bucket j b l)" "b_last b = now"
      "b_tokens b = (let t = ?R in if t < 1 then t else f64 (t - 1))"
    by (rule allow_state)
  have last: "b_last (find_bucket l j now) \<le> now" using assms by (simp add: not_after_find)
  have n: "0 < n \<and> n \<le> 2 ^ 53" using inv by (simp add: limiter_inv_def)
  have ne: "0 \<le> of_int n * eps" using n eps_pos by simp
  have R: "?R \<le> of_int n"
    using refill_bounds [OF inv _ last] find_bucket_bounds [OF inv] by auto
  have tok: "0 \<le> b_tokens b \<and> b_tokens b \<le> of_int n"
    by (rule next_tokens_bounds [OF inv last b(3)])
  have inv': "limiter_inv n (put_bucket j b l)" using inv tok by (simp add: put_bucket_inv)
  have after: "not_after now (put_bucket j b l)"
    using not_after_mono [OF assms(2,3)] b(2) set_update_subset [of j b "l_buckets l"]
    by (fastforce simp: not_after_def put_bucket_def)
  have c: "credit n (snd (allow_bucket l j now)) k now = credit n (put_bucket j b l) k now"
    unfolding b(1) by (rule credit_after_sweep [OF inv' after])
  show ?thesis
  proof (cases "j = k")
    case False
    then show ?thesis unfolding c by (simp add: credit_def)
  next
    case True
    have c': "credit n (put_bucket j b l) k now = b_tokens b"
      using True tok b(2) by (simp add: credit_def)
    have le: "?R \<le> credit n l k now + of_int n * eps"
      using refill_le_credit [OF inv last] True by simp
    show ?thesis
    proof (cases "?R < 1")
      case refused: True
      then have "\<not> fst (fst (allow_bucket l j now))" "b_tokens b = ?R"
        using b(3) by (auto simp: allow_bucket_def Let_def)
      with True c c' le ne show ?thesis by simp
    next
      case False
      have "f64 (?R - 1) \<le> (?R - 1) * (1 + eps)" using False by (intro f64_upper) simp
      also have "\<dots> \<le> ?R - 1 + of_int n * eps"
        using R eps_pos mult_right_mono [of "?R - 1" "of_int n" eps] by (simp add: distrib_left)
      finally have "b_tokens b \<le> ?R - 1 + of_int n * eps" using b(3) False by (simp add: Let_def)
      moreover have "fst (fst (allow_bucket l j now))"
        using False by (simp add: allow_bucket_def Let_def)
      ultimately show ?thesis using True c c' le by simp
    qed
  qed
qed

lemma grants_le_credit:
  assumes "limiter_inv n l" "not_after t0 l" "in_order t0 t1 rs"
  shows "of_nat (grants l k rs) \<le> credit n l k t0 + of_int (t1 - t0) * credit_rate n
    + of_nat (length (filter (\<lambda>(j, _). j = k) rs)) * (of_int n * (2 * eps))"
  using assms
proof (induction rs arbitrary: l t0)
  case Nil
  have n: "0 \<le> n" using Nil.prems(1) by (simp add: limiter_inv_def)
  have "0 \<le> credit n l k t1"
  proof (cases "map_of (l_buckets l) k")
    case (Some b)
    then have "(k, b) \<in> set (l_buckets l)" by (rule map_of_SomeD)
    then have "0 \<le> b_tokens b" "b_last b \<le> t1"
      using Nil.prems by (auto simp: limiter_inv_def not_after_def)
    then show ?thesis using Some n credit_rate_nonneg [OF n] by (simp add: credit_def)
  qed (use n in \<open>simp add: credit_def\<close>)
  moreover have "credit n l k t1 \<le> credit n l k t0 + of_int (t1 - t0) * credit_rate n"
    using Nil.prems n by (intro credit_later) simp_all
  ultimately show ?case by simp
next
  case (Cons r rs)
  obtain j now where r: "r = (j, now)" by fastforce
  let ?l' = "snd (allow_bucket l j now)"
  have n: "0 \<le> n" using Cons.prems(1) by (simp add: limiter_inv_def)
  have t: "t0 \<le> now" "in_order now t1 rs" using Cons.prems(3) r by simp_all
  have inv': "limiter_inv n ?l'"
    using Cons.prems t by (intro allow_bucket_inv not_after_find) auto
  have after: "not_after now ?l'" using Cons.prems(2) t(1) by (rule allow_not_after)
  have IH: "of_nat (grants ?l' k rs) \<le> credit n ?l' k now + of_int (t1 - now) * credit_rate n
      + of_nat (length (filter (\<lambda>(j, _). j = k) rs)) * (of_int n * (2 * eps))"
    by (rule Cons.IH [OF inv' after t(2)])
  have step: "(if j = k \<and> fst (fst (allow_bucket l j now)) then 1 else 0) + credit n ?l' k now
      \<le> credit n l k now + (if j = k then of_int n * (2 * eps) else 0)"
    by (rule credit_step [OF Cons.prems(1,2) t(1)])
  have later: "credit n l k now \<le> credit n l k t0 + of_int (now - t0) * credit_rate n"
    using n t(1) by (rule credit_later)
  have "of_nat (grants l k (r # rs))
      = (if j = k \<and> fst (fst (allow_bucket l j now)) then 1 else 0) + (of_nat (grants ?l' k rs) :: rat)"
    unfolding r grants.simps by (auto simp del: of_nat_add simp: of_nat_add [where 'a = rat])
  also have "\<dots> \<le> credit n l k t0 + of_int (now - t0) * credit_rate n
      + (if j = k then of_int n * (2 * eps) else 0) + of_int (t1 - now) * credit_rate n
      + of_nat (length (filter (\<lambda>(j, _). j = k) rs)) * (of_int n * (2 * eps))"
    using IH step later by linarith
  also have "\<dots> = credit n l k t0 + of_int (t1 - t0) * credit_rate n
      + of_nat (length (filter (\<lambda>(j, _). j = k) (r # rs))) * (of_int n * (2 * eps))"
    by (simp add: r algebra_simps)
  finally show ?case .
qed

lemma fresh_grants_bound:
  assumes "0 < n" "n \<le> 2 ^ 53" "new_limiter n = Some l" "in_order t0 t1 rs"
  shows "of_nat (grants l k rs) \<le> of_int n
    + of_int (t1 - t0) / of_int hour * of_int n * (1 + eps) ^ 6
    + of_nat (length (filter (\<lambda>(j, _). j = k) rs)) * of_int n * (2 * eps)"
proof -
  have inv: "limiter_inv n l" using assms by (intro new_limiter_inv)
  have empty: "l_buckets l = []" using assms(3) by (auto simp: new_limiter_def split: if_splits)
  then have "not_after t0 l" by (simp add: not_after_def)
  from grants_le_credit [OF inv this assms(4), of k]
  have "of_nat (grants l k rs) \<le> of_int n + of_int (t1 - t0) * credit_rate n
      + of_nat (length (filter (\<lambda>(j, _). j = k) rs)) * (of_int n * (2 * eps))"
    by (simp add: credit_def empty)
  moreover have "of_int (t1 - t0) * credit_rate n
      = of_int (t1 - t0) / of_int hour * of_int n * (1 + eps) ^ 6"
    by (simp add: credit_rate_def)
  ultimately show ?thesis by (simp only: mult.assoc)
qed

text \<open>
  C6. Over any run of a fresh limiter, however the users' requests interleave, one user is granted
  at most the hourly limit plus the elapsed time at the hourly rate, up to the relative rounding
  errors: a factor \<open>(1 + eps) ^ 6\<close> on the accrual and \<open>2 * eps\<close> of the limit per request, where
  \<open>eps\<close> is \<open>2 powi (-53)\<close>.
\<close>

theorem grants_bounded:
  assumes "0 < n" "n \<le> 2 ^ 53" "new_limiter n = Some l" "in_order t0 t1 rs"
  shows "of_nat (grants l k rs) \<le> of_int n
    + of_int (t1 - t0) / of_int hour * of_int n * (1 + eps) ^ 6
    + of_nat (length (filter (\<lambda>(j, _). j = k) rs)) * of_int n * (2 * eps)"
  by (rule fresh_grants_bound [OF assms])

lemma grants_example:
  "grants \<lparr>l_per_hour = 2, l_buckets = []\<rparr> ''a'' [(''a'', 0), (''b'', 0), (''a'', 0), (''a'', 0)] = 2"
  by code_simp

theorem grants_bounded_witness:
  "\<exists>l. new_limiter 2 = Some l
     \<and> grants l ''a'' [(''a'', 0), (''b'', 0), (''a'', 0), (''a'', 0)] = 2
     \<and> (of_nat (grants l ''a'' [(''a'', 0), (''b'', 0), (''a'', 0), (''a'', 0)]) :: rat)
       \<le> of_int 2 + of_int (1 - 0) / of_int hour * of_int 2 * (1 + eps) ^ 6
         + of_nat (length (filter (\<lambda>(j, _). j = ''a'') [(''a'', 0 :: int), (''b'', 0), (''a'', 0), (''a'', 0)]))
           * of_int 2 * (2 * eps)"
proof -
  have "f64 2 = 2" using f64_of_int [of 2] by simp
  then have l: "new_limiter 2 = Some \<lparr>l_per_hour = 2, l_buckets = []\<rparr>"
    by (simp add: new_limiter_def)
  have "in_order 0 1 [(''a'', 0), (''b'', 0), (''a'', 0), (''a'', 0)]" by simp
  with l grants_example grants_bounded [OF _ _ l this, of "''a''"] show ?thesis
    by (intro exI [of _ "\<lparr>l_per_hour = 2, l_buckets = []\<rparr>"] conjI) (simp_all del: grants.simps)
qed

end
