(* ===== verification/Service_Bounds.thy ===== *)
theory Service_Bounds
  imports Portal_Service Rate_Bound
begin

text \<open>
  What the service as a whole keeps: the rate limit on the credentials one user is handed, whatever
  is served in between, and counters that a scraper reads as what has happened.
\<close>

section \<open>One request and the limiter\<close>

text \<open>The caller of a request behind the gate, which reads the clock once before the handler does.\<close>

definition caller :: "'s portal \<Rightarrow> request \<Rightarrow> (nat \<Rightarrow> instant) \<Rightarrow> string" where
  "caller p r clk = id_username (identify p r (clk (if pt_oidc p = None then 0 else 1)))"

definition asks_to_issue :: "'s portal \<Rightarrow> request \<Rightarrow> bool" where
  "asks_to_issue p r \<longleftrightarrow>
     (case find_handler (routes (pt_oidc p \<noteq> None)) r of Dispatch h ms \<Rightarrow> h \<in> {Issue, SshIssue} | _ \<Rightarrow> False)"

definition handed_out :: "'s portal \<Rightarrow> request \<times> (nat \<Rightarrow> instant) \<times> response \<Rightarrow> bool" where
  "handed_out p q = (case q of (r, clk, resp) \<Rightarrow> asks_to_issue p r \<and> rs_status resp = 200)"

text \<open>The limiter after serving some calls, and whether serving one more grants it.\<close>

definition limit_run :: "(string \<times> instant) list \<Rightarrow> limiter option \<Rightarrow> limiter option" where
  "limit_run calls l = fold (\<lambda>(k, now) l. snd (allow l k now)) calls l"

definition used :: "limiter option \<Rightarrow> limiter option \<Rightarrow> string \<Rightarrow> instant \<Rightarrow> bool \<Rightarrow> bool" where
  "used l l' user now handed \<longleftrightarrow>
     l' = l \<and> \<not> handed \<or> l' = snd (allow l user now) \<and> (handed \<longrightarrow> fst (fst (allow l user now)))"

lemma authorize_limiter:
  "authorize p i name s = Inl out \<Longrightarrow> fst out = forbidden \<and> ps_limiter (snd out) = ps_limiter s"
  "authorize_ssh p i name s = Inl out' \<Longrightarrow> fst out' = forbidden \<and> ps_limiter (snd out') = ps_limiter s"
  using authorize_Inl authorize_ssh_Inl by blast+

lemma issue_used:
  "used (ps_limiter s) (ps_limiter (snd (handle_issue p r name clk s))) (id_username (identify p r (clk 0))) (clk 1)
     (rs_status (fst (handle_issue p r name clk s)) = 200)"
  by (auto simp: handle_issue_def used_def Let_def record_issued_def inc_def vpn_response_def
      dest!: authorize_limiter rate_limited_cases split: sum.split option.split prod.split)

lemma ssh_issue_used:
  "used (ps_limiter s) (ps_limiter (snd (handle_ssh_issue p r name clk s))) (id_username (identify p r (clk 0))) (clk 1)
     (rs_status (fst (handle_ssh_issue p r name clk s)) = 200)"
  by (auto simp: handle_ssh_issue_def used_def Let_def record_issued_def inc_def ssh_response_def
      dest!: authorize_limiter rate_limited_cases split: sum.split option.split prod.split)

section \<open>One request and the counters\<close>

text \<open>From \<open>m\<close> to \<open>m'\<close> by increments of the portal's own metrics, \<open>n\<close> of them of issued credentials.\<close>

definition counts :: "metrics \<Rightarrow> metrics \<Rightarrow> nat \<Rightarrow> bool" where
  "counts m m' n \<longleftrightarrow>
     (\<exists>incs. m' = fold (\<lambda>e. metrics_inc (fst e) (snd e)) incs m
        \<and> (\<forall>e\<in>set incs. fst e \<in> set metric_names \<and> plain_keys (snd e))
        \<and> length (filter (\<lambda>e. fst e = metric_issued) incs) = n)"

lemma counts_refl [intro, simp]: "counts m m 0"
  unfolding counts_def by (intro exI [of _ "[]"]) simp

lemma counts_one:
  "name \<in> set metric_names \<Longrightarrow> plain_keys labels \<Longrightarrow>
   counts m (metrics_inc name labels m) (if name = metric_issued then 1 else 0)"
  unfolding counts_def by (intro exI [of _ "[(name, labels)]"]) simp

lemma counts_trans: "counts a b m \<Longrightarrow> counts b c n \<Longrightarrow> counts a c (m + n)"
  unfolding counts_def by (elim exE conjE, rule_tac x = "incs @ incsa" in exI) auto

lemma metric_names_distinct:
  "metric_denied \<noteq> metric_issued" "metric_rate_limited \<noteq> metric_issued" "metric_revoked \<noteq> metric_issued"
  "metric_sign_in \<noteq> metric_issued"
  by (simp_all add: metric_denied_def metric_issued_def metric_rate_limited_def metric_revoked_def metric_sign_in_def)

lemma metric_names_member [simp]:
  "metric_denied \<in> set metric_names" "metric_issued \<in> set metric_names" "metric_rate_limited \<in> set metric_names"
  "metric_revoked \<in> set metric_names" "metric_sign_in \<in> set metric_names"
  by (simp_all add: metric_names_def)

lemma counts_inc:
  "counts (ps_metrics s) (ps_metrics (inc metric_denied [''kind'', v] s)) 0"
  "counts (ps_metrics s) (ps_metrics (inc metric_revoked [''kind'', v] s)) 0"
  "counts (ps_metrics s) (ps_metrics (inc metric_rate_limited [] s)) 0"
  "counts (ps_metrics s) (ps_metrics (inc metric_sign_in [] s)) 0"
  "counts (ps_metrics s) (ps_metrics (inc metric_issued [''kind'', v, ''profile'', w] s)) 1"
  using counts_one [of metric_denied "[''kind'', v]"] counts_one [of metric_revoked "[''kind'', v]"]
    counts_one [of metric_rate_limited "[]"] counts_one [of metric_sign_in "[]"]
    counts_one [of metric_issued "[''kind'', v, ''profile'', w]"]
  by (simp_all add: inc_def metric_names_distinct)

lemma rate_limited_counts:
  "rate_limited user now s = (x, s') \<Longrightarrow> counts (ps_metrics s) (ps_metrics s') 0"
  using counts_inc(3) [of "s\<lparr>ps_limiter := snd (allow (ps_limiter s) user now)\<rparr>"]
  by (auto simp: rate_limited_def split: prod.splits if_splits)

lemma authorize_counts:
  "authorize p i name s = Inl out \<Longrightarrow> counts (ps_metrics s) (ps_metrics (snd out)) 0"
  "authorize_ssh p i name s = Inl out \<Longrightarrow> counts (ps_metrics s) (ps_metrics (snd out)) 0"
  using counts_inc(1) by (auto simp: authorize_def authorize_ssh_def split: option.splits if_splits)

lemma record_counts:
  assumes "counts (ps_metrics s) (ps_metrics t) 0"
  shows "counts (ps_metrics s) (ps_metrics (record_issued p x now (t\<lparr>ps_rng := rng\<rparr>))) 1"
  using counts_trans [OF assms, of "ps_metrics (record_issued p x now (t\<lparr>ps_rng := rng\<rparr>))" 1]
    counts_inc(5) [of "t\<lparr>ps_rng := rng, ps_store := snd (sa_add (pt_store p) now x (ps_store t))\<rparr>"]
  by (simp add: record_issued_def)

lemma issue_counts:
  "counts (ps_metrics s) (ps_metrics (snd (handle_issue p r name clk s)))
     (if rs_status (fst (handle_issue p r name clk s)) = 200 then 1 else 0)"
proof -
  have refused: "rs_status resp \<noteq> 200" if "rate_limited u now s = (Some resp, s')" for u now resp s'
    using rate_limited_cases [OF that] by simp
  have denied: "rs_status (fst out) \<noteq> 200" if "authorize p i name s = Inl out" for i out
    using authorize_limiter(1) [OF that] by simp
  show ?thesis
    using authorize_counts(1)
    by (auto simp: handle_issue_def Let_def vpn_response_def
        simp del: One_nat_def intro!: record_counts intro: rate_limited_counts
        dest: refused denied split: sum.split option.split prod.split)
qed

lemma ssh_issue_counts:
  "counts (ps_metrics s) (ps_metrics (snd (handle_ssh_issue p r name clk s)))
     (if rs_status (fst (handle_ssh_issue p r name clk s)) = 200 then 1 else 0)"
proof -
  have refused: "rs_status resp \<noteq> 200" if "rate_limited u now s = (Some resp, s')" for u now resp s'
    using rate_limited_cases [OF that] by simp
  have denied: "rs_status (fst out) \<noteq> 200" if "authorize_ssh p i name s = Inl out" for i out
    using authorize_limiter(2) [OF that] by simp
  show ?thesis
    using authorize_counts(2)
    by (auto simp: handle_ssh_issue_def Let_def ssh_response_def
        simp del: One_nat_def intro!: record_counts intro: rate_limited_counts
        dest: refused denied split: sum.split option.split prod.split)
qed

section \<open>Everything else leaves both alone\<close>

lemma read_steady:
  "ps_limiter (snd (read_revocations p now k s)) = ps_limiter s \<and> ps_metrics (snd (read_revocations p now k s)) = ps_metrics s"
  by (simp add: read_revocations_def split: option.split prod.split)

lemma current_steady:
  "ps_limiter (snd (current_crl p ca clk s)) = ps_limiter s \<and> ps_metrics (snd (current_crl p ca clk s)) = ps_metrics s"
  "ps_limiter (snd (current_krl p ca' clk s)) = ps_limiter s \<and> ps_metrics (snd (current_krl p ca' clk s)) = ps_metrics s"
  using read_steady [of p "clk 0" _ s]
  by (auto simp: current_crl_def current_krl_def split: sum.split prod.split) (metis snd_conv)+

lemma write_list_steady:
  "ps_limiter (snd (write_list p name body s)) = ps_limiter s \<and> ps_metrics (snd (write_list p name body s)) = ps_metrics s"
  by (simp add: write_list_def split: prod.split)

lemma list_steady:
  "ps_limiter (snd (publish_crl p clk s)) = ps_limiter s \<and> ps_metrics (snd (publish_crl p clk s)) = ps_metrics s"
  "ps_limiter (snd (publish_krl p clk s)) = ps_limiter s \<and> ps_metrics (snd (publish_krl p clk s)) = ps_metrics s"
  using current_steady [of p _ clk s]
  by (auto simp: publish_crl_def publish_krl_def write_list_steady split: option.split sum.split prod.split)
     (metis snd_conv)+

lemma publish_steady:
  "ps_limiter (snd (publish_revocations p clk s)) = ps_limiter s
   \<and> ps_metrics (snd (publish_revocations p clk s)) = ps_metrics s"
proof -
  obtain x t where t: "publish_crl p clk s = (x, t)" by fastforce
  with list_steady(1) [of p clk s] have "ps_limiter t = ps_limiter s" "ps_metrics t = ps_metrics s" by simp_all
  with t list_steady(2) [of p "\<lambda>n. clk (n + 2)" t] show ?thesis
    by (simp add: publish_revocations_def split: sum.split)
qed

lemma visible_steady:
  "visible_sessions p i now s = (x, t) \<Longrightarrow> ps_limiter t = ps_limiter s \<and> ps_metrics t = ps_metrics s"
  by (auto simp: visible_sessions_def split: prod.splits)

lemma revoke_steady:
  "ps_limiter (snd (handle_revoke p r serial clk s)) = ps_limiter s"
  "counts (ps_metrics s) (ps_metrics (snd (handle_revoke p r serial clk s))) 0"
proof -
  obtain x t where t: "visible_sessions p (identify p r (clk 0)) (clk 1) s = (x, t)" by fastforce
  note v = visible_steady [OF t]
  show "ps_limiter (snd (handle_revoke p r serial clk s)) = ps_limiter s"
    using v unfolding handle_revoke_def Let_def t
    by (auto simp: publish_steady inc_def split: option.split prod.split bool.split)
  have "counts (ps_metrics s) (ps_metrics (inc metric_revoked [''kind'', w] (t\<lparr>ps_store := st\<rparr>))) 0" for w st
    using counts_inc(2) [of "t\<lparr>ps_store := st\<rparr>"] v by simp
  then show "counts (ps_metrics s) (ps_metrics (snd (handle_revoke p r serial clk s))) 0"
    using v unfolding handle_revoke_def Let_def t
    by (auto simp: publish_steady split: option.split prod.split bool.split)
qed

lemma issued_steady:
  "ps_limiter (snd (handle_issued p r clk s)) = ps_limiter s \<and> ps_metrics (snd (handle_issued p r clk s)) = ps_metrics s"
proof -
  obtain x t where t: "visible_sessions p (identify p r (clk 0)) (clk 1) s = (x, t)" by fastforce
  with visible_steady [OF this] show ?thesis by (simp add: handle_issued_def Let_def split: option.split)
qed

lemma other_routes:
  assumes "h \<notin> {Issue, SshIssue}"
  shows "ps_limiter (snd (serve_route p files h ms r clk s)) = ps_limiter s"
    and "counts (ps_metrics s) (ps_metrics (snd (serve_route p files h ms r clk s))) 0"
proof -
  have profile: "ps_limiter (snd (handle_profile p r name clk s)) = ps_limiter s"
    "counts (ps_metrics s) (ps_metrics (snd (handle_profile p r name clk s))) 0" for name
    by (cases "authorize p (identify p r (clk 0)) name s";
        simp add: handle_profile_def Let_def authorize_limiter authorize_counts)+
  have callback: "ps_limiter (snd (handle_callback p a r now s)) = ps_limiter s"
    "counts (ps_metrics s) (ps_metrics (snd (handle_callback p a r now s))) 0" for a now
    using counts_inc(4) [of s] by (auto simp: handle_callback_def inc_def split: sum.split prod.split)
  have login: "ps_limiter (snd (handle_login p a r now started s)) = ps_limiter s"
    "ps_metrics (snd (handle_login p a r now started s)) = ps_metrics s" for a now started
    by (auto simp: handle_login_def split: sum.split prod.split)
  show "ps_limiter (snd (serve_route p files h ms r clk s)) = ps_limiter s"
    using assms
    by (cases h) (auto simp: profile callback login issued_steady revoke_steady serve_route_def handle_profiles_def handle_ssh_profiles_def handle_setup_def Let_def
        split: option.split)
  show "counts (ps_metrics s) (ps_metrics (snd (serve_route p files h ms r clk s))) 0"
    using assms
    by (cases h) (auto simp: profile callback login issued_steady revoke_steady serve_route_def handle_profiles_def handle_ssh_profiles_def handle_setup_def Let_def
        split: option.split)
qed

section \<open>One request, whatever it asks for\<close>

definition step_ok :: "limiter option \<times> metrics \<Rightarrow> limiter option \<times> metrics \<Rightarrow> string \<Rightarrow> instant \<Rightarrow> bool \<Rightarrow> bool" where
  "step_ok a b user now handed \<longleftrightarrow>
     used (fst a) (fst b) user now handed \<and> counts (snd a) (snd b) (if handed then 1 else 0)"

abbreviation kept :: "'s portal_state \<Rightarrow> limiter option \<times> metrics" where
  "kept s \<equiv> (ps_limiter s, ps_metrics s)"

lemma step_ok_idle: "step_ok a a user now False"
  by (simp add: step_ok_def used_def)

lemma route_step:
  "step_ok (kept s) (kept (snd (serve_route p files h ms r clk s))) (id_username (identify p r (clk 0))) (clk 1)
     (h \<in> {Issue, SshIssue} \<and> rs_status (fst (serve_route p files h ms r clk s)) = 200)"
proof -
  consider "h = Issue" | "h = SshIssue" | "h \<notin> {Issue, SshIssue}" by blast
  then show ?thesis
  proof cases
    case 3
    then show ?thesis by (simp add: step_ok_def used_def other_routes [OF 3])
  qed (simp_all add: step_ok_def serve_route_def issue_used ssh_issue_used issue_counts ssh_issue_counts
        del: One_nat_def)
qed

lemma mux_step:
  "step_ok (kept s) (kept (snd (serve_mux p files r clk s))) (id_username (identify p r (clk 0))) (clk 1)
     (asks_to_issue p r \<and> rs_status (fst (serve_mux p files r clk s)) = 200)"
proof (cases "find_handler (routes (pt_oidc p \<noteq> None)) r")
  case (Dispatch h ms)
  then have "serve_mux p files r clk s = serve_route p files h ms r clk s" "asks_to_issue p r \<longleftrightarrow> h \<in> {Issue, SshIssue}"
    by (simp_all add: serve_mux_def asks_to_issue_def)
  then show ?thesis using route_step [of s p files h ms r clk] by simp
qed (simp_all add: serve_mux_def asks_to_issue_def step_ok_idle)

text \<open>Issuing is behind the gate, and the gate's refusals are no credentials.\<close>

lemma issue_not_open: "asks_to_issue p r \<Longrightarrow> \<not> open_path (url_path r)"
  using open_path_open_route [of "pt_oidc p \<noteq> None" r]
  by (auto simp: asks_to_issue_def open_routes_def split: found.splits)

lemma require_session_status: "require_session p r now = Some resp \<Longrightarrow> rs_status resp \<noteq> 200"
  by (auto simp: require_session_def Let_def split: sum.splits if_splits)

lemma mux_idle:
  assumes "\<not> asks_to_issue p r"
  shows "step_ok (kept s) (kept (snd (serve_mux p files r clk s))) user now False"
proof (cases "find_handler (routes (pt_oidc p \<noteq> None)) r")
  case (Dispatch h ms)
  then have "serve_mux p files r clk s = serve_route p files h ms r clk s" "h \<notin> {Issue, SshIssue}"
    using assms by (auto simp: serve_mux_def asks_to_issue_def)
  then show ?thesis by (simp add: step_ok_def used_def other_routes)
qed (simp_all add: serve_mux_def step_ok_idle)

lemma gate_step:
  "\<exists>now\<in>{clk 1, clk 2}. step_ok (kept s) (kept (snd (gate p files r clk s))) (caller p r clk) now
     (asks_to_issue p r \<and> rs_status (fst (gate p files r clk s)) = 200)"
proof (cases "asks_to_issue p r")
  case True
  consider "pt_oidc p = None" | resp where "pt_oidc p \<noteq> None" "require_session p r (clk 0) = Some resp"
    | "pt_oidc p \<noteq> None" "require_session p r (clk 0) = None" by blast
  then show ?thesis
  proof cases
    case 1
    then show ?thesis using mux_step [of s p files r clk] by (simp add: gate_def caller_def)
  next
    case (2 resp)
    then have "gate p files r clk s = (resp, s)" using issue_not_open [OF True] by (simp add: gate_def del: not_None_eq)
    with require_session_status [OF 2(2)] show ?thesis by (auto simp: step_ok_idle)
  next
    case 3
    then have "gate p files r clk s = serve_mux p files r (\<lambda>n. clk (n + 1)) s"
      using issue_not_open [OF True] by (simp add: gate_def del: not_None_eq)
    moreover have "caller p r clk = id_username (identify p r (clk (0 + 1)))" using 3 by (simp add: caller_def del: not_None_eq)
    ultimately show ?thesis using mux_step [of s p files r "\<lambda>n. clk (n + 1)"]
      by (intro bexI [of _ "clk 2"]) (simp_all add: numeral_2_eq_2)
  qed
next
  case False
  from gate_cases [of p files r clk s] show ?thesis
    by (elim disjE exE) (auto simp: False mux_idle [OF False] step_ok_idle)
qed

lemma handler_step:
  "\<exists>now\<in>{clk 1, clk 2}. step_ok (kept s) (kept (snd (portal_handler p files r clk s))) (caller p r clk) now
     (handed_out p (r, clk, fst (portal_handler p files r clk s)))"
proof (cases "cross_origin_check (pt_env p) r")
  case None
  then have "portal_handler p files r clk s
      = (with_headers security_headers (fst (gate p files r clk s)), snd (gate p files r clk s))"
    by (simp add: portal_handler_def split: prod.split)
  with gate_step [of clk s p files r] show ?thesis by (simp add: handed_out_def)
qed (auto simp: portal_handler_def handed_out_def step_ok_idle)

lemma scrape_steady:
  "kept (snd (metrics_handler p clk s)) = kept s"
proof -
  have active: "kept (snd (collect_active rk ks clk s)) = kept s" for rk ks clk and s :: "'s portal_state"
  proof (induction ks arbitrary: clk s)
    case (Cons k ks)
    obtain es st where "rk_revocations rk (clk 0) k (ps_store s) = (es, st)" by fastforce
    with Cons.IH [of "\<lambda>n. clk (n + 1)" "s\<lparr>ps_store := st\<rparr>"] show ?case by (auto split: option.splits prod.splits)
  qed simp
  have tracked: "kept (snd (collect_tracked p now s)) = kept s" for now
    by (auto simp: collect_tracked_def split: option.split prod.split)
  obtain gs t where t: "collect_tracked p (clk 0) s = (gs, t)" by fastforce
  with tracked [of "clk 0"] have "kept t = kept s" by simp
  show ?thesis
  proof (cases "sa_revoker (pt_store p)")
    case (Some rk)
    obtain hs v where v: "collect_active rk [KindVPN, KindSSH] (\<lambda>n. clk (n + 1)) t = (hs, v)" by fastforce
    with active [of rk "[KindVPN, KindSSH]" "\<lambda>n. clk (n + 1)" t] have "kept v = kept t" by simp
    then show ?thesis using \<open>kept t = kept s\<close>
      by (simp add: metrics_handler_def collect_gauges_def t v [unfolded Suc_eq_plus1 [symmetric]] Some Let_def
          del: collect_active.simps)
  qed (use \<open>kept t = kept s\<close> in \<open>simp add: metrics_handler_def collect_gauges_def t Let_def\<close>)
qed

section \<open>The service and its calls of the limiter\<close>

text \<open>Requests between two instants, each reading the clock after those answered before it.\<close>

fun timely :: "instant \<Rightarrow> served \<Rightarrow> instant \<Rightarrow> bool" where
  "timely t0 [] t1 \<longleftrightarrow> t0 \<le> t1"
| "timely t0 ((r, clk, resp) # past) t1 \<longleftrightarrow>
     clk 1 \<le> t1 \<and> clk 2 \<le> t1 \<and> timely t0 past (min (clk 1) (clk 2))"

definition asked_by :: "'s portal \<Rightarrow> string \<Rightarrow> request \<times> (nat \<Rightarrow> instant) \<times> response \<Rightarrow> bool" where
  "asked_by p user q = (case q of (r, clk, resp) \<Rightarrow> caller p r clk = user)"

definition tally :: "('a \<Rightarrow> bool) \<Rightarrow> 'a list \<Rightarrow> nat" where
  "tally P xs = length (filter P xs)"

lemma tally_simps [simp]: "tally P [] = 0" "tally P (x # xs) = (if P x then 1 else 0) + tally P xs"
  "tally P (xs @ ys) = tally P xs + tally P ys"
  by (simp_all add: tally_def)

text \<open>The limiter after some calls of a fresh one.\<close>

definition bucket_run :: "(string \<times> instant) list \<Rightarrow> limiter \<Rightarrow> limiter" where
  "bucket_run calls l = fold (\<lambda>(k, now) l. snd (allow_bucket l k now)) calls l"

lemma grants_snoc:
  "grants l k (cs @ [(j, now)])
     = grants l k cs + (if j = k \<and> fst (fst (allow_bucket (bucket_run cs l) j now)) then 1 else 0)"
  by (induction cs arbitrary: l) (auto simp: bucket_run_def)

lemma in_order_snoc: "in_order t0 t cs \<Longrightarrow> t \<le> now \<Longrightarrow> now \<le> t1 \<Longrightarrow> in_order t0 t1 (cs @ [(k, now)])"
  by (induction t0 t cs rule: in_order.induct) auto

lemma in_order_later: "in_order t0 t cs \<Longrightarrow> t \<le> t1 \<Longrightarrow> in_order t0 t1 cs"
  by (induction t0 t cs rule: in_order.induct) auto

text \<open>What the limiter has been asked, and what it has granted, follows the requests.\<close>

lemma service_calls:
  assumes "service p files past s" "new_limiter (issue_limit (pt_cfg p)) = Some l" "timely t0 past t1"
  shows "\<exists>calls. ps_limiter s = Some (bucket_run calls l) \<and> in_order t0 t1 calls
    \<and> tally (\<lambda>q. handed_out p q \<and> asked_by p k q) past \<le> grants l k calls
    \<and> tally (\<lambda>(j, _). j = k) calls \<le> tally (asked_by p k) past"
  using assms(1,3)
proof (induction arbitrary: t1 rule: service.induct)
  case (start rng w)
  then show ?case using assms(2) by (intro exI [of _ "[]"]) (simp add: new_portal_state_def bucket_run_def)
next
  case (request past s r clk)
  let ?resp = "fst (portal_handler p files r clk s)" and ?s' = "snd (portal_handler p files r clk s)"
  let ?q = "(r, clk, ?resp)" and ?user = "caller p r clk"
  have time: "clk 1 \<le> t1" "clk 2 \<le> t1" "timely t0 past (min (clk 1) (clk 2))" using request.prems by simp_all
  obtain calls where c: "ps_limiter s = Some (bucket_run calls l)" "in_order t0 (min (clk 1) (clk 2)) calls"
    "tally (\<lambda>q. handed_out p q \<and> asked_by p k q) past \<le> grants l k calls"
    "tally (\<lambda>(j, _). j = k) calls \<le> tally (asked_by p k) past"
    using request.IH [OF time(3)] by blast
  obtain now where now: "now \<in> {clk 1, clk 2}" "step_ok (kept s) (kept ?s') ?user now (handed_out p ?q)"
    using handler_step by blast
  have asker: "asked_by p k ?q \<longleftrightarrow> ?user = k" by (simp add: asked_by_def)
  from now(2) consider "ps_limiter ?s' = ps_limiter s" "\<not> handed_out p ?q"
    | "ps_limiter ?s' = snd (allow (ps_limiter s) ?user now)"
      "handed_out p ?q \<Longrightarrow> fst (fst (allow (ps_limiter s) ?user now))"
    by (auto simp: step_ok_def used_def)
  then show ?case
  proof cases
    case 1
    have "in_order t0 t1 calls" using time by (intro in_order_later [OF c(2)]) simp
    moreover have "tally (\<lambda>q. handed_out p q \<and> asked_by p k q) (?q # past) \<le> grants l k calls"
      "tally (\<lambda>(j, _). j = k) calls \<le> tally (asked_by p k) (?q # past)"
      using 1(2) c(3,4) by simp_all
    ultimately show ?thesis using 1(1) c(1) by (intro exI [of _ calls] conjI) simp_all
  next
    case 2
    have "in_order t0 t1 (calls @ [(?user, now)])"
      using now(1) time by (intro in_order_snoc [OF c(2)]) auto
    moreover have "ps_limiter ?s' = Some (bucket_run (calls @ [(?user, now)]) l)"
      using 2(1) c(1) by (simp add: allow_def bucket_run_def split: prod.split)
    moreover have "handed_out p ?q \<Longrightarrow> fst (fst (allow_bucket (bucket_run calls l) ?user now))"
      using 2(2) c(1) by (simp add: allow_def split: prod.splits)
    moreover from this have
      "tally (\<lambda>q. handed_out p q \<and> asked_by p k q) (?q # past) \<le> grants l k (calls @ [(?user, now)])"
      "tally (\<lambda>(j, _). j = k) (calls @ [(?user, now)]) \<le> tally (asked_by p k) (?q # past)"
      using c(3,4) by (auto simp: grants_snoc asker)
    ultimately show ?thesis by (intro exI [of _ "calls @ [(?user, now)]"] conjI)
  qed
next
  case (tick past s clk)
  then show ?case using publish_steady [of p clk s] by auto
next
  case (scrape past s clk)
  then show ?case using scrape_steady [of p clk s] by auto
qed

section \<open>What the counters are\<close>

text \<open>The total of the series of one metric.\<close>

definition total_of :: "string \<Rightarrow> metrics \<Rightarrow> int" where
  "total_of name m = sum_list (map snd (filter (\<lambda>(x, _). series_name x = name) m))"

definition metrics_ok :: "metrics \<Rightarrow> bool" where
  "metrics_ok m \<longleftrightarrow> distinct (map fst m) \<and> (\<forall>(x, n)\<in>set m. series_ok x \<and> 0 < n)"

lemma total_update:
  "distinct (map fst m) \<Longrightarrow>
   total_of name (AList.update x (count_of m x + 1) m) = total_of name m + (if series_name x = name then 1 else 0)"
proof (induction m)
  case (Cons e m)
  obtain y n where e: "e = (y, n)" by (cases e)
  show ?case
  proof (cases "y = x")
    case False
    then have "count_of (e # m) x = count_of m x" by (simp add: e count_of_def)
    with Cons False show ?thesis by (simp add: e total_of_def)
  qed (simp add: e total_of_def count_of_def)
qed (simp add: total_of_def count_of_def)

lemma metrics_inc_total:
  "distinct (map fst m) \<Longrightarrow> total_of name (metrics_inc n ls m) = total_of name m + (if n = name then 1 else 0)"
  by (simp add: metrics_inc_def Let_def total_update)

lemma count_of_nonneg: "metrics_ok m \<Longrightarrow> 0 \<le> count_of m x"
  by (auto simp: metrics_ok_def count_of_def split: option.split dest!: map_of_SomeD)

lemma metrics_inc_ok:
  assumes "metrics_ok m" "n \<in> set metric_names" "plain_keys ls"
  shows "metrics_ok (metrics_inc n ls m)"
proof -
  let ?x = "Series n (format_labels ls)"
  have "series_ok ?x" using assms(2,3) by (simp add: series_ok_def format_labels_plain)
  moreover have "set (AList.update ?x v m) \<subseteq> insert (?x, v) (set m)" for v
    by (induction m) auto
  ultimately show ?thesis
    using assms(1) count_of_nonneg [OF assms(1), of ?x]
    by (fastforce simp: metrics_ok_def metrics_inc_def Let_def distinct_update)
qed

lemma counts_totals:
  assumes "counts m m' n" "metrics_ok m"
  shows "metrics_ok m' \<and> total_of metric_issued m' = total_of metric_issued m + int n"
proof -
  have "metrics_ok (fold (\<lambda>e. metrics_inc (fst e) (snd e)) incs m)
      \<and> total_of metric_issued (fold (\<lambda>e. metrics_inc (fst e) (snd e)) incs m)
          = total_of metric_issued m + int (length (filter (\<lambda>e. fst e = metric_issued) incs))"
    if "\<forall>e\<in>set incs. fst e \<in> set metric_names \<and> plain_keys (snd e)" for incs
    using that assms(2)
  proof (induction incs arbitrary: m)
    case (Cons e incs)
    have d: "distinct (map fst m)" using Cons.prems(2) by (simp add: metrics_ok_def)
    have "metrics_ok (metrics_inc (fst e) (snd e) m)" using Cons.prems by (intro metrics_inc_ok) simp_all
    from Cons.IH [OF _ this] Cons.prems(1) show ?case by (simp add: metrics_inc_total [OF d])
  qed simp
  with assms(1) show ?thesis by (auto simp: counts_def)
qed

lemma service_counted:
  assumes "service p files past s"
  shows "metrics_ok (ps_metrics s) \<and> total_of metric_issued (ps_metrics s) = int (tally (handed_out p) past)"
  using assms
proof (induction rule: service.induct)
  case (start rng w)
  show ?case by (simp add: new_portal_state_def new_metrics_def metrics_ok_def total_of_def)
next
  case (request past s r clk)
  obtain now where "step_ok (kept s) (kept (snd (portal_handler p files r clk s))) (caller p r clk) now
      (handed_out p (r, clk, fst (portal_handler p files r clk s)))"
    using handler_step by blast
  then have c: "counts (ps_metrics s) (ps_metrics (snd (portal_handler p files r clk s)))
      (if handed_out p (r, clk, fst (portal_handler p files r clk s)) then 1 else 0)"
    by (simp add: step_ok_def)
  from counts_totals [OF c] request.IH show ?case by simp
next
  case (tick past s clk)
  then show ?case using publish_steady [of p clk s] by simp
next
  case (scrape past s clk)
  then show ?case using scrape_steady [of p clk s] by simp
qed

section \<open>Properties\<close>

text \<open>
  C38. Over the whole life of a started portal, whatever requests of whatever users it answers, and with
  ticks and scrapes in between, the credentials one user is handed, VPN and SSH together, stay within
  the hourly limit and what accrues in the time elapsed, up to the rounding of the limiter's floating
  point arithmetic: a factor \<open>(1 + eps) ^ 6\<close> on the accrual and \<open>2 * eps\<close> of the limit per request of
  that user, where \<open>eps\<close> is \<open>2 powi (-53)\<close>.
\<close>

theorem service_rate_bound:
  assumes "service p files past s" "issue_limit (pt_cfg p) = n" "0 < n" "n \<le> 2 ^ 53" "timely t0 past t1"
  shows "of_nat (tally (\<lambda>q. handed_out p q \<and> asked_by p user q) past) \<le> of_int n
    + of_int (t1 - t0) / of_int hour * of_int n * (1 + eps) ^ 6
    + of_nat (tally (asked_by p user) past) * of_int n * (2 * eps)"
proof -
  obtain l where l: "new_limiter n = Some l" using assms(3) by (simp add: new_limiter_def)
  obtain calls where c: "in_order t0 t1 calls"
    "tally (\<lambda>q. handed_out p q \<and> asked_by p user q) past \<le> grants l user calls"
    "tally (\<lambda>(j, _). j = user) calls \<le> tally (asked_by p user) past"
    using service_calls [OF assms(1) _ assms(5), of l user] l assms(2) by auto
  have "0 \<le> of_int n * (2 * eps)" using assms(3) eps_pos by simp
  then have "of_nat (tally (\<lambda>(j, _). j = user) calls) * (of_int n * (2 * eps))
      \<le> of_nat (tally (asked_by p user) past) * (of_int n * (2 * eps))"
    using c(3) by (intro mult_right_mono) simp_all
  with fresh_grants_bound [OF assms(3,4) l c(1), of user] c(2) show ?thesis
    unfolding mult.assoc tally_def [of "\<lambda>(j, _). j = user"] by linarith
qed

text \<open>
  C39. The counters of a running portal are well formed and true: in every reachable state each series
  appears once, has the name of a metric the portal declares and labels that cannot break a line of the
  exposition, and counts something; and the issued certificates counted, over all kinds and profiles,
  are exactly the requests answered with a credential.
\<close>

theorem service_counters:
  assumes "service p files past s"
  shows "distinct (map fst (ps_metrics s)) \<and> (\<forall>(x, n)\<in>set (ps_metrics s). series_ok x \<and> 0 < n)
    \<and> total_of metric_issued (ps_metrics s) = int (tally (handed_out p) past)"
  using service_counted [OF assms] unfolding metrics_ok_def by blast

section \<open>A service that has answered one request\<close>

definition toy_past :: served where
  "toy_past = [(toy_post, \<lambda>_. 5 * hour, fst (portal_handler toy_portal toy_files toy_post (\<lambda>_. 5 * hour) toy_service_state))]"

lemma toy_past_service:
  "service toy_portal toy_files toy_past (snd (portal_handler toy_portal toy_files toy_post (\<lambda>_. 5 * hour) toy_service_state))"
  unfolding toy_past_def toy_service_state_def
  using service.request [OF service.start] by (metis toy_portal_simps(2))

lemma toy_past_handed:
  "tally (handed_out toy_portal) toy_past = 1"
  "tally (\<lambda>q. handed_out toy_portal q \<and> asked_by toy_portal ''ann'' q) toy_past = 1"
  using toy_post_served [of toy_files] toy_post_dispatch
  by (auto simp: toy_past_def handed_out_def asked_by_def asks_to_issue_def caller_def toy_post_identify)

theorem service_rate_bound_witness:
  "tally (\<lambda>q. handed_out toy_portal q \<and> asked_by toy_portal ''ann'' q) toy_past = 1
   \<and> (1 :: rat) \<le> 20 + of_int (hour - 0) / of_int hour * 20 * (1 + eps) ^ 6
       + of_nat (tally (asked_by toy_portal ''ann'') toy_past) * 20 * (2 * eps)"
proof -
  have "timely (4 * hour) toy_past (5 * hour)" by (simp add: toy_past_def)
  from service_rate_bound [OF toy_past_service _ _ _ this, of 20 "''ann''"] toy_past_handed(2)
  show ?thesis by (simp add: toy_limit)
qed

theorem service_counters_witness:
  "\<exists>s. service toy_portal toy_files toy_past s \<and> distinct (map fst (ps_metrics s))
     \<and> total_of metric_issued (ps_metrics s) = 1"
  using service_counters [OF toy_past_service] toy_past_service toy_past_handed(1) by fastforce

end
