(* ===== verification/Command_Line.thy ===== *)
theory Command_Line
  imports Config Ssh_Ca Pki "HOL-Library.Sublist"
begin

text \<open>
  The command line: \<^verbatim>\<open>flag.FlagSet.Parse\<close> as the program uses it, and the two subcommands,
  \<^verbatim>\<open>cmd/gruff/signhost.go\<close> and \<^verbatim>\<open>cmd/gruff/signserver.go\<close>. A command's output is what it writes to
  standard cmd_output and what it notes on standard error.
\<close>

section \<open>Flags\<close>

record flag_set =
  fs_strings :: "string list"
  fs_bools :: "string list"

datatype flag_error =
    BadFlagSyntax string
  | FlagNotDefined string
  | HelpRequested
  | BadBoolean string string
  | FlagNeedsArgument string

text \<open>\<^verbatim>\<open>strconv.ParseBool\<close>\<close>

definition parse_bool :: "string \<Rightarrow> bool option" where
  "parse_bool s =
     (if slice_contains [''1'', ''t'', ''T'', ''true'', ''TRUE'', ''True''] s then Some True
      else if slice_contains [''0'', ''f'', ''F'', ''false'', ''FALSE'', ''False''] s then Some False
      else None)"

text \<open>A name and, after the first equals sign past its first byte, a value.\<close>

definition split_equals :: "string \<Rightarrow> string \<times> string option" where
  "split_equals name =
     (let rest = dropWhile (\<lambda>c. c \<noteq> CHR ''='') (tl name) in
      if rest = [] then (name, None) else (hd name # takeWhile (\<lambda>c. c \<noteq> CHR ''='') (tl name), Some (tl rest)))"

definition flag_prefix :: "string \<Rightarrow> string" where
  "flag_prefix s = (if has_prefix s ''--'' then drop 2 s else tl s)"

text \<open>The values set, the last first, and the arguments left after the flags.\<close>

fun parse_flags ::
  "flag_set \<Rightarrow> string list \<Rightarrow> (string \<times> string) list \<Rightarrow> flag_error + (string \<times> string) list \<times> string list" where
  "parse_flags fs [] vals = Inr (vals, [])"
| "parse_flags fs (s # args) vals =
     (if length s < 2 \<or> hd s \<noteq> CHR ''-'' then Inr (vals, s # args)
      else if s = ''--'' then Inr (vals, args)
      else if flag_prefix s = [] \<or> hd (flag_prefix s) = CHR ''-'' \<or> hd (flag_prefix s) = CHR ''=''
        then Inl (BadFlagSyntax s)
      else case split_equals (flag_prefix s) of (name, value) \<Rightarrow>
        if slice_contains (fs_bools fs) name then
          (case value of
             None \<Rightarrow> parse_flags fs args ((name, ''true'') # vals)
           | Some v \<Rightarrow>
               (case parse_bool v of
                  None \<Rightarrow> Inl (BadBoolean v name)
                | Some b \<Rightarrow> parse_flags fs args ((name, if b then ''true'' else ''false'') # vals)))
        else if slice_contains (fs_strings fs) name then
          (case value of
             Some v \<Rightarrow> parse_flags fs args ((name, v) # vals)
           | None \<Rightarrow>
               (case args of
                  [] \<Rightarrow> Inl (FlagNeedsArgument name)
                | v # args' \<Rightarrow> parse_flags fs args' ((name, v) # vals)))
        else if name = ''help'' \<or> name = ''h'' then Inl HelpRequested
        else Inl (FlagNotDefined name))"

definition flag_value :: "(string \<times> string) list \<Rightarrow> string \<Rightarrow> string \<Rightarrow> string" where
  "flag_value vals name otherwise = (case map_of vals name of None \<Rightarrow> otherwise | Some v \<Rightarrow> v)"

section \<open>The subcommands\<close>

record cmd_output =
  out_stdout :: string
  out_stderr :: string

datatype command_error =
    FlagProblem flag_error
  | NoHostnamesGiven
  | NoCommonNameGiven
  | NoOutDirGiven
  | ConfigProblem load_error
  | NoSshCaConfigured
  | NoCaConfigured
  | SshProblem ssh_error
  | PkiProblem pki_error
  | CannotReadStdin
  | CannotReadHostKey string
  | CannotMakeOutDir string
  | CannotWriteOut string

definition default_config_path :: string where "default_config_path = ''configs/conf.yaml''"

definition split_list :: "string \<Rightarrow> string list" where
  "split_list s = filter (\<lambda>v. v \<noteq> []) (map trim_space (split_on (CHR '','') s))"

definition sign_host_flags :: flag_set where
  "sign_host_flags = \<lparr>fs_strings = [''config'', ''key'', ''hostnames''], fs_bools = []\<rparr>"

definition sign_server_flags :: flag_set where
  "sign_server_flags = \<lparr>fs_strings = [''config'', ''cn'', ''hosts'', ''out''], fs_bools = []\<rparr>"

text \<open>What both need from outside: the files, the YAML decoder, the cryptography.\<close>

record command_env =
  ce_env :: go_env
  ce_decode :: "string \<Rightarrow> config option"
  ce_ssh :: ssh_env
  ce_pki :: pki_env
  ce_stdin :: "string option"

definition read_key :: "command_env \<Rightarrow> string \<Rightarrow> command_error + string" where
  "read_key E path =
     (if path = ''-'' then (case ce_stdin E of None \<Rightarrow> Inl CannotReadStdin | Some b \<Rightarrow> Inr b)
      else (case read_file (ce_env E) path of None \<Rightarrow> Inl (CannotReadHostKey path) | Some b \<Rightarrow> Inr b))"

definition load_ssh_authority :: "command_env \<Rightarrow> string \<Rightarrow> command_error + ssh_ca" where
  "load_ssh_authority E config_path =
     and_then (wrap_error ConfigProblem (config_load (ce_env E) (ce_decode E) config_path)) (\<lambda>cfg.
     if c_ssh_ca_private_file cfg = [] then Inl NoSshCaConfigured
     else wrap_error SshProblem (ssh_load (ce_env E) (ce_ssh E) (c_ssh_ca_private_file cfg)))"

definition sign_host_command ::
  "command_env \<Rightarrow> string list \<Rightarrow> instant \<Rightarrow> string \<Rightarrow> command_error + cmd_output" where
  "sign_host_command E args now rng =
     and_then (wrap_error FlagProblem (parse_flags sign_host_flags args [])) (\<lambda>(vals, _).
     let principals = split_list (flag_value vals ''hostnames'' []) in
     if principals = [] then Inl NoHostnamesGiven
     else
       and_then (load_ssh_authority E (flag_value vals ''config'' default_config_path)) (\<lambda>ca.
       and_then (read_key E (flag_value vals ''key'' ''-'')) (\<lambda>pub.
       and_then (wrap_error SshProblem (sign_host (ce_ssh E) ca pub principals now rng)) (\<lambda>(creds, _).
       Inr \<lparr>out_stdout = hc_certificate creds @ [CHR 0x0A],
            out_stderr = ''signed '' @ join '', '' (hc_principals creds) @ '', expires ''
              @ rfc3339 (hc_not_after creds) @ [CHR 0x0A]\<rparr>))))"

definition load_authority :: "command_env \<Rightarrow> string \<Rightarrow> instant \<Rightarrow> command_error + pki_ca" where
  "load_authority E config_path now =
     and_then (wrap_error ConfigProblem (config_load (ce_env E) (ce_decode E) config_path)) (\<lambda>cfg.
     if c_ca_certificate_file cfg = [] then Inl NoCaConfigured
     else wrap_error PkiProblem
            (pki_load (ce_env E) (ce_pki E) (c_ca_private_file cfg) (c_ca_certificate_file cfg) now))"

definition write_server_files ::
  "string \<Rightarrow> pki_credentials \<Rightarrow> world \<Rightarrow> (command_error + cmd_output) \<times> world" where
  "write_server_files dir creds w =
     (let cert_path = path_join dir ''cert.pem''; key_path = path_join dir ''key.pem'' in
      case sys_mkdir_all dir w of
        (False, w) \<Rightarrow> (Inl (CannotMakeOutDir dir), w)
      | (True, w) \<Rightarrow>
      (case sys_write_file cert_path (pr_certificate creds) 0x1A4 w of
         (False, w) \<Rightarrow> (Inl (CannotWriteOut cert_path), w)
       | (True, w) \<Rightarrow>
      (case sys_write_file key_path (pr_private_key creds) 0x180 w of
         (False, w) \<Rightarrow> (Inl (CannotWriteOut key_path), w)
       | (True, w) \<Rightarrow>
           (Inr \<lparr>out_stdout = [],
                 out_stderr = ''wrote '' @ cert_path @ '' and '' @ key_path @ '', expires ''
                   @ rfc3339 (pr_not_after creds) @ [CHR 0x0A]\<rparr>, w))))"

text \<open>The clock is read when the authority is loaded and when the certificate is made.\<close>

definition sign_server_command ::
  "command_env \<Rightarrow> string list \<Rightarrow> (nat \<Rightarrow> instant) \<Rightarrow> string \<Rightarrow> world \<Rightarrow> (command_error + cmd_output) \<times> world" where
  "sign_server_command E args clk rng w =
     (case wrap_error FlagProblem (parse_flags sign_server_flags args []) of
        Inl e \<Rightarrow> (Inl e, w)
      | Inr (vals, _) \<Rightarrow>
          (let common_name = flag_value vals ''cn'' []; out_dir = flag_value vals ''out'' [] in
           if common_name = [] then (Inl NoCommonNameGiven, w)
           else if out_dir = [] then (Inl NoOutDirGiven, w)
           else case load_authority E (flag_value vals ''config'' default_config_path) (clk 0) of
             Inl e \<Rightarrow> (Inl e, w)
           | Inr ca \<Rightarrow>
          (case issue_server (ce_pki E) ca common_name (split_list (flag_value vals ''hosts'' [])) (clk 1) rng of
             Inl e \<Rightarrow> (Inl (PkiProblem e), w)
           | Inr (creds, _) \<Rightarrow> write_server_files out_dir creds w)))"

section \<open>Properties\<close>

text \<open>What a run of the parser from one point of a command line to another has done.\<close>

definition consumed ::
  "flag_set \<Rightarrow> string list \<Rightarrow> (string \<times> string) list \<Rightarrow> (string \<times> string) list \<Rightarrow> string list \<Rightarrow> bool" where
  "consumed fs args vals vals' rest \<longleftrightarrow> suffix rest args \<and> (\<exists>new. vals' = new @ vals
     \<and> length new \<le> length args - length rest
     \<and> fst ` set new \<subseteq> set (fs_strings fs) \<union> set (fs_bools fs)
     \<and> (\<forall>(n, v)\<in>set new. n \<in> set (fs_bools fs) \<longrightarrow> v \<in> {''true'', ''false''}))"

lemma consumed_stop: "suffix rest args \<Longrightarrow> consumed fs args vals vals rest"
  by (auto simp: consumed_def)

lemma consumed_flag:
  assumes "consumed fs args ((n, v) # vals) vals' rest" "suffix args args'" "length args < length args'"
    and "n \<in> set (fs_strings fs) \<union> set (fs_bools fs)" "n \<in> set (fs_bools fs) \<longrightarrow> v \<in> {''true'', ''false''}"
  shows "consumed fs args' vals vals' rest"
proof -
  obtain new where new: "vals' = new @ (n, v) # vals" "length new \<le> length args - length rest"
    "fst ` set new \<subseteq> set (fs_strings fs) \<union> set (fs_bools fs)"
    "\<forall>(n, v)\<in>set new. n \<in> set (fs_bools fs) \<longrightarrow> v \<in> {''true'', ''false''}" and rest: "suffix rest args"
    using assms(1) unfolding consumed_def by blast
  have "length rest \<le> length args" using rest by (rule suffix_length_le)
  then have "length (new @ [(n, v)]) \<le> length args' - length rest" using new(2) assms(3) by simp
  then show ?thesis
    using new assms(4,5) suffix_order.trans [OF rest assms(2)] unfolding consumed_def
    by (intro conjI exI [of _ "new @ [(n, v)]"]) auto
qed

lemma parse_flags_consumed:
  "parse_flags fs args vals = Inr (vals', rest) \<Longrightarrow> consumed fs args vals vals' rest"
proof (induction fs args vals rule: parse_flags.induct)
  case (1 fs vals)
  then show ?case by (simp add: consumed_stop)
next
  case (2 fs s args vals)
  obtain name v where split: "split_equals (flag_prefix s) = (name, v)" by fastforce
  consider (stop) "vals' = vals" "rest = s # args" | (dashes) "vals' = vals" "rest = args"
    | (flag) "\<not> (length s < 2 \<or> hd s \<noteq> CHR ''-'')" "s \<noteq> ''--''"
      "\<not> (flag_prefix s = [] \<or> hd (flag_prefix s) = CHR ''-'' \<or> hd (flag_prefix s) = CHR ''='')"
    using "2.prems" by (auto split: if_splits)
  then show ?case
  proof cases
    case flag
    note r = "2.prems" [unfolded parse_flags.simps if_not_P [OF flag(1)] if_not_P [OF flag(2)] if_not_P [OF flag(3)]
        split prod.case]
    note IH = "2.IH" [OF flag split [symmetric]]
    show ?thesis
    proof (cases "slice_contains (fs_bools fs) name")
      case bool: True
      show ?thesis
      proof (cases v)
        case None
        then have p: "parse_flags fs args ((name, ''true'') # vals) = Inr (vals', rest)" using r bool by simp
        from consumed_flag [OF IH(1) [OF bool None p]] bool show ?thesis by (simp add: suffix_Cons)
      next
        case (Some x)
        then obtain b where b: "parse_bool x = Some b" using r bool by (auto split: option.splits)
        then have p: "parse_flags fs args ((name, if b then ''true'' else ''false'') # vals) = Inr (vals', rest)"
          using r bool Some by simp
        from consumed_flag [OF IH(2) [OF bool Some b p]] bool show ?thesis by (simp add: suffix_Cons)
      qed
    next
      case plain: False
      then have string: "slice_contains (fs_strings fs) name" using r by (auto split: if_splits)
      show ?thesis
      proof (cases v)
        case (Some x)
        then have p: "parse_flags fs args ((name, x) # vals) = Inr (vals', rest)" using r plain string by simp
        from consumed_flag [OF IH(4) [OF plain string Some p]] plain string show ?thesis by (simp add: suffix_Cons)
      next
        case None
        then obtain x args' where a: "args = x # args'" using r plain string by (auto split: list.splits)
        then have p: "parse_flags fs args' ((name, x) # vals) = Inr (vals', rest)" using r plain string None by simp
        from consumed_flag [OF IH(3) [OF plain string None a p]] plain string show ?thesis by (simp add: a suffix_Cons)
      qed
    qed
  qed (simp_all add: consumed_stop suffix_Cons)
qed



end
