(* ===== verification/Openvpn.thy ===== *)
theory Openvpn
  imports Config_Profile Atomic_File Path_Laws
begin

text \<open>
  \<^verbatim>\<open>internal/openvpn/\<close>: the client-config-dir and firewall files written for every VPN profile, and
  the client-connect hook. A rendering callback is the list of the writes it makes; generated text
  is the bytes of the file.
\<close>

section \<open>Text\<close>

abbreviation nl :: string where "nl \<equiv> [CHR 0x0A]"
abbreviation tab :: string where "tab \<equiv> [CHR 0x09]"
abbreviation dquote :: string where "dquote \<equiv> [CHR 0x22]"

definition ovpn_file_mode :: nat where "ovpn_file_mode = 0x1A0"
definition ovpn_exec_mode :: nat where "ovpn_exec_mode = 0x1E8"

text \<open>\<open>0x1A0\<close> and \<open>0x1E8\<close> are the octal 640 and 750.\<close>

section \<open>Rendering\<close>

definition route_line :: "network \<Rightarrow> string" where
  "route_line n =
     ''push '' @ dquote @ ''route '' @ network_addr n @ '' '' @ netmask n @ dquote @ nl"

definition write_routes :: "profile \<Rightarrow> string list" where
  "write_routes p = map route_line (p_routes p)"

definition rules_header :: string where
  "rules_header =
     ''#!/usr/bin/env bash'' @ nl @
     ''set -euo pipefail'' @ nl @ nl @
     ''if [[ -z '' @ dquote @ ''${CHAIN_NAME:-}'' @ dquote @ '' ]]; then'' @ nl @
     tab @ ''echo '' @ dquote @ ''CHAIN_NAME is not set'' @ dquote @ '' >&2'' @ nl @
     tab @ ''exit 1'' @ nl @
     ''fi'' @ nl @ nl"

definition rule_line :: "rule \<Rightarrow> string" where
  "rule_line r =
     ''iptables -A '' @ dquote @ ''${CHAIN_NAME}'' @ dquote
     @ (if r_protocol r \<noteq> [] then '' -p '' @ r_protocol r else [])
     @ '' --destination '' @ network_string (r_destination r)
     @ (if r_port r \<noteq> 0 then '' --dport '' @ dec_int (r_port r) else [])
     @ '' -j '' @ r_action r @ nl"

definition write_rules :: "profile \<Rightarrow> string list" where
  "write_rules p = [rules_header @ concat (map rule_line (p_rules p))]"

definition connect_head :: string where
  "connect_head =
     ''#!/bin/sh'' @ nl @
     ''#'' @ nl @
     ''# Written by Gruff. OpenVPN runs this per connection and reads the'' @ nl @
     ''# directives this script writes to $1.'' @ nl @
     ''#'' @ nl @
     ''# The profile comes from the certificate'' @ [CHR 0x27] @ ''s OU, which only Gruff can set;'' @ nl @
     ''# an unrecognised one exits non-zero, which refuses the connection.'' @ nl @
     nl @
     ''set -eu'' @ nl @ nl @
     ''CONFIG='' @ dquote @ ''$1'' @ dquote @ nl @
     ''DIR=$(dirname '' @ dquote @ ''$0'' @ dquote @ '')/..'' @ nl @
     ''PROFILE='' @ dquote @ ''${X509_0_OU:-}'' @ dquote @ nl @ nl @
     ''if [ -z '' @ dquote @ ''$PROFILE'' @ dquote @ '' ]; then'' @ nl @
     tab @ ''echo '' @ dquote @ ''gruff: certificate carries no profile'' @ dquote @ '' >&2'' @ nl @
     tab @ ''exit 1'' @ nl @
     ''fi'' @ nl @ nl @
     ''case '' @ dquote @ ''$PROFILE'' @ dquote @ '' in'' @ nl"

definition connect_case :: "string list \<Rightarrow> string" where
  "connect_case profiles =
     (if profiles = [] then
        tab @ ''*) echo '' @ dquote @ ''gruff: no profiles configured'' @ dquote @ '' >&2; exit 1 ;;'' @ nl
      else
        tab @ join ''|'' profiles @ '') ;;'' @ nl @
        tab @ ''*) echo '' @ dquote @ ''gruff: unknown profile $PROFILE'' @ dquote @ '' >&2; exit 1 ;;'' @ nl)"

definition connect_tail :: string where
  "connect_tail =
     ''esac'' @ nl @ nl @
     ''ROUTES='' @ dquote @ ''$DIR/$PROFILE'' @ dquote @ nl @
     ''if [ ! -f '' @ dquote @ ''$ROUTES'' @ dquote @ '' ]; then'' @ nl @
     tab @ ''echo '' @ dquote @ ''gruff: no routes for $PROFILE'' @ dquote @ '' >&2'' @ nl @
     tab @ ''exit 1'' @ nl @
     ''fi'' @ nl @ nl @
     ''cat '' @ dquote @ ''$ROUTES'' @ dquote @ '' > '' @ dquote @ ''$CONFIG'' @ dquote @ nl"

definition write_connect_script :: "string list \<Rightarrow> string list" where
  "write_connect_script profiles = [connect_head @ connect_case profiles @ connect_tail]"

section \<open>Writing\<close>

datatype openvpn_error =
    CannotMakeDir string
  | EscapesDir string string
  | CannotWrite write_error

definition safe_join :: "string \<Rightarrow> string \<Rightarrow> openvpn_error + string" where
  "safe_join dir name =
     (if name = [] \<or> name = ''.'' \<or> name = ''..'' \<or> contains_char name slash
      then Inl (EscapesDir name dir)
      else Inr (path_join dir name))"

definition write_file_mode ::
  "string \<Rightarrow> string list \<Rightarrow> nat \<Rightarrow> world \<Rightarrow> (openvpn_error + unit) \<times> world" where
  "write_file_mode path render mode w =
     (case atomic_write path mode render w of (r, w) \<Rightarrow> (wrap_error CannotWrite r, w))"

definition write_profile ::
  "string \<Rightarrow> string \<Rightarrow> profile \<Rightarrow> world \<Rightarrow> (openvpn_error + unit) \<times> world" where
  "write_profile dir rules_dir p w =
     (case safe_join dir (p_name p) of
        Inl e \<Rightarrow> (Inl e, w)
      | Inr ccd_path \<Rightarrow>
     (case safe_join rules_dir (p_name p) of
        Inl e \<Rightarrow> (Inl e, w)
      | Inr rules_path \<Rightarrow>
     (case write_file_mode ccd_path (write_routes p) ovpn_file_mode w of
        (Inl e, w) \<Rightarrow> (Inl e, w)
      | (Inr _, w) \<Rightarrow> write_file_mode rules_path (write_rules p) ovpn_file_mode w)))"

fun write_profiles ::
  "string \<Rightarrow> string \<Rightarrow> profile list \<Rightarrow> world \<Rightarrow> (openvpn_error + unit) \<times> world" where
  "write_profiles dir rules_dir [] w = (Inr (), w)"
| "write_profiles dir rules_dir (p # ps) w =
     (case write_profile dir rules_dir p w of
        (Inl e, w) \<Rightarrow> (Inl e, w)
      | (Inr _, w) \<Rightarrow> write_profiles dir rules_dir ps w)"

definition openvpn_write :: "string \<Rightarrow> profile list \<Rightarrow> world \<Rightarrow> (openvpn_error + unit) \<times> world" where
  "openvpn_write dir profiles w =
     (let rules_dir = path_join dir ''rules'' in
      case sys_mkdir_all rules_dir w of
        (False, w) \<Rightarrow> (Inl (CannotMakeDir rules_dir), w)
      | (True, w) \<Rightarrow>
          (case write_profiles dir rules_dir profiles w of
             (Inl e, w) \<Rightarrow> (Inl e, w)
           | (Inr _, w) \<Rightarrow>
               write_file_mode (path_join rules_dir ''connect.sh'')
                 (write_connect_script (map p_name profiles)) ovpn_exec_mode w))"

section \<open>Containment\<close>

lemma safe_join_iff: "safe_join dir name = Inr p \<longleftrightarrow> ordinary name \<and> p = path_join dir name"
  by (auto simp: safe_join_def ordinary_def)

lemma profile_name_ordinary: "profile_name_matches s \<Longrightarrow> ordinary s"
  using profile_name_chars [of s slash]
  by (auto simp: ordinary_def profile_name_matches_def name_char_def is_lower_def is_upper_def
      is_digit_def)

text \<open>
  C14. A profile name accepted by \<^verbatim>\<open>safeJoin\<close> names an entry of exactly that directory: the path it
  returns lies directly in the directory and its last element is the name, unchanged; and every
  name that validation lets through is accepted.
\<close>

theorem safe_join_contained:
  assumes "dir \<noteq> []"
  shows "(safe_join dir name = Inr p \<longrightarrow> path_dir p = path_clean dir \<and> path_base p = name)
    \<and> (profile_name_matches name \<longrightarrow> safe_join dir name = Inr (path_join dir name))"
  using assms by (auto simp: safe_join_iff dest: profile_name_ordinary)

theorem safe_join_contained_witness:
  "safe_join ''/etc/vpn/../openvpn/'' ''staff'' = Inr ''/etc/openvpn/staff''
   \<and> path_dir ''/etc/openvpn/staff'' = path_clean ''/etc/vpn/../openvpn/''
   \<and> path_base ''/etc/openvpn/staff'' = ''staff''
   \<and> path_join ''/etc/vpn/../openvpn/'' ''staff'' = ''/etc/openvpn/staff''
   \<and> safe_join ''/etc'' ''..'' = Inl (EscapesDir ''..'' ''/etc'')"
proof -
  have "safe_join ''/etc/vpn/../openvpn/'' ''staff'' = Inr ''/etc/openvpn/staff''"
    "safe_join ''/etc'' ''..'' = Inl (EscapesDir ''..'' ''/etc'')"
    "profile_name_matches ''staff''" by code_simp+
  then show ?thesis
    using safe_join_contained [of "''/etc/vpn/../openvpn/''" "''staff''" "''/etc/openvpn/staff''"]
    by simp
qed

section \<open>What the scripts say\<close>

text \<open>The words of a rule's command, and how a reader recovers the rule from them.\<close>

definition rule_words :: "rule \<Rightarrow> string list" where
  "rule_words r =
     [''iptables'', ''-A'', dquote @ ''${CHAIN_NAME}'' @ dquote]
     @ (if r_protocol r \<noteq> [] then [''-p'', r_protocol r] else [])
     @ [''--destination'', network_string (r_destination r)]
     @ (if r_port r \<noteq> 0 then [''--dport'', dec_int (r_port r)] else [])
     @ [''-j'', r_action r]"

definition option_word :: "string \<Rightarrow> string list \<Rightarrow> string option \<times> string list" where
  "option_word flag ws =
     (case ws of
        x # v # rest \<Rightarrow> if x = flag then (Some v, rest) else (None, ws)
      | _ \<Rightarrow> (None, ws))"

definition read_rule :: "string list \<Rightarrow> rule option" where
  "read_rule ws =
     (case option_word ''-p'' (drop 3 ws) of (proto, ws) \<Rightarrow>
      (case option_word ''--destination'' ws of (dest, ws) \<Rightarrow>
      (case option_word ''--dport'' ws of (port, ws) \<Rightarrow>
      (case option_word ''-j'' ws of (act, ws) \<Rightarrow>
         (case (dest, port, act) of
            (Some d, k, Some a) \<Rightarrow>
              (case (parse_network d, case k of None \<Rightarrow> Some 0 | Some k \<Rightarrow> parse_big k) of
                 (Inr n, Some k) \<Rightarrow>
                   Some \<lparr>r_destination = n, r_port = k,
                         r_protocol = (case proto of None \<Rightarrow> [] | Some x \<Rightarrow> x), r_action = a\<rparr>
               | _ \<Rightarrow> None)
          | _ \<Rightarrow> None)))))"

lemma rule_line_words: "rule_line r = join '' '' (rule_words r) @ nl"
  by (simp add: rule_line_def rule_words_def)

definition text_char :: "char \<Rightarrow> bool" where
  "text_char c = (32 < byte c)"

lemma digit_text: "is_digit c \<Longrightarrow> text_char c"
  by (simp add: is_digit_def text_char_def)

lemma dec_nat_text: "c \<in> set (dec_nat n) \<Longrightarrow> text_char c"
  by (blast intro: digit_text dec_nat_chars)

lemma v4_string_text: "c \<in> set (v4_string w) \<Longrightarrow> text_char c"
  by (auto simp: v4_string_def dotted_def dec_nat_text) (simp_all add: text_char_def)

lemma network_text: "network_ok n \<Longrightarrow> c \<in> set (network_string n) \<Longrightarrow> text_char c"
  by (cases n) (auto simp: network_ok_def v4_string_text dec_nat_text, simp add: text_char_def)

definition fixed_words :: "string list" where
  "fixed_words =
     [''iptables'', ''-A'', dquote @ ''${CHAIN_NAME}'' @ dquote, ''-p'', ''--destination'', ''--dport'', ''-j'']
     @ valid_actions @ valid_protocols"

lemma fixed_words_text: "\<forall>w\<in>set fixed_words. \<forall>c\<in>set w. text_char c"
proof -
  have "list_all (list_all text_char) fixed_words" by code_simp
  then show ?thesis by (simp add: list_all_iff)
qed

lemma rule_words_cases:
  assumes "rule_ok r" "w \<in> set (rule_words r)"
  shows "w \<in> set fixed_words \<or> w = network_string (r_destination r) \<or> w = dec_int (r_port r)"
proof -
  have "r_action r \<in> set fixed_words" "r_protocol r \<noteq> [] \<Longrightarrow> r_protocol r \<in> set fixed_words"
    using assms(1) by (auto simp: rule_ok_def fixed_words_def)
  moreover have "{''iptables'', ''-A'', dquote @ ''${CHAIN_NAME}'' @ dquote, ''-p'', ''--destination'',
      ''--dport'', ''-j''} \<subseteq> set fixed_words"
    unfolding fixed_words_def by (simp only: set_append list.set) blast
  ultimately show ?thesis
    using assms(2) unfolding rule_words_def by (auto simp only: set_append list.set split: if_splits)
qed

lemma rule_words_text:
  assumes "rule_ok r" "network_ok (r_destination r)" "w \<in> set (rule_words r)" "c \<in> set w"
  shows "text_char c"
proof -
  have "text_char c" if "c \<in> set (dec_int (r_port r))"
    using that assms(1) by (auto simp: dec_int_def rule_ok_def dec_nat_text)
  then show ?thesis
    using rule_words_cases [OF assms(1,3)] assms(2,4) fixed_words_text network_text by blast
qed

lemma rule_words_blank_free:
  assumes "rule_ok r" "network_ok (r_destination r)"
  shows "\<forall>w\<in>set (rule_words r). CHR '' '' \<notin> set w" "CHR 0x0A \<notin> set (join '' '' (rule_words r))"
proof -
  have t: "\<not> text_char (CHR '' '')" "\<not> text_char (CHR 0x0A)" by (simp_all add: text_char_def)
  then show "\<forall>w\<in>set (rule_words r). CHR '' '' \<notin> set w" using rule_words_text [OF assms] by blast
  have "CHR 0x0A \<notin> set '' ''" by simp
  then show "CHR 0x0A \<notin> set (join '' '' (rule_words r))"
    using rule_words_text [OF assms] t(2) set_join_subset [of "'' ''" "rule_words r"] by blast
qed

lemma read_rule_words:
  assumes "rule_ok r" "network_ok (r_destination r)"
  shows "read_rule (rule_words r) = Some r"
proof -
  have "parse_network (network_string (r_destination r)) = Inr (r_destination r)"
    using assms(2) by (rule parse_network_string)
  moreover have "parse_big (dec_int (r_port r)) = Some (r_port r)"
    using assms(1) by (auto simp: dec_int_def rule_ok_def)
  ultimately show ?thesis
    by (cases r) (auto simp: read_rule_def rule_words_def option_word_def)
qed

lemma rules_header_ended: "has_suffix rules_header nl"
  by code_simp


definition example_profile :: profile where
  "example_profile =
     \<lparr>p_name = ''staff'', p_description = ''Office network'', p_duration = 8 * hour, p_roles = [''eng''],
      p_routes = [Network 0x0A000000 8],
      p_rules = [\<lparr>r_destination = Network 0x0A000000 8, r_port = 443, r_protocol = ''tcp'', r_action = ''ACCEPT''\<rparr>,
                 \<lparr>r_destination = Network 0 0, r_port = 0, r_protocol = [], r_action = ''DROP''\<rparr>]\<rparr>"

lemma example_profile_ok:
  "profile_ok example_profile" "\<forall>r\<in>set (p_rules example_profile). network_ok (r_destination r)"
proof -
  show "profile_ok example_profile" by code_simp
  have "list_all (\<lambda>r. network_ok (r_destination r)) (p_rules example_profile)" by code_simp
  then show "\<forall>r\<in>set (p_rules example_profile). network_ok (r_destination r)"
    by (simp only: list_all_iff)
qed


text \<open>The pushed netmask is the mask of the configured prefix length.\<close>

lemma netmask_is_mask: "k \<le> 32 \<Longrightarrow> netmask (Network w k) = v4_string (mask32 k)"
  by (simp add: dotted_cidr_mask)

section \<open>What is on disk afterwards\<close>

lemma write_file_mode_ok:
  "write_file_mode path body mode w = (Inr u, w') \<Longrightarrow>
   w_files w' = (w_files w)(path \<mapsto> finished body mode) \<and> w_dirs w' = w_dirs w"
  by (auto simp: write_file_mode_def dest: atomic_write_ok atomic_write_dirs split: prod.splits)

definition profile_files :: "string \<Rightarrow> string \<Rightarrow> profile \<Rightarrow> files \<Rightarrow> files" where
  "profile_files dir rules_dir p m =
     m(path_join dir (p_name p) \<mapsto> finished (write_routes p) ovpn_file_mode,
       path_join rules_dir (p_name p) \<mapsto> finished (write_rules p) ovpn_file_mode)"

lemma write_profile_ok:
  "write_profile dir rules_dir p w = (Inr u, w') \<Longrightarrow>
   w_files w' = profile_files dir rules_dir p (w_files w)"
  by (auto simp: write_profile_def profile_files_def safe_join_iff dest!: write_file_mode_ok
      split: sum.splits prod.splits)

lemma write_profiles_ok:
  "write_profiles dir rules_dir ps w = (Inr u, w') \<Longrightarrow>
   w_files w' = fold (profile_files dir rules_dir) ps (w_files w)"
proof (induction ps arbitrary: w)
  case (Cons p ps)
  obtain r w1 where "write_profile dir rules_dir p w = (r, w1)" by fastforce
  with Cons show ?case by (cases r) (auto dest: write_profile_ok)
qed simp

lemma mkdir_all_files: "sys_mkdir_all d w = (ok, w') \<Longrightarrow> w_files w' = w_files w"
  by (auto simp: sys_mkdir_all_def dest!: next_fault_frame split: prod.splits fault.splits if_splits)

lemma fold_profile_files:
  assumes "distinct (map p_name ps)" "\<forall>p\<in>set ps. ordinary (p_name p)" "dir \<noteq> []"
    and rd: "rules_dir = path_join dir ''rules''"
  shows "\<forall>p\<in>set ps.
      fold (profile_files dir rules_dir) ps m (path_join dir (p_name p))
        = Some (finished (write_routes p) ovpn_file_mode)
      \<and> fold (profile_files dir rules_dir) ps m (path_join rules_dir (p_name p))
        = Some (finished (write_rules p) ovpn_file_mode)"
    and "\<forall>q. (\<forall>p\<in>set ps. q \<noteq> path_join dir (p_name p) \<and> q \<noteq> path_join rules_dir (p_name p)) \<longrightarrow>
      fold (profile_files dir rules_dir) ps m q = m q"
proof -
  show frame: "\<forall>q. (\<forall>p\<in>set ps. q \<noteq> path_join dir (p_name p) \<and> q \<noteq> path_join rules_dir (p_name p)) \<longrightarrow>
      fold (profile_files dir rules_dir) ps m q = m q" for ps m
    by (induction ps arbitrary: m) (auto simp: profile_files_def)
  have rules: "ordinary ''rules''" by (simp add: ordinary_def)
  have rdne: "rules_dir \<noteq> []" "path_clean rules_dir = rules_dir" "rules_dir \<noteq> path_clean dir"
    using rules assms(3) path_join_longer unfolding rd by auto
  show "\<forall>p\<in>set ps.
      fold (profile_files dir rules_dir) ps m (path_join dir (p_name p))
        = Some (finished (write_routes p) ovpn_file_mode)
      \<and> fold (profile_files dir rules_dir) ps m (path_join rules_dir (p_name p))
        = Some (finished (write_rules p) ovpn_file_mode)"
    using assms(1,2)
  proof (induction ps arbitrary: m)
    case (Cons p ps)
    have "q \<noteq> path_join dir (p_name p') \<and> q \<noteq> path_join rules_dir (p_name p')"
      if "p' \<in> set ps" "q = path_join dir (p_name p) \<or> q = path_join rules_dir (p_name p)" for p' q
      using that Cons.prems rdne assms(3)
        path_join_inject [of "p_name p" "p_name p'" dir dir]
        path_join_inject [of "p_name p" "p_name p'" dir rules_dir]
        path_join_inject [of "p_name p" "p_name p'" rules_dir dir]
        path_join_inject [of "p_name p" "p_name p'" rules_dir rules_dir]
      by force
    moreover have "path_join dir (p_name p) \<noteq> path_join rules_dir (p_name p)"
      using path_join_inject [of "p_name p" "p_name p" dir rules_dir] Cons.prems rdne assms(3) by auto
    ultimately have "fold (profile_files dir rules_dir) ps (profile_files dir rules_dir p m) (path_join dir (p_name p))
          = Some (finished (write_routes p) ovpn_file_mode)"
        "fold (profile_files dir rules_dir) ps (profile_files dir rules_dir p m) (path_join rules_dir (p_name p))
          = Some (finished (write_rules p) ovpn_file_mode)"
      using frame [of ps "profile_files dir rules_dir p m"] by (simp_all add: profile_files_def)
    then show ?case using Cons by simp
  qed simp
qed

text \<open>
  C13. When \<^verbatim>\<open>Write\<close> returns without an error, every profile's routes and firewall script and the
  connect hook are on disk, complete, under the path the OpenVPN server looks them up by; no two
  of them share a path, and no other file changed.
\<close>

theorem openvpn_write_result:
  assumes "openvpn_write dir ps w = (Inr u, w')" "dir \<noteq> []"
    and "distinct (map p_name ps)" "\<forall>p\<in>set ps. profile_name_matches (p_name p)"
    and rd: "rules_dir = path_join dir ''rules''"
  shows "(\<forall>p\<in>set ps.
       w_files w' (path_join dir (p_name p)) = Some (finished (write_routes p) ovpn_file_mode)
     \<and> w_files w' (path_join rules_dir (p_name p)) = Some (finished (write_rules p) ovpn_file_mode))
   \<and> w_files w' (path_join rules_dir ''connect.sh'')
       = Some (finished (write_connect_script (map p_name ps)) ovpn_exec_mode)
   \<and> (\<forall>q. q \<notin> path_join dir ` p_name ` set ps \<union> path_join rules_dir ` (insert ''connect.sh'' (p_name ` set ps))
        \<longrightarrow> w_files w' q = w_files w q)"
proof -
  obtain w1 w2 where w: "sys_mkdir_all rules_dir w = (True, w1)"
      "write_profiles dir rules_dir ps w1 = (Inr (), w2)"
      "write_file_mode (path_join rules_dir ''connect.sh'') (write_connect_script (map p_name ps))
         ovpn_exec_mode w2 = (Inr u, w')"
    using assms(1) unfolding openvpn_write_def rd Let_def
    by (auto split: prod.splits bool.splits sum.splits)
  let ?c = "path_join rules_dir ''connect.sh''"
  have files: "w_files w' = (fold (profile_files dir rules_dir) ps (w_files w))
      (?c \<mapsto> finished (write_connect_script (map p_name ps)) ovpn_exec_mode)"
    using write_file_mode_ok [OF w(3)] write_profiles_ok [OF w(2)] mkdir_all_files [OF w(1)] by simp
  have names: "\<forall>p\<in>set ps. ordinary (p_name p) \<and> p_name p \<noteq> ''connect.sh''"
    using assms(4) profile_name_ordinary profile_name_chars [of "''connect.sh''" "CHR ''.''"]
    by (auto simp: name_char_def is_lower_def is_upper_def is_digit_def)
  have "ordinary ''connect.sh''" "ordinary ''rules''" by (simp_all add: ordinary_def)
  then have "path_join dir (p_name p) \<noteq> ?c \<and> path_join rules_dir (p_name p) \<noteq> ?c" if "p \<in> set ps" for p
    using that names assms(2) path_join_inject [of "p_name p" "''connect.sh''" dir rules_dir]
      path_join_inject [of "p_name p" "''connect.sh''" rules_dir rules_dir] unfolding rd
    by fastforce
  moreover note fold_profile_files(1) [OF assms(3) _ assms(2) rd, of "w_files w"]
  moreover have "fold (profile_files dir rules_dir) ps (w_files w) q = w_files w q"
    if "q \<notin> path_join dir ` p_name ` set ps" "q \<notin> path_join rules_dir ` p_name ` set ps" for q
    using that names by (intro fold_profile_files(2) [OF assms(3) _ assms(2) rd, rule_format]) auto
  ultimately show ?thesis using names unfolding files by auto
qed

definition vpn_world :: world where
  "vpn_world =
     \<lparr>w_files = Map.empty, w_dirs = [''/vpn''], w_durable = [], w_faults = [],
      w_names = [1, 1, 2], w_seen = []\<rparr>"

theorem openvpn_write_result_witness:
  "\<exists>w'. openvpn_write ''/vpn'' [example_profile] vpn_world = (Inr (), w')
      \<and> w_files w' ''/vpn/rules/staff'' = Some (finished (write_rules example_profile) ovpn_file_mode)
      \<and> w_files w' ''/vpn/staff'' = Some (finished (write_routes example_profile) ovpn_file_mode)"
proof -
  let ?r = "openvpn_write ''/vpn'' [example_profile] vpn_world"
  have "fst ?r = Inr ()" by code_simp
  then have w': "?r = (Inr (), snd ?r)" by (cases ?r) simp
  have paths: "path_join ''/vpn'' ''rules'' = ''/vpn/rules''" "path_join ''/vpn'' ''staff'' = ''/vpn/staff''"
    "path_join ''/vpn/rules'' ''staff'' = ''/vpn/rules/staff''" by code_simp+
  have name: "p_name example_profile = ''staff''" "profile_name_matches (p_name example_profile)"
    by code_simp+
  have "(\<forall>p\<in>set [example_profile].
       w_files (snd ?r) (path_join ''/vpn'' (p_name p)) = Some (finished (write_routes p) ovpn_file_mode)
     \<and> w_files (snd ?r) (path_join ''/vpn/rules'' (p_name p)) = Some (finished (write_rules p) ovpn_file_mode))"
    using openvpn_write_result [OF w' _ _ _ paths(1) [symmetric]] name(2) by simp
  then have "w_files (snd ?r) ''/vpn/rules/staff'' = Some (finished (write_rules example_profile) ovpn_file_mode)
      \<and> w_files (snd ?r) ''/vpn/staff'' = Some (finished (write_routes example_profile) ovpn_file_mode)"
    using paths name(1) by simp
  with w' show ?thesis by blast
qed

lemma write_file_mode_dirs: "write_file_mode p b m w = (r, w') \<Longrightarrow> w_dirs w' = w_dirs w"
  by (auto simp: write_file_mode_def dest: atomic_write_dirs split: prod.splits)

lemma write_profile_dirs: "write_profile d rd p w = (r, w') \<Longrightarrow> w_dirs w' = w_dirs w"
  by (auto simp: write_profile_def dest!: write_file_mode_dirs split: sum.splits prod.splits)

lemma write_profiles_rules_name:
  assumes "p \<in> set ps" "p_name p = ''rules''" "path_join dir ''rules'' \<in> set (w_dirs w)"
  shows "fst (write_profiles dir rd ps w) \<noteq> Inr u"
  using assms
proof (induction ps arbitrary: w)
  case (Cons q ps)
  obtain r w1 where w1: "write_profile dir rd q w = (r, w1)" by fastforce
  show ?case
  proof (cases r)
    case (Inr v)
    have "p \<noteq> q"
    proof
      assume "p = q"
      then obtain w2 where "write_file_mode (path_join dir ''rules'') (write_routes q) ovpn_file_mode w
          = (Inr (), w2)"
        using w1 Inr Cons.prems(2)
        by (auto simp: write_profile_def safe_join_iff split: sum.splits prod.splits)
      then show False
        using atomic_write_onto_dir [OF Cons.prems(3), of ovpn_file_mode "write_routes q" "()"]
        by (auto simp: write_file_mode_def split: prod.splits)
    qed
    then have "p \<in> set ps" using Cons.prems(1) by simp
    moreover have "path_join dir ''rules'' \<in> set (w_dirs w1)"
      using Cons.prems(3) write_profile_dirs [OF w1] by simp
    ultimately show ?thesis using Cons.IH [of w1] Cons.prems(2) w1 Inr by simp
  qed (use w1 in simp)
qed simp

lemma set_fold_insert: "set (fold List.insert xs ys) = set xs \<union> set ys"
  by (induction xs arbitrary: ys) auto

lemma path_prefixes_self: "d \<noteq> [] \<Longrightarrow> d \<in> set (path_prefixes d)"
  by (auto simp: path_prefixes_def Let_def join_split_on Suc_le_eq intro!: image_eqI [where x = "length (split_on slash d)"])



end
