(* ===== verification/Startup.thy ===== *)
theory Startup
  imports Command_Line Portal_Service Openvpn
begin

text \<open>
  \<^verbatim>\<open>cmd/gruff/main.go\<close>: what the program is asked to do, and the order in which the server is put
  together: configuration, authorities, OpenVPN files, authentication, portal, first publication.
  \<open>serve\<close> and the listeners are left out; the outcome of a start is the portal and its state as the
  first request finds them.
\<close>

section \<open>The authorities\<close>

datatype startup_error =
    BadConfig load_error
  | GenerateConflictsWithSshCa
  | NoSshCaFile
  | GenerateNeedsDir
  | SshCaError ssh_error
  | GenerateConflictsWithCa
  | NoCaFile
  | CaError pki_error
  | ConfigdirError openvpn_error
  | SessionCodecError session_error
  | OidcError oidc_error
  | TemplateError string
  | PublishError publish_error
  | BadLogLevel string
  | CommandError command_error
  | FlagExit flag_error

definition load_ca ::
  "command_env \<Rightarrow> config \<Rightarrow> bool \<Rightarrow> string \<Rightarrow> instant \<Rightarrow> string \<times> world
     \<Rightarrow> (startup_error + pki_ca option) \<times> string \<times> world" where
  "load_ca E cfg generate dir now rw =
     (if c_profiles cfg = [] then (Inr None, rw)
      else if c_ca_certificate_file cfg \<noteq> [] then
        (if generate then Inl GenerateConflictsWithCa
         else wrap_error CaError
           (and_then (pki_load (ce_env E) (ce_pki E) (c_ca_private_file cfg) (c_ca_certificate_file cfg) now)
              (\<lambda>ca. Inr (Some ca))), rw)
      else if \<not> generate then (Inl NoCaFile, rw)
      else if dir = [] then (Inl GenerateNeedsDir, rw)
      else
        case pki_generate (ce_pki E) (c_banner cfg) now (fst rw) of
          Inl e \<Rightarrow> (Inl (CaError e), rw)
        | Inr (ca, rng) \<Rightarrow>
            (case pki_write_to (ce_pki E) ca dir (snd rw) of
               (Inl e, w) \<Rightarrow> (Inl (CaError e), rng, w)
             | (Inr _, w) \<Rightarrow> (Inr (Some ca), rng, w)))"

definition load_ssh_ca ::
  "command_env \<Rightarrow> config \<Rightarrow> bool \<Rightarrow> string \<Rightarrow> string \<times> world
     \<Rightarrow> (startup_error + ssh_ca option) \<times> string \<times> world" where
  "load_ssh_ca E cfg generate dir rw =
     (if c_ssh_profiles cfg = [] then (Inr None, rw)
      else if c_ssh_ca_private_file cfg \<noteq> [] then
        (if generate then Inl GenerateConflictsWithSshCa
         else wrap_error SshCaError
           (and_then (ssh_load (ce_env E) (ce_ssh E) (c_ssh_ca_private_file cfg)) (\<lambda>ca. Inr (Some ca))), rw)
      else if \<not> generate then (Inl NoSshCaFile, rw)
      else if dir = [] then (Inl GenerateNeedsDir, rw)
      else
        case ssh_generate (ce_ssh E) (fst rw) of
          Inl e \<Rightarrow> (Inl (SshCaError e), rw)
        | Inr (ca, rng) \<Rightarrow>
            (case ssh_write_to (ce_ssh E) ca dir (snd rw) of
               (Inl e, w) \<Rightarrow> (Inl (SshCaError e), rng, w)
             | (Inr _, w) \<Rightarrow> (Inr (Some ca), rng, w)))"

section \<open>Authentication\<close>

text \<open>\<open>aes_gcm\<close> makes the cipher of a key, \<open>discover\<close> the provider of an issuer.\<close>

record server_env =
  sv_cmd :: command_env
  sv_aes_gcm :: "string \<Rightarrow> aead option"
  sv_discover :: "string \<Rightarrow> provider option"
  sv_lib :: portal_lib
  sv_level_ok :: "string \<Rightarrow> bool"
  sv_version :: string
  sv_commit :: string

definition setup_auth ::
  "server_env \<Rightarrow> config \<Rightarrow> startup_error + authenticator option \<times> codec option" where
  "setup_auth V cfg =
     (if a_mode (c_auth cfg) \<noteq> auth_oidc then Inr (None, None)
      else
        and_then (wrap_error SessionCodecError
            (new_codec (sv_aes_gcm V) (a_session_key (c_auth cfg)) (\<not> a_insecure_cookies (c_auth cfg)))) (\<lambda>codec.
        and_then (wrap_error OidcError
            (new_authenticator (ce_env (sv_cmd V)) (sv_discover V) (c_auth cfg) codec)) (\<lambda>auth.
        Inr (Some auth, Some codec))))"

section \<open>Starting the server\<close>

definition write_configdir :: "config \<Rightarrow> world \<Rightarrow> (startup_error + unit) \<times> world" where
  "write_configdir cfg w =
     (if \<not> c_configdir_enabled cfg then (Inr (), w)
      else case openvpn_write (c_configdir_path cfg) (c_profiles cfg) w of
        (res, w) \<Rightarrow> (wrap_error ConfigdirError res, w))"

text \<open>One set of files and one cryptography throughout.\<close>

definition lib_of :: "server_env \<Rightarrow> portal_lib" where
  "lib_of V = (sv_lib V)\<lparr>pl_env := ce_env (sv_cmd V), pl_pki := ce_pki (sv_cmd V), pl_ssh := ce_ssh (sv_cmd V)\<rparr>"

definition build_portal ::
  "server_env \<Rightarrow> config \<Rightarrow> pki_ca option \<Rightarrow> ssh_ca option \<Rightarrow> startup_error + store portal" where
  "build_portal V cfg ca ssh_ca =
     and_then (setup_auth V cfg) (\<lambda>(oidc, codec).
     wrap_error TemplateError (new_portal (lib_of V) cfg
       \<lparr>po_version = sv_version V, po_ca = ca, po_ssh_ca = ssh_ca, po_oidc = oidc, po_codec = codec\<rparr>))"

definition start_server ::
  "server_env \<Rightarrow> string \<Rightarrow> bool \<Rightarrow> string \<Rightarrow> (nat \<Rightarrow> instant) \<Rightarrow> string \<Rightarrow> world
     \<Rightarrow> (startup_error + store portal \<times> store portal_state) \<times> world" where
  "start_server V config_path generate dir clk rng w =
     (case wrap_error BadConfig (config_load (ce_env (sv_cmd V)) (ce_decode (sv_cmd V)) config_path) of
        Inl e \<Rightarrow> (Inl e, w)
      | Inr cfg \<Rightarrow>
     (case load_ca (sv_cmd V) cfg generate dir (clk 0) (rng, w) of
        (Inl e, _, w) \<Rightarrow> (Inl e, w)
      | (Inr ca, rng, w) \<Rightarrow>
     (case load_ssh_ca (sv_cmd V) cfg generate dir (rng, w) of
        (Inl e, _, w) \<Rightarrow> (Inl e, w)
      | (Inr ssh_ca, rng, w) \<Rightarrow>
     (case write_configdir cfg w of
        (Inl e, w) \<Rightarrow> (Inl e, w)
      | (Inr _, w) \<Rightarrow>
     (case build_portal V cfg ca ssh_ca of
        Inl e \<Rightarrow> (Inl e, w)
      | Inr p \<Rightarrow>
     (case publish_revocations p (\<lambda>n. clk (n + 1)) (new_portal_state cfg rng w) of
        (Inl e, s) \<Rightarrow> (Inl (PublishError e), ps_world s)
      | (Inr _, s) \<Rightarrow> (Inr (p, s), ps_world s)))))))"

section \<open>The program\<close>

datatype program =
    Printed string
  | Ran cmd_output
  | Serving "store portal" "store portal_state"

definition server_flags :: flag_set where
  "server_flags =
     \<lparr>fs_strings = [''config'', ''dev-ca-dir'', ''log-level''], fs_bools = [''dev-generate-ca'', ''version'']\<rparr>"

definition run_server ::
  "server_env \<Rightarrow> string list \<Rightarrow> (nat \<Rightarrow> instant) \<Rightarrow> string \<Rightarrow> world \<Rightarrow> (startup_error + program) \<times> world" where
  "run_server V args clk rng w =
     (case wrap_error FlagExit (parse_flags server_flags args []) of
        Inl e \<Rightarrow> (Inl e, w)
      | Inr (vals, _) \<Rightarrow>
          (let level = flag_value vals ''log-level'' ''info'' in
           if flag_value vals ''version'' ''false'' = ''true'' then
             (Inr (Printed (''gruff '' @ sv_version V @ '' ('' @ sv_commit V @ '')'' @ [CHR 0x0A])), w)
           else if \<not> sv_level_ok V level then (Inl (BadLogLevel level), w)
           else
             (case start_server V (flag_value vals ''config'' default_config_path)
                     (flag_value vals ''dev-generate-ca'' ''false'' = ''true'')
                     (flag_value vals ''dev-ca-dir'' []) clk rng w of
                (res, w) \<Rightarrow> (and_then res (\<lambda>(p, s). Inr (Serving p s)), w))))"

text \<open>The arguments are those after the program's name.\<close>

definition run_program ::
  "server_env \<Rightarrow> string list \<Rightarrow> (nat \<Rightarrow> instant) \<Rightarrow> string \<Rightarrow> world \<Rightarrow> (startup_error + program) \<times> world" where
  "run_program V args clk rng w =
     (case args of
        [] \<Rightarrow> run_server V args clk rng w
      | a # rest \<Rightarrow>
          if a = ''sign-host'' then
            (and_then (wrap_error CommandError (sign_host_command (sv_cmd V) rest (clk 0) rng)) (\<lambda>out. Inr (Ran out)), w)
          else if a = ''sign-server'' then
            (case sign_server_command (sv_cmd V) rest clk rng w of
               (res, w) \<Rightarrow> (and_then (wrap_error CommandError res) (\<lambda>out. Inr (Ran out)), w))
          else run_server V args clk rng w)"

section \<open>What a start has established\<close>

lemma load_ca_Inr:
  assumes "load_ca E cfg generate dir now rw = (Inr ca, rw')"
  shows "ca = None \<longleftrightarrow> c_profiles cfg = []"
  using assms by (auto simp: load_ca_def and_then_Inr_iff split: if_splits sum.splits prod.splits)

lemma load_ssh_ca_Inr:
  assumes "load_ssh_ca E cfg generate dir rw = (Inr ca, rw')"
  shows "ca = None \<longleftrightarrow> c_ssh_profiles cfg = []"
  using assms by (auto simp: load_ssh_ca_def and_then_Inr_iff split: if_splits sum.splits prod.splits)

lemma setup_auth_Inr:
  "setup_auth V cfg = Inr (oidc, codec) \<Longrightarrow> oidc = None \<longleftrightarrow> a_mode (c_auth cfg) \<noteq> auth_oidc"
  by (auto simp: setup_auth_def and_then_Inr_iff split: if_splits)

lemma build_portal_Inr:
  assumes "build_portal V cfg ca ssh_ca = Inr p"
  shows "pt_cfg p = cfg" "pt_ca p = ca" "pt_ssh_ca p = ssh_ca" "pt_store p = memory_api"
    "pt_oidc p = None \<longleftrightarrow> a_mode (c_auth cfg) \<noteq> auth_oidc"
  using assms setup_auth_Inr by (auto simp: build_portal_def new_portal_def and_then_Inr_iff)

lemma start_server_Inr:
  assumes "start_server V path generate dir clk rng w = (Inr (p, s), w')"
  obtains cfg ca ssh_ca rng1 w1 where
    "config_load (ce_env (sv_cmd V)) (ce_decode (sv_cmd V)) path = Inr cfg"
    "ca = None \<longleftrightarrow> c_profiles cfg = []" "ssh_ca = None \<longleftrightarrow> c_ssh_profiles cfg = []"
    "build_portal V cfg ca ssh_ca = Inr p"
    "publish_revocations p (\<lambda>n. clk (n + 1)) (new_portal_state cfg rng1 w1) = (Inr (), s)"
proof -
  obtain cfg where cfg: "config_load (ce_env (sv_cmd V)) (ce_decode (sv_cmd V)) path = Inr cfg"
    using assms by (auto simp: start_server_def split: sum.splits)
  obtain ca rng1 w1 where ca: "load_ca (sv_cmd V) cfg generate dir (clk 0) (rng, w) = (Inr ca, rng1, w1)"
    using assms cfg by (auto simp: start_server_def split: sum.splits prod.splits)
  obtain ssh_ca rng2 w2 where ssh: "load_ssh_ca (sv_cmd V) cfg generate dir (rng1, w1) = (Inr ssh_ca, rng2, w2)"
    using assms cfg ca by (auto simp: start_server_def split: sum.splits prod.splits)
  obtain w3 where w3: "write_configdir cfg w2 = (Inr (), w3)"
    using assms cfg ca ssh by (auto simp: start_server_def split: sum.splits prod.splits)
  obtain q where q: "build_portal V cfg ca ssh_ca = Inr q"
    using assms cfg ca ssh w3 by (auto simp: start_server_def split: sum.splits)
  have "q = p" "publish_revocations p (\<lambda>n. clk (n + 1)) (new_portal_state cfg rng2 w3) = (Inr (), s)"
    using assms cfg ca ssh w3 q by (auto simp: start_server_def split: sum.splits prod.splits)
  with that cfg load_ca_Inr [OF ca] load_ssh_ca_Inr [OF ssh] q show thesis by metis
qed

section \<open>No request meets a missing part\<close>

lemma render_status: "rs_status (render p v) \<noteq> 0"
  by (simp add: render_def internal_error_def split: option.split)

lemma issue_status:
  assumes "pt_ca p = None \<longleftrightarrow> c_profiles (pt_cfg p) = []"
  shows "rs_status (fst (handle_issue p r name clk s)) \<noteq> 0"
proof (cases "authorize p (identify p r (clk 0)) name s")
  case (Inl out)
  then show ?thesis using authorize_Inl [OF Inl] by (simp add: handle_issue_def Let_def)
next
  case (Inr q)
  then have "c_profiles (pt_cfg p) \<noteq> []" by (auto simp: authorize_Inr config_profile_def)
  then obtain ca where ca: "pt_ca p = Some ca" using assms by auto
  obtain x s1 where "rate_limited (id_username (identify p r (clk 0))) (clk 1) s = (x, s1)" by fastforce
  with Inr ca rate_limited_cases [OF this] show ?thesis
    by (auto simp: handle_issue_def Let_def vpn_response_def split: option.splits sum.splits)
qed

lemma ssh_issue_status: "rs_status (fst (handle_ssh_issue p r name clk s)) \<noteq> 0"
proof (cases "authorize_ssh p (identify p r (clk 0)) name s")
  case (Inl out)
  then show ?thesis using authorize_ssh_Inl [OF Inl] by (simp add: handle_ssh_issue_def Let_def)
next
  case (Inr q)
  obtain x s1 where "rate_limited (id_username (identify p r (clk 0))) (clk 1) s = (x, s1)" by fastforce
  with Inr rate_limited_cases [OF this] show ?thesis
    by (auto simp: handle_ssh_issue_def Let_def ssh_response_def split: option.splits sum.splits)
qed

lemma revoke_status: "rs_status (fst (handle_revoke p r serial clk s)) \<noteq> 0"
  by (auto simp: handle_revoke_def Let_def split: option.splits prod.splits bool.splits)

lemma page_status:
  "rs_status (fst (handle_profiles p r clk s)) \<noteq> 0" "rs_status (fst (handle_ssh_profiles p r clk s)) \<noteq> 0"
  "rs_status (fst (handle_setup p r clk s)) \<noteq> 0"
  by (simp_all add: handle_profiles_def handle_ssh_profiles_def handle_setup_def Let_def render_status)

lemma profile_status: "rs_status (fst (handle_profile p r name clk s)) \<noteq> 0"
proof (cases "authorize p (identify p r (clk 0)) name s")
  case (Inl out)
  then show ?thesis using authorize_Inl [OF Inl] by (simp add: handle_profile_def Let_def)
qed (simp add: handle_profile_def Let_def render_status)

lemma issued_status: "rs_status (fst (handle_issued p r clk s)) \<noteq> 0"
  by (auto simp: handle_issued_def Let_def render_status simp del: neq0_conv split: option.splits prod.splits)

lemma sign_in_status:
  "rs_status (fst (handle_login p a r now started s)) \<noteq> 0" "rs_status (fst (handle_callback p a r when s)) \<noteq> 0"
  "rs_status (handle_logout p a r) \<noteq> 0"
  by (auto simp: handle_login_def handle_callback_def handle_logout_def Let_def
      split: sum.splits prod.splits)

lemma plain_routes: "find_handler (routes False) r = Dispatch h ms \<Longrightarrow> h \<notin> {Login, Callback, Logout}"
  using dispatch_pattern [OF _ no_connect_routes] by (fastforce simp: routes_def get_def post_def)

lemma route_status:
  assumes "pt_ca p = None \<longleftrightarrow> c_profiles (pt_cfg p) = []" "\<And>u q. rs_status (files u q) \<noteq> 0"
    and "h \<in> {Login, Callback, Logout} \<Longrightarrow> pt_oidc p \<noteq> None"
  shows "rs_status (fst (serve_route p files h ms r clk s)) \<noteq> 0"
  using assms(2,3)
  by (cases h) (auto simp: serve_route_def issue_status [OF assms(1)] ssh_issue_status revoke_status page_status
      profile_status issued_status sign_in_status handle_health_def handle_static_def simp del: neq0_conv split: option.split)

lemma mux_status:
  assumes "pt_ca p = None \<longleftrightarrow> c_profiles (pt_cfg p) = []" "\<And>u q. rs_status (files u q) \<noteq> 0"
  shows "rs_status (fst (serve_mux p files r clk s)) \<noteq> 0"
proof (cases "find_handler (routes (pt_oidc p \<noteq> None)) r")
  case (Dispatch h ms)
  have "pt_oidc p \<noteq> None" if "h \<in> {Login, Callback, Logout}"
    using plain_routes Dispatch that by (cases "pt_oidc p") auto
  from route_status [OF assms this] Dispatch show ?thesis by (simp add: serve_mux_def)
qed (simp_all add: serve_mux_def)

lemma handler_status:
  assumes "pt_ca p = None \<longleftrightarrow> c_profiles (pt_cfg p) = []" "\<And>u q. rs_status (files u q) \<noteq> 0"
  shows "rs_status (fst (portal_handler p files r clk s)) \<noteq> 0"
proof -
  have "rs_status (fst (gate p files r clk s)) \<noteq> 0"
    using mux_status [OF assms] by (auto simp: gate_def require_session_def split: option.splits sum.splits if_splits)
  then show ?thesis by (auto simp: portal_handler_def split: option.split prod.split)
qed

section \<open>Properties\<close>

text \<open>
  C35. A server that starts is whole. Its configuration is one that is safe to run; it has the
  authority of each kind of profile that is configured, and signs people in exactly when it is
  configured to; the lists of revoked credentials have been published; the state it starts from is one
  of the service's, so that everything shown of those holds; and no request, whatever it asks for and
  whenever, reaches a part that is missing: each gets an answer.
\<close>

theorem started_server_is_whole:
  assumes "start_server V path generate dir clk rng w = (Inr (p, s), w')"
    and "\<And>u q. rs_status (files u q) \<noteq> 0"
  shows "config_ok (ce_env (sv_cmd V)) (pt_cfg p) \<and> service p files [] s \<and> pt_store p = memory_api
    \<and> (pt_ca p = None \<longleftrightarrow> c_profiles (pt_cfg p) = [])
    \<and> (pt_ssh_ca p = None \<longleftrightarrow> c_ssh_profiles (pt_cfg p) = [])
    \<and> (pt_oidc p = None \<longleftrightarrow> a_mode (c_auth (pt_cfg p)) = auth_proxy)
    \<and> (\<forall>r clk t. rs_status (fst (portal_handler p files r clk t)) \<noteq> 0)"
proof -
  obtain cfg ca ssh_ca rng1 w1 where *:
    "config_load (ce_env (sv_cmd V)) (ce_decode (sv_cmd V)) path = Inr cfg"
    "ca = None \<longleftrightarrow> c_profiles cfg = []" "ssh_ca = None \<longleftrightarrow> c_ssh_profiles cfg = []"
    "build_portal V cfg ca ssh_ca = Inr p"
    "publish_revocations p (\<lambda>n. clk (n + 1)) (new_portal_state cfg rng1 w1) = (Inr (), s)"
    using start_server_Inr [OF assms(1)] .
  note p = build_portal_Inr [OF *(4)]
  have ok: "config_ok (ce_env (sv_cmd V)) cfg" using config_load_ok [OF *(1)] .
  have "service p files [] (new_portal_state (pt_cfg p) rng1 w1)" by (rule service.start)
  from service.tick [OF this, of "\<lambda>n. clk (n + 1)"] have service: "service p files [] s" using *(5) p(1) by simp
  have mode: "a_mode (c_auth cfg) \<noteq> auth_oidc \<longleftrightarrow> a_mode (c_auth cfg) = auth_proxy"
    using ok by (auto simp: config_ok_def auth_ok_def auth_proxy_def auth_oidc_def)
  have whole: "pt_ca p = None \<longleftrightarrow> c_profiles (pt_cfg p) = []" using *(2) p by simp
  then have "\<forall>r clk t. rs_status (fst (portal_handler p files r clk t)) \<noteq> 0"
    using handler_status [where files = files, OF whole assms(2)] by blast
  with ok service *(3) p whole mode show ?thesis by simp
qed

text \<open>A start with one SSH profile, behind a proxy.\<close>

definition toy_command_env :: command_env where
  "toy_command_env =
     \<lparr>ce_env = plain_env (\<lambda>path. if path = ''gruff.yaml'' then Some ''yaml'' else if path = ''ssh/ca'' then Some ''ca'' else None),
      ce_decode = (\<lambda>_. Some example_decoded), ce_ssh = toy_ssh_env, ce_pki = toy_pki_env,
      ce_stdin = Some ''key''\<rparr>"

definition toy_server_env :: server_env where
  "toy_server_env =
     \<lparr>sv_cmd = toy_command_env, sv_aes_gcm = (\<lambda>_. None), sv_discover = (\<lambda>_. None),
      sv_lib = \<lparr>pl_parse = (\<lambda>_. Some (\<lambda>_. Some [])), pl_execute = (\<lambda>_ _. []), pl_env = example_env,
               pl_oidc = toy_lib, pl_pki = toy_pki_env, pl_ssh = toy_ssh_env\<rparr>,
      sv_level_ok = (\<lambda>_. True), sv_version = ''dev'', sv_commit = ''unknown''\<rparr>"

lemma toy_start:
  "\<exists>p s w'. start_server toy_server_env ''gruff.yaml'' False [] (\<lambda>_. 0) [] example_world = (Inr (p, s), w')
     \<and> pt_ssh_ca p = Some toy_ca \<and> pt_cfg p = example_config"
proof -
  have env: "sv_cmd toy_server_env = toy_command_env" "ce_decode toy_command_env = (\<lambda>_. Some example_decoded)"
    "ce_ssh toy_command_env = toy_ssh_env"
    by (simp_all add: toy_server_env_def toy_command_env_def)
  have cfg: "config_load (ce_env toy_command_env) (\<lambda>_. Some example_decoded) ''gruff.yaml'' = Inr example_config"
    unfolding toy_command_env_def command_env.select_convs by (rule example_loads_from) simp
  have c: "c_profiles example_config = []" "c_ssh_profiles example_config = [example_ssh_profile]"
    "c_ssh_ca_private_file example_config = ''ssh/ca''" "\<not> c_configdir_enabled example_config"
    "a_mode (c_auth example_config) \<noteq> auth_oidc"
    by (simp_all add: example_config_def with_defaults_def example_decoded_def auth_proxy_def auth_oidc_def)
  have "ssh_load (ce_env toy_command_env) toy_ssh_env ''ssh/ca'' = Inr toy_ca"
    by (simp add: ssh_load_def toy_command_env_def plain_env_def toy_ssh_env_def)
  then have ca: "load_ca toy_command_env example_config False [] 0 rw = (Inr None, rw)"
    "load_ssh_ca toy_command_env example_config False [] rw = (Inr (Some toy_ca), rw)" for rw
    by (simp_all add: load_ca_def load_ssh_ca_def c env)
  have "pl_parse (lib_of toy_server_env) = (\<lambda>_. Some (\<lambda>_. Some []))" by (simp add: lib_of_def toy_server_env_def)
  then obtain ts where t: "parse_templates (pl_parse (lib_of toy_server_env)) = Inr ts"
    by (simp add: parse_templates_def pages_def fail_if_def)
  obtain p where p: "build_portal toy_server_env example_config None (Some toy_ca) = Inr p"
    by (simp add: build_portal_def setup_auth_def c new_portal_def t)
  note q = build_portal_Inr [OF p]
  have "publish_revocations p clk s = (Inr (), s)" for clk s
    using c q by (simp add: publish_revocations_def)
  then have "start_server toy_server_env ''gruff.yaml'' False [] (\<lambda>_. 0) [] example_world
      = (Inr (p, new_portal_state example_config [] example_world), example_world)"
    unfolding start_server_def env cfg by (simp add: ca c write_configdir_def p new_portal_state_def)
  with q show ?thesis by simp
qed

theorem started_server_is_whole_witness:
  "\<exists>p s w'. start_server toy_server_env ''gruff.yaml'' False [] (\<lambda>_. 0) [] example_world = (Inr (p, s), w')
     \<and> pt_ssh_ca p = Some toy_ca \<and> service p toy_files [] s \<and> pt_oidc p = None
     \<and> rs_status (fst (portal_handler p toy_files toy_post (\<lambda>_. 0) s)) \<noteq> 0"
proof -
  obtain p s w' where h: "start_server toy_server_env ''gruff.yaml'' False [] (\<lambda>_. 0) [] example_world = (Inr (p, s), w')"
    "pt_ssh_ca p = Some toy_ca" "pt_cfg p = example_config" using toy_start by blast
  have "rs_status (toy_files u q) \<noteq> 0" for u q by (simp add: toy_files_def)
  note w = started_server_is_whole [where files = toy_files, OF h(1) this]
  have "a_mode (c_auth (pt_cfg p)) = auth_proxy" by (simp add: h(3) example_config_def)
  with h(1,2) w show ?thesis by blast
qed

text \<open>
  C36. The command the setup page tells an operator to run cannot be run. The page's sshd
  configuration says \<^verbatim>\<open>gruff sign-host -host\<close> and a name, but the subcommand has no flag of that name:
  whatever host and whatever else is configured, it is refused before anything is signed.
\<close>

theorem setup_command_refused:
  "(\<exists>a b. sshd_config cfg = a @ ''gruff sign-host -host '' @ example_host cfg @ b)
   \<and> sign_host_command E [''-host'', host] now rng = Inl (FlagProblem (FlagNotDefined ''host''))"
proof -
  have f: "flag_prefix ''-host'' = ''host''" "split_equals ''host'' = (''host'', None)" by code_simp+
  have "parse_flags sign_host_flags [''-host'', host] [] = Inl (FlagNotDefined ''host'')"
    by (simp add: f sign_host_flags_def)
  then have "sign_host_command E [''-host'', host] now rng = Inl (FlagProblem (FlagNotDefined ''host''))"
    by (simp add: sign_host_command_def)
  with sshd_config_command [of cfg] show ?thesis by blast
qed

end
