(* ===== verification/Spec2Isabelle.thy ===== *)
theory Spec2Isabelle
  imports Config_Decode Service_Bounds Startup
begin

text \<open>
  Gruff, a portal that issues short-lived OpenVPN and SSH credentials to people an identity provider
  or an authenticating proxy has identified.

  \<^bold>\<open>The program and its parts.\<close> \<^verbatim>\<open>cmd/gruff\<close> reads a configuration, loads or generates an X.509 and an SSH
  authority, writes the files an OpenVPN server reads, and serves the portal; two subcommands sign
  certificates for hosts and servers. The portal identifies the caller of a request by headers of the
  proxy or by an encrypted session cookie that an OpenID Connect login left, checks roles and a rate
  limit, issues a credential, records it in an audit store, and lets its owner or an administrator revoke
  it; the revocations are published as a CRL for OpenVPN and a KRL for sshd. Each Go package is one or
  several theories, and the calls between packages are calls between the definitions.

  \<^bold>\<open>Libraries under the model.\<close> These model what the source uses of Go's standard library:
  \<^item> \<open>Gruff_Prelude\<close>: results (\<^verbatim>\<open>(T, error)\<close> is a sum), \<^verbatim>\<open>slices\<close>, \<^verbatim>\<open>cmp\<close>, \<^verbatim>\<open>time\<close>; the orders that sort by
    \<^verbatim>\<open>cmp.Compare\<close> as the locale \<open>preorder_cmp\<close>.
  \<^item> \<open>Go_Strings\<close>, \<open>Go_Time\<close>, \<open>Go_Net\<close>, \<open>Base64\<close>, \<open>Float64\<close>: \<^verbatim>\<open>strings\<close>, \<^verbatim>\<open>utf8\<close>, \<^verbatim>\<open>strconv\<close>, durations and
    calendar, \<^verbatim>\<open>netip\<close> and \<^verbatim>\<open>net\<close>, \<^verbatim>\<open>encoding/base64\<close>, and \<^verbatim>\<open>float64\<close> as rationals with rounding to nearest.
  \<^item> \<open>File_System\<close>, \<open>Path_Laws\<close>: \<^verbatim>\<open>path/filepath\<close> and a file system of directory entries and nodes with
    a trace of what its readers can see, whose calls may each fail.
  \<^item> \<open>Wire\<close>: \<^verbatim>\<open>encoding/binary\<close> and the SSH wire format, with the locale \<open>wire_codec\<close> for its round trips.
  \<^item> \<open>Http\<close>, \<open>Serve_Mux\<close>: requests, cookies, responses, percent decoding, the patterns of \<^verbatim>\<open>ServeMux\<close> with its
    redirects and refusals, and \<^verbatim>\<open>CrossOriginProtection\<close>.

  \<^bold>\<open>Components.\<close>
  \<^item> \<open>Config_Auth\<close> (\<^verbatim>\<open>config/auth.go\<close>), \<open>Config_Profile\<close>, \<open>Config_Decode\<close> and \<open>Config\<close> (\<^verbatim>\<open>config/config.go\<close>): the
    settings as records with the Go fields, decoding of durations and networks, defaults, every check of
    \<^verbatim>\<open>validate\<close> with its error, and \<^verbatim>\<open>Load\<close>. \<open>config_ok\<close> is what validation promises; the locales \<open>role_grant\<close> and \<open>named_lookup\<close>
    are the role checks and the lookups by name, for VPN and for SSH.
  \<^item> \<open>Session_Store\<close> and \<open>Store_Laws\<close> (\<^verbatim>\<open>portal/session.go\<close>, \<^verbatim>\<open>portal/revoke.go\<close>): the in-memory store; the locales
    \<open>audit_store\<close> and \<open>revoking_store\<close> are what the portal relies on in the interfaces \<^verbatim>\<open>Store\<close> and
    \<^verbatim>\<open>Revoker\<close>, interpreted by the store. \<open>store_run\<close> is a history of operations.
  \<^item> \<open>Rate_Limit\<close> and \<open>Rate_Bound\<close> (\<^verbatim>\<open>portal/ratelimit.go\<close>): token buckets in \<^verbatim>\<open>float64\<close>, and the bound on
    what one user is granted over any history, with the allowance for rounding explicit.
  \<^item> \<open>Atomic_File\<close> (\<^verbatim>\<open>atomicfile\<close>): create, fill, sync, close, rename, remove, with every failure.
  \<^item> \<open>Openvpn\<close> (\<^verbatim>\<open>openvpn/*.go\<close>): the client-config and firewall files of every profile.
  \<^item> \<open>Pki\<close> (\<^verbatim>\<open>pki/*.go\<close>) and \<open>Ssh_Ca\<close> (\<^verbatim>\<open>sshca/*.go\<close>): authorities, client, server, user and host
    certificates, CRLs and KRLs; the KRL is written byte by byte and decoded again.
  \<^item> \<open>Auth_Session\<close> (\<^verbatim>\<open>authsession\<close>) and \<open>Oidc\<close> (\<^verbatim>\<open>oidcauth/oidcauth.go\<close>): sealed cookies, and the login from
    its start to its callback, with the roles found in a claim of any shape.
  \<^item> \<open>Metrics\<close> (\<^verbatim>\<open>portal/metrics.go\<close>) and \<open>Ssh_Install\<close> (\<^verbatim>\<open>portal/sshinstall.go\<close>): the text a scraper reads, and
    the installer script byte by byte.
  \<^item> \<open>Portal\<close> (\<^verbatim>\<open>portal/portal.go\<close>, \<^verbatim>\<open>portal/auth.go\<close>), \<open>Portal_Issue\<close> (\<^verbatim>\<open>handlers.go\<close>, \<^verbatim>\<open>ssh.go\<close>), \<open>Portal_Revoke\<close>
    (\<^verbatim>\<open>publish.go\<close>, the handler of \<^verbatim>\<open>revoke.go\<close>, the gauges), \<open>Portal_Setup\<close> (\<^verbatim>\<open>setup.go\<close>) and \<open>Portal_Routes\<close>
    (\<^verbatim>\<open>routes.go\<close>): every handler as a function from the state to a response and a state. A portal is the
    record \<open>portal\<close> of what \<^verbatim>\<open>New\<close> fixes, \<open>portal_state\<close> what requests change: store, limiter, counters,
    entropy left and files. Handlers read the clock as often as the code does: \<open>clk n\<close> is the reading
    \<open>n\<close> of a request.
  \<^item> \<open>Portal_Service\<close>: the portal as a service. \<open>permitted\<close> says which operation of the store a caller may
    cause; \<open>performs\<close> is that as a step relation, \<open>service\<close> the states that requests, ticks and scrapes reach, with
    the requests answered on the way. \<open>Service_Bounds\<close> carries the rate limit and the counters over it.
  \<^item> \<open>Command_Line\<close> (\<^verbatim>\<open>cmd/gruff/signhost.go\<close>, \<^verbatim>\<open>signserver.go\<close>) and \<open>Startup\<close> (\<^verbatim>\<open>cmd/gruff/main.go\<close>): flags, subcommands,
    and the order in which the server is put together.

  \<^bold>\<open>What the lemmas show.\<close> Each component has the laws of its operations first (round trips, exact results
  on every branch, preservation of its invariant) and its properties after them. What one component
  promises is a lemma the next one uses: \<open>config_load_ok\<close> gives what the handlers need of the
  configuration, the laws of the store give the accountability of issuing and revoking, those of the
  sealed cookies give that a session is of somebody who logged in. The last layer puts them
  together: every request refines the specification of the store, every reachable state keeps the
  invariant of the service and its rate limit, and a server that starts is in such a state with every part it needs.

  \<^bold>\<open>Integers, time and fuel.\<close> Go's \<^verbatim>\<open>int64\<close> durations are integers whose operations saturate or truncate as
  \<^verbatim>\<open>time\<close> does; serials, key usages and lengths on the wire are words of their width. Instants are
  integers of nanoseconds; Go's monotonic reading is not told apart from the wall clock. No model of code
  runs on fuel: the loops are structural recursions, folds, or functions with a termination proof. The one
  fuelled function is \<open>read_all\<close> of \<open>Wire\<close>, a decoder the KRL property reads the list back with, and one unit
  per item is proved enough.

  \<^bold>\<open>Parameters.\<close> Cryptography (AES-GCM, X.509 and SSH signing, key generation), JSON and YAML decoding,
  HTML templates, the identity provider with the go-oidc and oauth2 libraries, \<^verbatim>\<open>url.Parse\<close>, and the
  embedded static files are arguments of the definitions, grouped in records; the properties that
  need something of them name it as a hypothesis, and the witnesses instantiate it.
  Entropy is the string of bytes that is still to be drawn.

  \<^bold>\<open>Not modelled.\<close> \<^verbatim>\<open>serve\<close>, the two listeners with their timeouts, signals and the drain at shutdown (only
  scheduling and I/O); the logger and every log line; the locks around the store, the limiter and the
  counters (an operation is one step); the text of the HTML templates and of the usage message of
  \<^verbatim>\<open>flag\<close>; the field tags that steer YAML and JSON decoding; \<^verbatim>\<open>web/embed.go\<close> (an embed directive); and
  \<^verbatim>\<open>oidctest\<close>, a fake provider only the Go tests use.
\<close>

end
